(* ===== verification/Prelude.thy ===== *)
theory Prelude
  imports Main "HOL-Library.Sublist"
begin

text \<open>
  Shared vocabulary of the development: signed 64-bit arithmetic as Go's \<open>int\<close> and
  \<open>int64\<close> perform it, durations and instants in nanoseconds, the decimal text that
  \<open>fmt\<close> and \<open>strconv\<close> print and parse, and the list lemmas on tables of rows that
  every component uses.  Later theories collect their unfolding and preservation facts in the
  collections declared here.
\<close>

named_theorems table_simps "facts on tables of rows with identifiers"
named_theorems preserve_intros "rules that lift a relation on tables through the statements of the code"
named_theorems row_inv "facts that extract one row property from a table invariant"

section \<open>Go integers\<close>

text \<open>
  \<open>int\<close> (64 bits on the platforms the service is built for) and \<open>int64\<close> are
  integers whose \<open>+\<close>, \<open>-\<close> and \<open>*\<close> wrap around modulo \<open>2^64\<close>.
\<close>

definition in_i64 :: "int \<Rightarrow> bool" where
  "in_i64 x \<longleftrightarrow> - 9223372036854775808 \<le> x \<and> x < 9223372036854775808"

definition wrap64 :: "int \<Rightarrow> int" where
  "wrap64 x = (x + 9223372036854775808) mod 18446744073709551616 - 9223372036854775808"

definition sat64 :: "int \<Rightarrow> int" where
  "sat64 x = (if x < - 9223372036854775808 then - 9223372036854775808
              else if 9223372036854775808 \<le> x then 9223372036854775807 else x)"

lemma wrap64_id [simp]: "in_i64 x \<Longrightarrow> wrap64 x = x"
  by (simp add: in_i64_def wrap64_def)

lemma wrap64_range [simp, intro]: "in_i64 (wrap64 x)"
  using pos_mod_bound [of "18446744073709551616" "x + 9223372036854775808"]
    pos_mod_sign [of "18446744073709551616" "x + 9223372036854775808"]
  by (simp add: in_i64_def wrap64_def)

lemma wrap64_idem [simp]: "wrap64 (wrap64 x) = wrap64 x"
  by simp

lemma sat64_range [simp, intro]: "in_i64 (sat64 x)"
  by (simp add: in_i64_def sat64_def)

lemma sat64_id [simp]: "in_i64 x \<Longrightarrow> sat64 x = x"
  by (simp add: in_i64_def sat64_def)

lemma wrap64_dec: "0 < x \<Longrightarrow> in_i64 x \<Longrightarrow> wrap64 (x - 1) = x - 1"
  by (rule wrap64_id) (simp add: in_i64_def)

lemma wrap64_inc: "0 \<le> x \<Longrightarrow> in_i64 (x + 1) \<Longrightarrow> wrap64 (x + 1) = x + 1"
  by (rule wrap64_id)

section \<open>Instants and durations\<close>

text \<open>
  An instant (\<open>time.Time\<close>) is its distance from the epoch in nanoseconds, a duration
  (\<open>time.Duration\<close>) a signed 64-bit count of nanoseconds: the product
  \<open>time.Duration(n) * time.Second\<close> wraps, \<open>t.Sub(u)\<close> saturates.
\<close>

type_synonym instant = int
type_synonym duration = int

definition go_second :: duration where
  "go_second = 1000000000"

definition go_hour :: duration where
  "go_hour = 3600000000000"

definition seconds_duration :: "int \<Rightarrow> duration" where
  "seconds_duration n = wrap64 (n * go_second)"

definition time_before :: "instant \<Rightarrow> instant \<Rightarrow> bool" where
  "time_before t u \<longleftrightarrow> t < u"

definition time_after :: "instant \<Rightarrow> instant \<Rightarrow> bool" where
  "time_after t u \<longleftrightarrow> u < t"

definition time_sub :: "instant \<Rightarrow> instant \<Rightarrow> duration" where
  "time_sub t u = sat64 (t - u)"

lemma seconds_duration_exact:
  "- 9223372036 \<le> n \<Longrightarrow> n \<le> 9223372036 \<Longrightarrow> seconds_duration n = n * 1000000000"
  by (simp add: seconds_duration_def go_second_def in_i64_def)

section \<open>Decimal text\<close>

definition digit_char :: "nat \<Rightarrow> char" where
  "digit_char d = ''0123456789'' ! (d mod 10)"

definition digit_value :: "char \<Rightarrow> nat option" where
  "digit_value c =
     (let code = of_char c :: nat in if 48 \<le> code \<and> code \<le> 57 then Some (code - 48) else None)"

fun utoa :: "nat \<Rightarrow> string" where
  "utoa n = (if n < 10 then [digit_char n] else utoa (n div 10) @ [digit_char (n mod 10)])"

declare utoa.simps [simp del]

definition itoa :: "int \<Rightarrow> string" where
  "itoa n = (if n < 0 then CHR ''-'' # utoa (nat (- n)) else utoa (nat n))"

definition digits_value :: "string \<Rightarrow> nat option" where
  "digits_value s = foldl (\<lambda>acc c. case (acc, digit_value c) of
     (Some n, Some d) \<Rightarrow> Some (10 * n + d) | _ \<Rightarrow> None) (Some 0) s"

lemma nat_less_10_cases:
  "(d::nat) < 10 \<Longrightarrow> d = 0 \<or> d = 1 \<or> d = 2 \<or> d = 3 \<or> d = 4 \<or> d = 5 \<or> d = 6 \<or> d = 7 \<or> d = 8 \<or> d = 9"
  by arith

lemma digit_value_digit_char [simp]: "d < 10 \<Longrightarrow> digit_value (digit_char d) = Some d"
  by (drule nat_less_10_cases) (auto simp: digit_value_def digit_char_def)

lemma digits_value_snoc:
  "digits_value (s @ [c]) = (case (digits_value s, digit_value c) of
     (Some n, Some d) \<Rightarrow> Some (10 * n + d) | _ \<Rightarrow> None)"
  by (simp add: digits_value_def)

lemma digits_value_utoa [simp]: "digits_value (utoa n) = Some n"
proof (induction n rule: utoa.induct)
  case (1 n)
  show ?case
  proof (cases "n < 10")
    case True
    then show ?thesis
      using digits_value_snoc [of "[]" "digit_char n"]
      by (subst utoa.simps) (simp add: digits_value_def)
  next
    case False
    with 1 have "digits_value (utoa (n div 10)) = Some (n div 10)" by simp
    with False show ?thesis by (subst utoa.simps) (simp add: digits_value_snoc)
  qed
qed

lemma utoa_inject [simp]: "utoa m = utoa n \<longleftrightarrow> m = n"
  by (metis digits_value_utoa option.inject)

lemma utoa_not_Nil [simp]: "utoa n \<noteq> []" "[] \<noteq> utoa n"
  by (subst utoa.simps, simp)+

lemma digits_value_None_if:
  "c \<in> set s \<Longrightarrow> digit_value c = None \<Longrightarrow> digits_value s = None"
  by (induction s rule: rev_induct) (auto simp: digits_value_snoc split: option.splits)

lemma utoa_digits: "c \<in> set (utoa n) \<Longrightarrow> digit_value c \<noteq> None"
  using digits_value_None_if [of c "utoa n"] by auto

lemma colon_not_in_utoa [simp]: "CHR '':'' \<notin> set (utoa n)"
  using utoa_digits [of "CHR '':''" n] by (auto simp: digit_value_def)

lemma minus_not_in_utoa [simp]: "CHR ''-'' \<notin> set (utoa n)"
  using utoa_digits [of "CHR ''-''" n] by (auto simp: digit_value_def)

lemma append_sep_inject:
  "c \<notin> set a \<Longrightarrow> c \<notin> set b \<Longrightarrow> a @ c # x = b @ c # y \<longleftrightarrow> a = b \<and> x = y"
proof (induction a arbitrary: b)
  case Nil
  then show ?case by (cases b) auto
next
  case (Cons d a)
  then show ?case by (cases b) auto
qed

lemma itoa_inject [simp]: "itoa m = itoa n \<longleftrightarrow> m = n"
proof -
  have hd: "utoa k \<noteq> CHR ''-'' # s" for k s
    using minus_not_in_utoa [of k] by (metis list.set_intros(1))
  show ?thesis
    using hd by (auto simp: itoa_def hd [symmetric])
qed

section \<open>Tables of rows\<close>

text \<open>
  A table is the list of its rows in the order of their primary keys, \<open>key\<close> reads the
  primary key.  \<open>save_row\<close> writes a whole row under its key (and adds it when no row has
  that key), \<open>next_id\<close> is the key an insert gets: larger than every key in use, by a gap
  the database chooses.
\<close>

definition keys :: "('r \<Rightarrow> nat) \<Rightarrow> 'r list \<Rightarrow> nat set" where
  "keys key rs = key ` set rs"

definition next_id :: "('r \<Rightarrow> nat) \<Rightarrow> nat \<Rightarrow> 'r list \<Rightarrow> nat" where
  "next_id key gap rs = Suc (fold max (map key rs) 0 + gap)"

definition put_row :: "('r \<Rightarrow> nat) \<Rightarrow> 'r \<Rightarrow> 'r list \<Rightarrow> 'r list" where
  "put_row key r rs = map (\<lambda>x. if key x = key r then r else x) rs"

definition save_row :: "('r \<Rightarrow> nat) \<Rightarrow> 'r \<Rightarrow> 'r list \<Rightarrow> 'r list" where
  "save_row key r rs = (if key r \<in> key ` set rs then put_row key r rs else rs @ [r])"

lemma fold_max_le: "(a::nat) \<le> fold max xs a"
proof (induction xs arbitrary: a)
  case (Cons x xs)
  have "a \<le> max x a" by simp
  also have "\<dots> \<le> fold max xs (max x a)" by (rule Cons.IH)
  finally show ?case by simp
qed simp

lemma fold_max_ge: "(x::nat) \<in> set xs \<Longrightarrow> x \<le> fold max xs a"
proof (induction xs arbitrary: a)
  case (Cons y xs)
  show ?case
  proof (cases "x = y")
    case True
    have "x \<le> max y a" using True by simp
    also have "\<dots> \<le> fold max xs (max y a)" by (rule fold_max_le)
    finally show ?thesis by simp
  next
    case False
    with Cons show ?thesis by simp
  qed
qed simp

lemma next_id_fresh [table_simps]: "r \<in> set rs \<Longrightarrow> key r < next_id key gap rs"
  using fold_max_ge [of "key r" "map key rs" 0] by (auto simp: next_id_def)

lemma next_id_pos [simp]: "0 < next_id key gap rs"
  by (simp add: next_id_def)

lemma next_id_not_in: "next_id key gap rs \<notin> key ` set rs"
  using next_id_fresh [of _ rs key gap] by fastforce

lemma save_row_in: "r0 \<in> set rs \<Longrightarrow> key r0 = key r \<Longrightarrow> save_row key r rs = put_row key r rs"
  by (metis image_eqI save_row_def)

lemma map_key_put_row [simp]: "map key (put_row key r rs) = map key rs"
  by (simp add: put_row_def)

lemma image_put_row: "key ` set (put_row key r rs) = key ` set rs"
  by (metis list.set_map map_key_put_row)

lemma length_put_row [simp]: "length (put_row key r rs) = length rs"
  by (simp add: put_row_def)

lemma set_put_row:
  "set (put_row key r rs) = {x \<in> set rs. key x \<noteq> key r} \<union> (if key r \<in> key ` set rs then {r} else {})"
  by (auto simp: put_row_def image_iff)

lemma distinct_key_unique:
  "distinct (map key rs) \<Longrightarrow> x \<in> set rs \<Longrightarrow> y \<in> set rs \<Longrightarrow> key x = key y \<Longrightarrow> x = y"
  by (simp add: distinct_map inj_on_def)

lemma put_row_notin: "key r \<notin> key ` set rs \<Longrightarrow> put_row key r rs = rs"
  unfolding put_row_def by (rule map_idI) (auto simp: image_iff)

text \<open>
  The one counting lemma behind every conservation law: writing one row changes a sum over the
  table by the difference of that row's contributions.
\<close>

lemma sum_list_put_row:
  fixes f :: "'r \<Rightarrow> int"
  assumes "distinct (map key rs)" and "r0 \<in> set rs" and "key r0 = key r"
  shows "sum_list (map f (put_row key r rs)) = sum_list (map f rs) - f r0 + f r"
  using assms
proof (induction rs)
  case (Cons x rs)
  show ?case
  proof (cases "key x = key r")
    case True
    with Cons.prems have "x = r0" by (auto simp: image_iff)
    moreover have "put_row key r rs = rs"
      using True Cons.prems(1) by (intro put_row_notin) auto
    ultimately show ?thesis using True by (simp add: put_row_def)
  next
    case False
    with Cons.prems have "r0 \<in> set rs" by auto
    with Cons False show ?thesis by (simp add: put_row_def)
  qed
qed simp

lemma find_SomeD: "find P xs = Some x \<Longrightarrow> x \<in> set xs \<and> P x"
  by (induction xs) (auto split: if_splits)

lemma find_NoneD: "find P xs = None \<Longrightarrow> x \<in> set xs \<Longrightarrow> \<not> P x"
  by (induction xs) (auto split: if_splits)

lemma find_key_unique:
  "distinct (map key rs) \<Longrightarrow> r \<in> set rs \<Longrightarrow> find (\<lambda>x. key x = key r) rs = Some r"
  by (induction rs) (auto simp: image_iff)

lemma find_put_row_same:
  "r0 \<in> set rs \<Longrightarrow> key r0 = key r \<Longrightarrow> find (\<lambda>x. key x = key r) (put_row key r rs) = Some r"
  by (induction rs) (auto simp: put_row_def)

lemma find_put_row_other:
  "k \<noteq> key r \<Longrightarrow> find (\<lambda>x. key x = k) (put_row key r rs) = find (\<lambda>x. key x = k) rs"
  by (induction rs) (auto simp: put_row_def)

lemma find_append_row:
  "find P (xs @ [x]) = (case find P xs of Some y \<Rightarrow> Some y | None \<Rightarrow> if P x then Some x else None)"
  by (induction xs) auto

lemmas put_row_simps = set_put_row find_put_row_same find_put_row_other

declare put_row_simps [table_simps] save_row_in [table_simps]

end
