(* ===== verification/Model.thy ===== *)
theory Model
  imports Prelude
begin

text \<open>
  The data model of \<^verbatim>\<open>internal/model/model.go\<close>: one record per table with the fields of
  the Go struct (a prefix tells the tables apart), the status and role constants, their
  validity checks and the unique key of an activity order.  Identifiers (\<open>uint\<close>) are
  naturals, \<open>int\<close> and \<open>int64\<close> columns are integers in the signed 64-bit range, instants
  are nanoseconds.
\<close>

section \<open>Statuses and roles\<close>

definition OrderStatusQueued :: string where "OrderStatusQueued = ''QUEUED''"
definition OrderStatusWaitPay :: string where "OrderStatusWaitPay = ''WAIT_PAY''"
definition OrderStatusPaid :: string where "OrderStatusPaid = ''PAID''"
definition OrderStatusCancelled :: string where "OrderStatusCancelled = ''CANCELLED''"
definition OrderStatusClosed :: string where "OrderStatusClosed = ''CLOSED''"

definition ActivityStatusPublished :: string where "ActivityStatusPublished = ''PUBLISHED''"
definition ActivityStatusOffline :: string where "ActivityStatusOffline = ''OFFLINE''"
definition ActivityStatusEnded :: string where "ActivityStatusEnded = ''ENDED''"

definition UserRoleUser :: string where "UserRoleUser = ''USER''"
definition UserRoleAdmin :: string where "UserRoleAdmin = ''ADMIN''"

definition UserCouponUnused :: string where "UserCouponUnused = ''UNUSED''"
definition UserCouponUsed :: string where "UserCouponUsed = ''USED''"
definition UserCouponExpired :: string where "UserCouponExpired = ''EXPIRED''"

lemmas order_status_defs = OrderStatusQueued_def OrderStatusWaitPay_def OrderStatusPaid_def
  OrderStatusCancelled_def OrderStatusClosed_def
lemmas activity_status_defs = ActivityStatusPublished_def ActivityStatusOffline_def
  ActivityStatusEnded_def
lemmas user_role_defs = UserRoleUser_def UserRoleAdmin_def
lemmas user_coupon_defs = UserCouponUnused_def UserCouponUsed_def UserCouponExpired_def

lemma order_status_distinct [simp]:
  "OrderStatusQueued \<noteq> OrderStatusWaitPay" "OrderStatusWaitPay \<noteq> OrderStatusQueued"
  "OrderStatusQueued \<noteq> OrderStatusPaid" "OrderStatusPaid \<noteq> OrderStatusQueued"
  "OrderStatusQueued \<noteq> OrderStatusCancelled" "OrderStatusCancelled \<noteq> OrderStatusQueued"
  "OrderStatusQueued \<noteq> OrderStatusClosed" "OrderStatusClosed \<noteq> OrderStatusQueued"
  "OrderStatusWaitPay \<noteq> OrderStatusPaid" "OrderStatusPaid \<noteq> OrderStatusWaitPay"
  "OrderStatusWaitPay \<noteq> OrderStatusCancelled" "OrderStatusCancelled \<noteq> OrderStatusWaitPay"
  "OrderStatusWaitPay \<noteq> OrderStatusClosed" "OrderStatusClosed \<noteq> OrderStatusWaitPay"
  "OrderStatusPaid \<noteq> OrderStatusCancelled" "OrderStatusCancelled \<noteq> OrderStatusPaid"
  "OrderStatusPaid \<noteq> OrderStatusClosed" "OrderStatusClosed \<noteq> OrderStatusPaid"
  "OrderStatusCancelled \<noteq> OrderStatusClosed" "OrderStatusClosed \<noteq> OrderStatusCancelled"
  by (simp_all add: order_status_defs)

definition IsValidUserRole :: "string \<Rightarrow> bool" where
  "IsValidUserRole role \<longleftrightarrow> role = UserRoleUser \<or> role = UserRoleAdmin"

definition IsValidActivityStatus :: "string \<Rightarrow> bool" where
  "IsValidActivityStatus status \<longleftrightarrow>
     status = ActivityStatusPublished \<or> status = ActivityStatusOffline \<or> status = ActivityStatusEnded"

section \<open>Tables\<close>

record user =
  u_id :: nat
  u_username :: string
  u_password_hash :: string
  u_role :: string
  u_created :: instant
  u_updated :: instant

record product =
  p_id :: nat
  p_name :: string
  p_price :: int
  p_stock :: int
  p_created :: instant
  p_updated :: instant

record address =
  ad_id :: nat
  ad_user :: nat
  ad_receiver :: string
  ad_phone :: string
  ad_province :: string
  ad_city :: string
  ad_detail :: string
  ad_default :: bool
  ad_created :: instant
  ad_updated :: instant

record cart_item =
  ci_id :: nat
  ci_user :: nat
  ci_product :: nat
  ci_quantity :: int
  ci_created :: instant
  ci_updated :: instant

record coupon =
  c_id :: nat
  c_title :: string
  c_threshold :: int
  c_discount :: int
  c_stock :: int
  c_start :: instant
  c_end :: instant
  c_created :: instant
  c_updated :: instant

record user_coupon =
  uc_id :: nat
  uc_user :: nat
  uc_coupon :: nat
  uc_status :: string
  uc_created :: instant
  uc_updated :: instant

record activity =
  a_id :: nat
  a_product :: nat
  a_name :: string
  a_price :: int
  a_stock :: int
  a_status :: string
  a_start :: instant
  a_end :: instant
  a_created :: instant
  a_updated :: instant

record order =
  o_id :: nat
  o_order_no :: string
  o_request_id :: string
  o_user :: nat
  o_product :: nat
  o_activity :: nat
  o_key :: "string option"
  o_address :: nat
  o_user_coupon :: nat
  o_original :: int
  o_discount :: int
  o_amount :: int
  o_status :: string
  o_created :: instant
  o_updated :: instant

record order_item =
  oi_id :: nat
  oi_order :: nat
  oi_order_no :: string
  oi_product :: nat
  oi_name :: string
  oi_price :: int
  oi_quantity :: int
  oi_created :: instant
  oi_updated :: instant

record payment =
  pm_id :: nat
  pm_transaction :: string
  pm_order_no :: string
  pm_status :: string
  pm_created :: instant
  pm_updated :: instant

record operation_log =
  l_id :: nat
  l_action :: string
  l_order_no :: string
  l_user :: nat
  l_result :: string
  l_message :: string
  l_created :: instant

section \<open>The unique key of an activity order\<close>

definition NewActivityOrderKey :: "nat \<Rightarrow> nat \<Rightarrow> string option" where
  "NewActivityOrderKey userID activityID =
     (if userID = 0 \<or> activityID = 0 then None
      else Some (utoa userID @ '':'' @ utoa activityID))"

lemma NewActivityOrderKey_None_iff:
  "NewActivityOrderKey u a = None \<longleftrightarrow> u = 0 \<or> a = 0"
  by (simp add: NewActivityOrderKey_def)

lemma NewActivityOrderKey_inject:
  assumes "NewActivityOrderKey u a = Some k" and "NewActivityOrderKey u' a' = Some k"
  shows "u = u' \<and> a = a'"
  using assms by (auto simp: NewActivityOrderKey_def append_sep_inject split: if_splits)

end
