(* ===== verification/World.thy ===== *)
theory World
  imports Model
begin

text \<open>
  The state a service method runs in and the computations the methods are written as.

  The services talk to a SQL database through \<^verbatim>\<open>gorm\<close>, to Redis and to RabbitMQ.  The
  contents of the database are the tables of \<^theory_text>\<open>Model\<close>; everything these systems
  decide on their own is the record \<open>outside\<close>, a parameter no definition looks into: whether the
  \<open>k\<close>-th external call of the run fails and with which error, whether a failed call to Redis or
  RabbitMQ still took effect, the reading of the clock, random bytes, the gap the database leaves
  between identifiers, the wording of a unique-constraint error.  Every theorem therefore holds
  for every pattern of failures.

  A method is a computation \<open>'a go\<close>: it takes the world and returns an error or a value together
  with the world it leaves.  \<open>bindE m f\<close> is Go's \<open>x, err := m; if err != nil { return err }; f(x)\<close>.
\<close>

section \<open>Errors\<close>

datatype ext_error = CtxCanceled | CtxDeadlineExceeded | DriverError string

datatype goerr =
    ErrActivityNotFound | ErrActivityNotAvailable | ErrSoldOut | ErrDuplicateOrder
  | ErrOrderNotFound | ErrIllegalTransition | ErrRecordNotFound
  | ErrText string
  | Ext ext_error

fun err_text :: "goerr \<Rightarrow> string" where
  "err_text ErrActivityNotFound = ''activity not found''"
| "err_text ErrActivityNotAvailable = ''activity is not available''"
| "err_text ErrSoldOut = ''activity sold out''"
| "err_text ErrDuplicateOrder = ''user already has an order for this activity''"
| "err_text ErrOrderNotFound = ''order not found''"
| "err_text ErrIllegalTransition = ''illegal order status transition''"
| "err_text ErrRecordNotFound = ''record not found''"
| "err_text (ErrText s) = s"
| "err_text (Ext CtxCanceled) = ''context canceled''"
| "err_text (Ext CtxDeadlineExceeded) = ''context deadline exceeded''"
| "err_text (Ext (DriverError s)) = s"

section \<open>The world\<close>

record outside =
  fault :: "nat \<Rightarrow> ext_error option"
  landed :: "nat \<Rightarrow> bool"
  clock :: "nat \<Rightarrow> instant"
  entropy :: "nat \<Rightarrow> (nat \<Rightarrow> nat) option"
  stamp14 :: "instant \<Rightarrow> string"
  stamp_utc :: "instant \<Rightarrow> string"
  id_gap :: "nat \<Rightarrow> nat"
  uniq_msg :: "string \<Rightarrow> string"

record tables =
  users :: "user list"
  products :: "product list"
  addresses :: "address list"
  cart_items :: "cart_item list"
  coupons :: "coupon list"
  user_coupons :: "user_coupon list"
  activities :: "activity list"
  orders :: "order list"
  order_items :: "order_item list"
  payments :: "payment list"
  operation_logs :: "operation_log list"

text \<open>Redis maps a key to a counter, another string, or a set of strings, each with an expiry.\<close>

datatype rval = RNum int | RRaw string | RSet "string list"

record rentry =
  rv :: rval
  rexp :: "instant option"

type_synonym redis_db = "string \<Rightarrow> rentry option"

record world =
  ext :: outside
  tick :: nat
  tables :: tables
  redis :: redis_db
  mq :: "string list"
  dlq :: "string list"
  tasks :: "string list"

type_synonym 'a go = "world \<Rightarrow> (goerr + 'a) \<times> world"

section \<open>Computations\<close>

definition ret :: "'a \<Rightarrow> 'a go" where
  "ret x = (\<lambda>w. (Inr x, w))"

definition throw :: "goerr \<Rightarrow> 'a go" where
  "throw e = (\<lambda>w. (Inl e, w))"

definition bindE :: "'a go \<Rightarrow> ('a \<Rightarrow> 'b go) \<Rightarrow> 'b go" where
  "bindE m f = (\<lambda>w. case m w of (Inl e, w') \<Rightarrow> (Inl e, w') | (Inr x, w') \<Rightarrow> f x w')"

abbreviation thenE :: "'a go \<Rightarrow> 'b go \<Rightarrow> 'b go" where
  "thenE m n \<equiv> bindE m (\<lambda>_. n)"

text \<open>\<open>on_error m h\<close>: \<open>if err := m; err != nil { h(err) }\<close>; \<open>attempt m\<close> keeps the error as a value.\<close>

definition on_error :: "'a go \<Rightarrow> (goerr \<Rightarrow> 'a go) \<Rightarrow> 'a go" where
  "on_error m h = (\<lambda>w. case m w of (Inl e, w') \<Rightarrow> h e w' | (Inr x, w') \<Rightarrow> (Inr x, w'))"

definition attempt :: "'a go \<Rightarrow> (goerr + 'a) go" where
  "attempt m = (\<lambda>w. case m w of (r, w') \<Rightarrow> (Inr r, w'))"

definition guardE :: "bool \<Rightarrow> goerr \<Rightarrow> unit go" where
  "guardE b e = (if b then ret () else throw e)"

definition time_now :: "instant go" where
  "time_now = (\<lambda>w. (Inr (clock (ext w) (tick w)), w\<lparr>tick := Suc (tick w)\<rparr>))"

text \<open>One statement sent to the database: the driver may fail it, and then it changes nothing.\<close>

definition stmt :: "(outside \<Rightarrow> nat \<Rightarrow> tables \<Rightarrow> goerr + 'a \<times> tables) \<Rightarrow> 'a go" where
  "stmt q = (\<lambda>w.
     let w' = w\<lparr>tick := Suc (tick w)\<rparr> in
     case fault (ext w) (tick w) of
       Some e \<Rightarrow> (Inl (Ext e), w')
     | None \<Rightarrow>
         (case q (ext w) (tick w) (tables w) of
            Inl e \<Rightarrow> (Inl e, w')
          | Inr (x, t) \<Rightarrow> (Inr x, w'\<lparr>tables := t\<rparr>)))"

text \<open>
  \<open>db.Transaction(body)\<close>: begin, the body, commit.  An error of the body or of the commit
  restores the tables; what the body did outside the database stays.
\<close>

definition transaction :: "'a go \<Rightarrow> 'a go" where
  "transaction m = (\<lambda>w.
     case stmt (\<lambda>_ _ t. Inr ((), t)) w of
       (Inl e, w0) \<Rightarrow> (Inl e, w0)
     | (Inr _, w0) \<Rightarrow>
         (case m w0 of
            (Inl e, w1) \<Rightarrow> (Inl e, w1\<lparr>tables := tables w\<rparr>)
          | (Inr x, w1) \<Rightarrow>
              (case stmt (\<lambda>_ _ t. Inr ((), t)) w1 of
                 (Inl e, w2) \<Rightarrow> (Inl e, w2\<lparr>tables := tables w\<rparr>)
               | (Inr _, w2) \<Rightarrow> (Inr x, w2))))"

text \<open>
  One call to Redis: a failed call may have been executed (\<open>landed\<close>), its reply is then lost.
  A server-side error keeps what the script wrote before it.
\<close>

definition redis_call :: "(instant \<Rightarrow> redis_db \<Rightarrow> (string + 'a) \<times> redis_db) \<Rightarrow> 'a go" where
  "redis_call q = (\<lambda>w.
     let w' = w\<lparr>tick := Suc (tick w)\<rparr>; (r, db) = q (clock (ext w) (tick w)) (redis w) in
     case fault (ext w) (tick w) of
       Some e \<Rightarrow> (Inl (Ext e), if landed (ext w) (tick w) then w'\<lparr>redis := db\<rparr> else w')
     | None \<Rightarrow> (map_sum (Ext \<circ> DriverError) id r, w'\<lparr>redis := db\<rparr>))"

text \<open>One message handed to the broker; again a failed call may have been executed.\<close>

definition broker_put :: "bool \<Rightarrow> string \<Rightarrow> world \<Rightarrow> world" where
  "broker_put dead body w =
     (if dead then w\<lparr>dlq := dlq w @ [body]\<rparr> else w\<lparr>mq := mq w @ [body]\<rparr>)"

definition broker_call :: "bool \<Rightarrow> string \<Rightarrow> unit go" where
  "broker_call dead body = (\<lambda>w.
     let w' = w\<lparr>tick := Suc (tick w)\<rparr> in
     case fault (ext w) (tick w) of
       Some e \<Rightarrow> (Inl (Ext e), if landed (ext w) (tick w) then broker_put dead body w' else w')
     | None \<Rightarrow> (Inr (), broker_put dead body w'))"

section \<open>What a successful run consists of\<close>

named_theorems run_simps "a run of a computation that returns normally, step by step"

lemma ret_run [run_simps]: "ret x w = (r, w') \<longleftrightarrow> r = Inr x \<and> w' = w"
  by (auto simp: ret_def)

lemma throw_run [run_simps]: "throw e w = (r, w') \<longleftrightarrow> r = Inl e \<and> w' = w"
  by (auto simp: throw_def)

lemma bindE_ok [run_simps]:
  "bindE m f w = (Inr y, w') \<longleftrightarrow> (\<exists>x w1. m w = (Inr x, w1) \<and> f x w1 = (Inr y, w'))"
  by (auto simp: bindE_def split: prod.splits sum.splits)

lemma bindE_err:
  "bindE m f w = (Inl e, w') \<longleftrightarrow>
     m w = (Inl e, w') \<or> (\<exists>x w1. m w = (Inr x, w1) \<and> f x w1 = (Inl e, w'))"
  by (auto simp: bindE_def split: prod.splits sum.splits)

lemma on_error_ok [run_simps]:
  "on_error m h w = (Inr y, w') \<longleftrightarrow>
     m w = (Inr y, w') \<or> (\<exists>e w1. m w = (Inl e, w1) \<and> h e w1 = (Inr y, w'))"
  by (auto simp: on_error_def split: prod.splits sum.splits)

lemma on_error_err:
  "on_error m h w = (Inl e, w') \<longleftrightarrow> (\<exists>e0 w1. m w = (Inl e0, w1) \<and> h e0 w1 = (Inl e, w'))"
  by (auto simp: on_error_def split: prod.splits sum.splits)

lemma attempt_ok [run_simps]:
  "attempt m w = (r, w') \<longleftrightarrow> (\<exists>x. r = Inr x \<and> m w = (x, w'))"
  by (auto simp: attempt_def split: prod.splits)

lemma guardE_ok [run_simps]: "guardE b e w = (Inr x, w') \<longleftrightarrow> b \<and> w' = w"
  by (auto simp: guardE_def ret_def throw_def)

lemma guardE_err: "guardE b e w = (Inl e', w') \<longleftrightarrow> \<not> b \<and> e' = e \<and> w' = w"
  by (auto simp: guardE_def ret_def throw_def)

lemma time_now_ok [run_simps]:
  "time_now w = (r, w') \<longleftrightarrow> r = Inr (clock (ext w) (tick w)) \<and> w' = w\<lparr>tick := Suc (tick w)\<rparr>"
  by (auto simp: time_now_def)

lemma stmt_ok [run_simps]:
  "stmt q w = (Inr x, w') \<longleftrightarrow>
     fault (ext w) (tick w) = None \<and>
     (\<exists>t. q (ext w) (tick w) (tables w) = Inr (x, t) \<and> w' = w\<lparr>tick := Suc (tick w), tables := t\<rparr>)"
  by (auto simp: stmt_def Let_def split: option.splits sum.splits prod.splits)

lemma stmt_err:
  "stmt q w = (Inl e, w') \<Longrightarrow> w' = w\<lparr>tick := Suc (tick w)\<rparr>"
  by (auto simp: stmt_def Let_def split: option.splits sum.splits prod.splits)

lemma transaction_ok:
  "transaction m w = (Inr x, w') \<longleftrightarrow>
     fault (ext w) (tick w) = None \<and>
     (\<exists>w1. m (w\<lparr>tick := Suc (tick w)\<rparr>) = (Inr x, w1) \<and>
        fault (ext w1) (tick w1) = None \<and> w' = w1\<lparr>tick := Suc (tick w1)\<rparr>)"
  by (auto simp: transaction_def stmt_def Let_def split: option.splits sum.splits prod.splits)

lemma transaction_err: "transaction m w = (Inl e, w') \<Longrightarrow> tables w' = tables w"
  by (auto simp: transaction_def stmt_def Let_def split: option.splits sum.splits prod.splits)

section \<open>Lifting a relation on tables\<close>

text \<open>
  \<open>tracks R m\<close>: whatever happens, the tables before and after \<open>m\<close> are related by \<open>R\<close>.  For a
  reflexive and transitive \<open>R\<close> it follows from the same fact on the parts of \<open>m\<close>; for a
  transaction it suffices that every body that reaches its commit relates the tables.
\<close>

definition tracks :: "(tables \<Rightarrow> tables \<Rightarrow> bool) \<Rightarrow> 'a go \<Rightarrow> bool" where
  "tracks R m \<longleftrightarrow> (\<forall>w. R (tables w) (tables (snd (m w))))"

lemma tracksI: "(\<And>w r w'. m w = (r, w') \<Longrightarrow> R (tables w) (tables w')) \<Longrightarrow> tracks R m"
  unfolding tracks_def by (metis prod.collapse)

lemma tracksD: "tracks R m \<Longrightarrow> m w = (r, w') \<Longrightarrow> R (tables w) (tables w')"
  unfolding tracks_def by (metis snd_conv)

locale table_preorder =
  fixes R :: "tables \<Rightarrow> tables \<Rightarrow> bool"
  assumes R_refl: "R t t"
    and R_trans: "R t1 t2 \<Longrightarrow> R t2 t3 \<Longrightarrow> R t1 t3"
begin

lemma tracks_ret: "tracks R (ret x)"
  by (simp add: tracks_def ret_def R_refl)

lemma tracks_throw: "tracks R (throw e)"
  by (simp add: tracks_def throw_def R_refl)

lemma tracks_guard: "tracks R (guardE b e)"
  by (simp add: guardE_def tracks_ret tracks_throw)

lemma tracks_time_now: "tracks R time_now"
  by (simp add: tracks_def time_now_def R_refl)

lemma tracks_redis: "tracks R (redis_call q)"
  by (rule tracksI)
     (auto simp: redis_call_def Let_def R_refl split: option.splits prod.splits if_splits)

lemma tracks_broker: "tracks R (broker_call d b)"
  by (rule tracksI)
     (auto simp: broker_call_def broker_put_def Let_def R_refl split: option.splits if_splits)

lemma tracks_bindE:
  assumes "tracks R m" and "\<And>x. tracks R (f x)"
  shows "tracks R (bindE m f)"
proof (rule tracksI)
  fix w r w'
  assume run: "bindE m f w = (r, w')"
  obtain r1 w1 where m: "m w = (r1, w1)" by (cases "m w")
  with assms(1) have 1: "R (tables w) (tables w1)" by (rule tracksD)
  show "R (tables w) (tables w')"
  proof (cases r1)
    case (Inl e)
    with m run 1 show ?thesis by (simp add: bindE_def)
  next
    case (Inr x)
    with m run have "f x w1 = (r, w')" by (simp add: bindE_def)
    with assms(2) have "R (tables w1) (tables w')" by (rule tracksD)
    with 1 show ?thesis by (rule R_trans)
  qed
qed

lemma tracks_on_error:
  assumes "tracks R m" and "\<And>e. tracks R (h e)"
  shows "tracks R (on_error m h)"
proof (rule tracksI)
  fix w r w'
  assume run: "on_error m h w = (r, w')"
  obtain r1 w1 where m: "m w = (r1, w1)" by (cases "m w")
  with assms(1) have 1: "R (tables w) (tables w1)" by (rule tracksD)
  show "R (tables w) (tables w')"
  proof (cases r1)
    case (Inr x)
    with m run 1 show ?thesis by (simp add: on_error_def)
  next
    case (Inl e)
    with m run have "h e w1 = (r, w')" by (simp add: on_error_def)
    with assms(2) have "R (tables w1) (tables w')" by (rule tracksD)
    with 1 show ?thesis by (rule R_trans)
  qed
qed

lemma tracks_attempt: "tracks R m \<Longrightarrow> tracks R (attempt m)"
  by (rule tracksI) (auto simp: attempt_ok dest: tracksD)

lemma tracks_transaction:
  assumes "\<And>w x w'. m w = (Inr x, w') \<Longrightarrow> R (tables w) (tables w')"
  shows "tracks R (transaction m)"
proof (rule tracksI)
  fix w r w'
  assume run: "transaction m w = (r, w')"
  show "R (tables w) (tables w')"
  proof (cases r)
    case (Inl e)
    with run have "tables w' = tables w" by (auto dest: transaction_err)
    then show ?thesis by (simp add: R_refl)
  next
    case (Inr x)
    with run obtain w1 where "m (w\<lparr>tick := Suc (tick w)\<rparr>) = (Inr x, w1)"
      and "w' = w1\<lparr>tick := Suc (tick w1)\<rparr>"
      by (auto simp: transaction_ok)
    with assms show ?thesis by fastforce
  qed
qed

lemma tracks_stmt:
  assumes "\<And>e k t x t'. q e k t = Inr (x, t') \<Longrightarrow> R t t'"
  shows "tracks R (stmt q)"
proof (rule tracksI)
  fix w r w'
  assume run: "stmt q w = (r, w')"
  show "R (tables w) (tables w')"
  proof (cases r)
    case (Inl e)
    with run show ?thesis by (auto dest: stmt_err simp: R_refl)
  next
    case (Inr x)
    with run assms show ?thesis by (auto simp: stmt_ok)
  qed
qed

lemmas tracks_basic = tracks_ret tracks_throw tracks_guard tracks_time_now
  tracks_redis tracks_broker

end

text \<open>The finest instance: nothing but the tick of the run changes in the tables.\<close>

interpretation same_tables: table_preorder "\<lambda>t t'. t' = t"
  by unfold_locales auto

abbreviation reads_only :: "'a go \<Rightarrow> bool" where
  "reads_only \<equiv> tracks (\<lambda>t t'. t' = t)"

lemma reads_onlyD: "reads_only m \<Longrightarrow> m w = (r, w') \<Longrightarrow> tables w' = tables w"
  by (drule tracksD) auto

section \<open>Nothing outside fails\<close>

definition quiet :: "outside \<Rightarrow> bool" where
  "quiet e \<longleftrightarrow> (\<forall>k. fault e k = None)"

lemma quiet_stmt: "quiet (ext w) \<Longrightarrow> stmt q w =
    (case q (ext w) (tick w) (tables w) of Inl e \<Rightarrow> (Inl e, w\<lparr>tick := Suc (tick w)\<rparr>)
     | Inr (x, t) \<Rightarrow> (Inr x, w\<lparr>tick := Suc (tick w), tables := t\<rparr>))"
  by (simp add: quiet_def stmt_def Let_def split: sum.splits)

end
