(* ===== verification/Store.thy ===== *)
theory Store
  imports World
begin

text \<open>
  The statements the services send through \<^verbatim>\<open>gorm\<close>: the SQL conditions are those written in
  the source, the unique indexes those of the struct tags in \<^verbatim>\<open>internal/model/model.go\<close>.
  \<open>First\<close> returns the matching row with the least primary key or \<open>gorm.ErrRecordNotFound\<close>,
  \<open>Create\<close> assigns a fresh key and both time stamps, \<open>Save\<close> writes the whole row and its
  \<open>updated_at\<close>, \<open>Update\<close> writes one column and \<open>updated_at\<close>, \<open>UpdateColumn\<close> one column only.
  The theory ends with the service log and the start-up migration of
  \<^verbatim>\<open>internal/database/database.go\<close>.
\<close>

section \<open>Reading\<close>

definition first_by :: "(tables \<Rightarrow> 'r list) \<Rightarrow> ('r \<Rightarrow> bool) \<Rightarrow> 'r go" where
  "first_by sel P = stmt (\<lambda>_ _ t. case find P (sel t) of
     None \<Rightarrow> Inl ErrRecordNotFound | Some r \<Rightarrow> Inr (r, t))"

definition find_all :: "(tables \<Rightarrow> 'r list) \<Rightarrow> ('r \<Rightarrow> bool) \<Rightarrow> 'r list go" where
  "find_all sel P = stmt (\<lambda>_ _ t. Inr (filter P (sel t), t))"

text \<open>\<open>Order("id desc")\<close>: the rows are kept in the order of their identifiers.\<close>

definition find_desc :: "(tables \<Rightarrow> 'r list) \<Rightarrow> ('r \<Rightarrow> bool) \<Rightarrow> 'r list go" where
  "find_desc sel P = stmt (\<lambda>_ _ t. Inr (rev (filter P (sel t)), t))"

definition count_by :: "(tables \<Rightarrow> 'r list) \<Rightarrow> ('r \<Rightarrow> bool) \<Rightarrow> nat go" where
  "count_by sel P = stmt (\<lambda>_ _ t. Inr (length (filter P (sel t)), t))"

lemma first_by_ok [run_simps]:
  "first_by sel P w = (Inr r, w') \<longleftrightarrow>
     fault (ext w) (tick w) = None \<and> find P (sel (tables w)) = Some r \<and> w' = w\<lparr>tick := Suc (tick w)\<rparr>"
  by (auto simp: first_by_def stmt_ok split: option.splits)

lemma find_all_ok [run_simps]:
  "find_all sel P w = (Inr r, w') \<longleftrightarrow>
     fault (ext w) (tick w) = None \<and> r = filter P (sel (tables w)) \<and> w' = w\<lparr>tick := Suc (tick w)\<rparr>"
  by (auto simp: find_all_def stmt_ok)

lemma find_desc_ok [run_simps]:
  "find_desc sel P w = (Inr r, w') \<longleftrightarrow>
     fault (ext w) (tick w) = None \<and> r = rev (filter P (sel (tables w))) \<and> w' = w\<lparr>tick := Suc (tick w)\<rparr>"
  by (auto simp: find_desc_def stmt_ok)

lemma count_by_ok [run_simps]:
  "count_by sel P w = (Inr n, w') \<longleftrightarrow>
     fault (ext w) (tick w) = None \<and> n = length (filter P (sel (tables w))) \<and> w' = w\<lparr>tick := Suc (tick w)\<rparr>"
  by (auto simp: count_by_def stmt_ok)

section \<open>Unique indexes\<close>

definition unique_error :: "outside \<Rightarrow> string \<Rightarrow> goerr" where
  "unique_error e idx = Ext (DriverError (uniq_msg e idx))"

definition user_conflict :: "user list \<Rightarrow> user \<Rightarrow> string option" where
  "user_conflict rs r =
     (if \<exists>x\<in>set rs. u_id x \<noteq> u_id r \<and> u_username x = u_username r
      then Some ''idx_users_username'' else None)"

definition cart_conflict :: "cart_item list \<Rightarrow> cart_item \<Rightarrow> string option" where
  "cart_conflict rs r =
     (if \<exists>x\<in>set rs. ci_id x \<noteq> ci_id r \<and> ci_user x = ci_user r \<and> ci_product x = ci_product r
      then Some ''idx_user_product'' else None)"

definition user_coupon_conflict :: "user_coupon list \<Rightarrow> user_coupon \<Rightarrow> string option" where
  "user_coupon_conflict rs r =
     (if \<exists>x\<in>set rs. uc_id x \<noteq> uc_id r \<and> uc_user x = uc_user r \<and> uc_coupon x = uc_coupon r
      then Some ''idx_user_coupon'' else None)"

definition order_conflict :: "order list \<Rightarrow> order \<Rightarrow> string option" where
  "order_conflict rs r =
     (if \<exists>x\<in>set rs. o_id x \<noteq> o_id r \<and> o_order_no x = o_order_no r
      then Some ''idx_orders_order_no''
      else if o_key r \<noteq> None \<and> (\<exists>x\<in>set rs. o_id x \<noteq> o_id r \<and> o_key x = o_key r)
      then Some ''idx_orders_activity_order_key'' else None)"

definition payment_conflict :: "payment list \<Rightarrow> payment \<Rightarrow> string option" where
  "payment_conflict rs r =
     (if \<exists>x\<in>set rs. pm_id x \<noteq> pm_id r \<and> pm_transaction x = pm_transaction r
      then Some ''idx_payments_transaction_no'' else None)"

section \<open>Writing\<close>

definition create_user :: "user \<Rightarrow> user go" where
  "create_user u = stmt (\<lambda>e k t.
     let r = u\<lparr>u_id := next_id u_id (id_gap e k) (users t), u_created := clock e k, u_updated := clock e k\<rparr> in
     case user_conflict (users t) r of
       Some idx \<Rightarrow> Inl (unique_error e idx)
     | None \<Rightarrow> Inr (r, t\<lparr>users := users t @ [r]\<rparr>))"

definition save_user :: "user \<Rightarrow> user go" where
  "save_user u = stmt (\<lambda>e k t.
     let r = u\<lparr>u_updated := clock e k\<rparr> in
     case user_conflict (users t) r of
       Some idx \<Rightarrow> Inl (unique_error e idx)
     | None \<Rightarrow> Inr (r, t\<lparr>users := save_row u_id r (users t)\<rparr>))"

definition create_product :: "product \<Rightarrow> product go" where
  "create_product p = stmt (\<lambda>e k t.
     let r = p\<lparr>p_id := next_id p_id (id_gap e k) (products t), p_created := clock e k, p_updated := clock e k\<rparr> in
     Inr (r, t\<lparr>products := products t @ [r]\<rparr>))"

definition save_product :: "product \<Rightarrow> product go" where
  "save_product p = stmt (\<lambda>e k t.
     let r = p\<lparr>p_updated := clock e k\<rparr> in
     Inr (r, t\<lparr>products := save_row p_id r (products t)\<rparr>))"

definition create_address :: "address \<Rightarrow> address go" where
  "create_address a = stmt (\<lambda>e k t.
     let r = a\<lparr>ad_id := next_id ad_id (id_gap e k) (addresses t), ad_created := clock e k, ad_updated := clock e k\<rparr> in
     Inr (r, t\<lparr>addresses := addresses t @ [r]\<rparr>))"

definition save_address :: "address \<Rightarrow> address go" where
  "save_address a = stmt (\<lambda>e k t.
     let r = a\<lparr>ad_updated := clock e k\<rparr> in
     Inr (r, t\<lparr>addresses := save_row ad_id r (addresses t)\<rparr>))"

definition clear_default_addresses :: "nat \<Rightarrow> unit go" where
  "clear_default_addresses uid = stmt (\<lambda>e k t.
     Inr ((), t\<lparr>addresses := map (\<lambda>a. if ad_user a = uid
                then a\<lparr>ad_default := False, ad_updated := clock e k\<rparr> else a) (addresses t)\<rparr>))"

definition create_cart_item :: "cart_item \<Rightarrow> cart_item go" where
  "create_cart_item c = stmt (\<lambda>e k t.
     let r = c\<lparr>ci_id := next_id ci_id (id_gap e k) (cart_items t), ci_created := clock e k, ci_updated := clock e k\<rparr> in
     case cart_conflict (cart_items t) r of
       Some idx \<Rightarrow> Inl (unique_error e idx)
     | None \<Rightarrow> Inr (r, t\<lparr>cart_items := cart_items t @ [r]\<rparr>))"

definition save_cart_item :: "cart_item \<Rightarrow> cart_item go" where
  "save_cart_item c = stmt (\<lambda>e k t.
     let r = c\<lparr>ci_updated := clock e k\<rparr> in
     case cart_conflict (cart_items t) r of
       Some idx \<Rightarrow> Inl (unique_error e idx)
     | None \<Rightarrow> Inr (r, t\<lparr>cart_items := save_row ci_id r (cart_items t)\<rparr>))"

definition delete_cart_items :: "(cart_item \<Rightarrow> bool) \<Rightarrow> unit go" where
  "delete_cart_items P = stmt (\<lambda>_ _ t.
     Inr ((), t\<lparr>cart_items := filter (\<lambda>c. \<not> P c) (cart_items t)\<rparr>))"

definition create_coupon :: "coupon \<Rightarrow> coupon go" where
  "create_coupon c = stmt (\<lambda>e k t.
     let r = c\<lparr>c_id := next_id c_id (id_gap e k) (coupons t), c_created := clock e k, c_updated := clock e k\<rparr> in
     Inr (r, t\<lparr>coupons := coupons t @ [r]\<rparr>))"

definition save_coupon :: "coupon \<Rightarrow> coupon go" where
  "save_coupon c = stmt (\<lambda>e k t.
     let r = c\<lparr>c_updated := clock e k\<rparr> in
     Inr (r, t\<lparr>coupons := save_row c_id r (coupons t)\<rparr>))"

definition create_user_coupon :: "user_coupon \<Rightarrow> user_coupon go" where
  "create_user_coupon c = stmt (\<lambda>e k t.
     let r = c\<lparr>uc_id := next_id uc_id (id_gap e k) (user_coupons t), uc_created := clock e k, uc_updated := clock e k\<rparr> in
     case user_coupon_conflict (user_coupons t) r of
       Some idx \<Rightarrow> Inl (unique_error e idx)
     | None \<Rightarrow> Inr (r, t\<lparr>user_coupons := user_coupons t @ [r]\<rparr>))"

definition save_user_coupon :: "user_coupon \<Rightarrow> user_coupon go" where
  "save_user_coupon c = stmt (\<lambda>e k t.
     let r = c\<lparr>uc_updated := clock e k\<rparr> in
     case user_coupon_conflict (user_coupons t) r of
       Some idx \<Rightarrow> Inl (unique_error e idx)
     | None \<Rightarrow> Inr (r, t\<lparr>user_coupons := save_row uc_id r (user_coupons t)\<rparr>))"

definition create_activity :: "activity \<Rightarrow> activity go" where
  "create_activity a = stmt (\<lambda>e k t.
     let r = a\<lparr>a_id := next_id a_id (id_gap e k) (activities t), a_created := clock e k, a_updated := clock e k\<rparr> in
     Inr (r, t\<lparr>activities := activities t @ [r]\<rparr>))"

definition save_activity :: "activity \<Rightarrow> activity go" where
  "save_activity a = stmt (\<lambda>e k t.
     let r = a\<lparr>a_updated := clock e k\<rparr> in
     Inr (r, t\<lparr>activities := save_row a_id r (activities t)\<rparr>))"

definition create_order :: "order \<Rightarrow> order go" where
  "create_order ord = stmt (\<lambda>e k t.
     let r = ord\<lparr>o_id := next_id o_id (id_gap e k) (orders t), o_created := clock e k, o_updated := clock e k\<rparr> in
     case order_conflict (orders t) r of
       Some idx \<Rightarrow> Inl (unique_error e idx)
     | None \<Rightarrow> Inr (r, t\<lparr>orders := orders t @ [r]\<rparr>))"

definition save_order :: "order \<Rightarrow> order go" where
  "save_order ord = stmt (\<lambda>e k t.
     let r = ord\<lparr>o_updated := clock e k\<rparr> in
     case order_conflict (orders t) r of
       Some idx \<Rightarrow> Inl (unique_error e idx)
     | None \<Rightarrow> Inr (r, t\<lparr>orders := save_row o_id r (orders t)\<rparr>))"

definition create_order_item :: "order_item \<Rightarrow> order_item go" where
  "create_order_item i = stmt (\<lambda>e k t.
     let r = i\<lparr>oi_id := next_id oi_id (id_gap e k) (order_items t), oi_created := clock e k, oi_updated := clock e k\<rparr> in
     Inr (r, t\<lparr>order_items := order_items t @ [r]\<rparr>))"

definition create_payment :: "payment \<Rightarrow> payment go" where
  "create_payment p = stmt (\<lambda>e k t.
     let r = p\<lparr>pm_id := next_id pm_id (id_gap e k) (payments t), pm_created := clock e k, pm_updated := clock e k\<rparr> in
     case payment_conflict (payments t) r of
       Some idx \<Rightarrow> Inl (unique_error e idx)
     | None \<Rightarrow> Inr (r, t\<lparr>payments := payments t @ [r]\<rparr>))"

section \<open>The operation log of the services\<close>

definition create_log :: "operation_log \<Rightarrow> operation_log go" where
  "create_log l = stmt (\<lambda>e k t.
     let r = l\<lparr>l_id := next_id l_id (id_gap e k) (operation_logs t), l_created := clock e k\<rparr> in
     Inr (r, t\<lparr>operation_logs := operation_logs t @ [r]\<rparr>))"

text \<open>\<open>s.log(...)\<close>: a row of the log, an error of the insert is dropped.\<close>

definition log_op :: "string \<Rightarrow> string \<Rightarrow> nat \<Rightarrow> string \<Rightarrow> string \<Rightarrow> unit go" where
  "log_op action orderNo userID result message =
     thenE (attempt (create_log \<lparr>l_id = 0, l_action = action, l_order_no = orderNo, l_user = userID,
                                l_result = result, l_message = message, l_created = 0\<rparr>))
       (ret ())"

lemma log_op_total: "\<exists>w'. log_op a no u r m w = (Inr (), w')"
  by (simp add: log_op_def bindE_def attempt_def ret_def split: prod.splits)

lemma log_op_tables:
  "log_op a no u r m w = (x, w') \<Longrightarrow>
     tables w' = (tables w)\<lparr>operation_logs := operation_logs (tables w')\<rparr> \<and> redis w' = redis w \<and>
     mq w' = mq w \<and> dlq w' = dlq w \<and> tasks w' = tasks w \<and> ext w' = ext w"
  by (auto simp: log_op_def bindE_def attempt_def ret_def create_log_def stmt_def Let_def
      split: prod.splits sum.splits option.splits)

section \<open>Start-up migration\<close>

text \<open>
  \<open>backfillActivityOrderKeys\<close> and the two column defaults of \<open>database.Open\<close>.  The condition
  \<open>activity_order_key = '' OR activity_order_key IS NULL\<close> selects orders without a key.
\<close>

definition set_order_key :: "nat \<Rightarrow> string \<Rightarrow> unit go" where
  "set_order_key oid key = stmt (\<lambda>e k t.
     case find (\<lambda>x. o_id x = oid) (orders t) of
       None \<Rightarrow> Inr ((), t)
     | Some ord \<Rightarrow>
         (let r = ord\<lparr>o_key := Some key, o_updated := clock e k\<rparr> in
          case order_conflict (orders t) r of
            Some idx \<Rightarrow> Inl (unique_error e idx)
          | None \<Rightarrow> Inr ((), t\<lparr>orders := put_row o_id r (orders t)\<rparr>)))"

fun backfill_loop :: "order list \<Rightarrow> unit go" where
  "backfill_loop [] = ret ()"
| "backfill_loop (ord # rest) =
     (case NewActivityOrderKey (o_user ord) (o_activity ord) of
        None \<Rightarrow> backfill_loop rest
      | Some key \<Rightarrow> thenE (set_order_key (o_id ord) key) (backfill_loop rest))"

definition backfillActivityOrderKeys :: "unit go" where
  "backfillActivityOrderKeys =
     bindE (find_all orders (\<lambda>r. 0 < o_activity r \<and> (o_key r = Some '''' \<or> o_key r = None)))
       backfill_loop"

text \<open>
  The two defaults select the empty text or NULL.  Both columns are \<^verbatim>\<open>not null\<close> in the schema, NULL can
  only come from an older one, and Go reads it as the empty text; here it is the empty text.
\<close>

definition default_activity_status :: "unit go" where
  "default_activity_status = stmt (\<lambda>e k t.
     Inr ((), t\<lparr>activities := map (\<lambda>a. if a_status a = ''''
       then a\<lparr>a_status := ActivityStatusPublished, a_updated := clock e k\<rparr> else a) (activities t)\<rparr>))"

definition default_user_role :: "unit go" where
  "default_user_role = stmt (\<lambda>e k t.
     Inr ((), t\<lparr>users := map (\<lambda>u. if u_role u = ''''
       then u\<lparr>u_role := UserRoleUser, u_updated := clock e k\<rparr> else u) (users t)\<rparr>))"

definition open_migrations :: "unit go" where
  "open_migrations =
     thenE backfillActivityOrderKeys (thenE default_activity_status default_user_role)"

end
