(* ===== verification/RedisStock.thy ===== *)
theory RedisStock
  imports World
begin

text \<open>
  \<^verbatim>\<open>internal/service/redis_stock.go\<close>: the activity stock kept in Redis.  The Redis commands
  the scripts call (\<open>EXISTS\<close>, \<open>SET .. EX\<close>, \<open>EXPIRE\<close>, \<open>GET\<close>, \<open>DECR\<close>, \<open>INCR\<close>,
  \<open>SISMEMBER\<close>, \<open>SADD\<close>, \<open>SREM\<close>) act on one key space with expiry; the two Lua scripts are
  translated command by command and run at one instant, a command that fails stops its script and
  keeps what was written.  A counter is the integer \<open>RNum n\<close>; \<open>RRaw s\<close> is a text that neither
  Lua's \<open>tonumber\<close> nor \<open>Sscanf("%d")\<close> accepts (no code of the repository writes one).
  Lua numbers hold integers exactly up to \<open>2^53\<close>; the model does not round beyond that.

  The theory then states what the callers rely on as the locale \<open>stock_cache\<close> (the Go interface
  \<open>stockCache\<close> of \<^verbatim>\<open>order.go\<close>) and interprets it on the scripts.
\<close>

section \<open>Redis commands\<close>

definition rget :: "instant \<Rightarrow> redis_db \<Rightarrow> string \<Rightarrow> rval option" where
  "rget now db k = (case db k of
     None \<Rightarrow> None
   | Some e \<Rightarrow> (case rexp e of
        None \<Rightarrow> Some (rv e)
      | Some x \<Rightarrow> if x \<le> now then None else Some (rv e)))"

definition wrong_type :: string where
  "wrong_type = ''WRONGTYPE Operation against a key holding the wrong kind of value''"

definition not_integer :: string where
  "not_integer = ''ERR value is not an integer or out of range''"

definition redis_set :: "instant \<Rightarrow> string \<Rightarrow> int \<Rightarrow> int \<Rightarrow> redis_db \<Rightarrow> (string + unit) \<times> redis_db" where
  "redis_set now k n ttl db =
     (if ttl \<le> 0 then (Inl ''ERR invalid expire time'', db)
      else (Inr (), db(k \<mapsto> \<lparr>rv = RNum n, rexp = Some (now + ttl * go_second)\<rparr>)))"

definition redis_expire :: "instant \<Rightarrow> string \<Rightarrow> int \<Rightarrow> redis_db \<Rightarrow> redis_db" where
  "redis_expire now k ttl db =
     (case rget now db k of
        None \<Rightarrow> db
      | Some v \<Rightarrow> if ttl \<le> 0 then db(k := None)
                  else db(k \<mapsto> \<lparr>rv = v, rexp = Some (now + ttl * go_second)\<rparr>))"

text \<open>A write that keeps the expiry of a live key and gives a new key none.\<close>

definition rput :: "instant \<Rightarrow> string \<Rightarrow> rval \<Rightarrow> redis_db \<Rightarrow> redis_db" where
  "rput now k v db =
     db(k \<mapsto> \<lparr>rv = v, rexp = (if rget now db k = None then None else (case db k of Some e \<Rightarrow> rexp e | None \<Rightarrow> None))\<rparr>)"

definition redis_add :: "instant \<Rightarrow> string \<Rightarrow> int \<Rightarrow> redis_db \<Rightarrow> (string + int) \<times> redis_db" where
  "redis_add now k d db =
     (case rget now db k of
        Some (RNum n) \<Rightarrow> (if in_i64 (n + d) then (Inr (n + d), rput now k (RNum (n + d)) db) else (Inl not_integer, db))
      | Some (RRaw _) \<Rightarrow> (Inl not_integer, db)
      | Some (RSet _) \<Rightarrow> (Inl wrong_type, db)
      | None \<Rightarrow> (Inr d, rput now k (RNum d) db))"

definition redis_sismember :: "instant \<Rightarrow> string \<Rightarrow> string \<Rightarrow> redis_db \<Rightarrow> string + bool" where
  "redis_sismember now k m db =
     (case rget now db k of
        None \<Rightarrow> Inr False
      | Some (RSet ms) \<Rightarrow> Inr (m \<in> set ms)
      | Some _ \<Rightarrow> Inl wrong_type)"

definition redis_sadd :: "instant \<Rightarrow> string \<Rightarrow> string \<Rightarrow> redis_db \<Rightarrow> (string + unit) \<times> redis_db" where
  "redis_sadd now k m db =
     (case rget now db k of
        None \<Rightarrow> (Inr (), rput now k (RSet [m]) db)
      | Some (RSet ms) \<Rightarrow> (Inr (), if m \<in> set ms then db else rput now k (RSet (ms @ [m])) db)
      | Some _ \<Rightarrow> (Inl wrong_type, db))"

definition redis_srem :: "instant \<Rightarrow> string \<Rightarrow> string \<Rightarrow> redis_db \<Rightarrow> (string + int) \<times> redis_db" where
  "redis_srem now k m db =
     (case rget now db k of
        None \<Rightarrow> (Inr 0, db)
      | Some (RSet ms) \<Rightarrow>
          (if m \<in> set ms
           then (Inr 1, if removeAll m ms = [] then db(k := None) else rput now k (RSet (removeAll m ms)) db)
           else (Inr 0, db))
      | Some _ \<Rightarrow> (Inl wrong_type, db))"

text \<open>\<open>tonumber(redis.call("GET", k) or "0")\<close>: \<open>None\<close> is Lua's \<open>nil\<close>.\<close>

definition get_number :: "instant \<Rightarrow> string \<Rightarrow> redis_db \<Rightarrow> string + int option" where
  "get_number now k db =
     (case rget now db k of
        None \<Rightarrow> Inr (Some 0)
      | Some (RNum n) \<Rightarrow> Inr (Some n)
      | Some (RRaw _) \<Rightarrow> Inr None
      | Some (RSet _) \<Rightarrow> Inl wrong_type)"

section \<open>The Lua scripts\<close>

definition reserveStockScript ::
  "string \<Rightarrow> string \<Rightarrow> int \<Rightarrow> string \<Rightarrow> int \<Rightarrow> instant \<Rightarrow> redis_db \<Rightarrow> (string + int list) \<times> redis_db" where
  "reserveStockScript sk uk initialStock userID ttl now db0 =
     (let (e0, db1) = (if rget now db0 sk = None then redis_set now sk initialStock ttl db0 else (Inr (), db0)) in
      case e0 of Inl e \<Rightarrow> (Inl e, db1) | Inr _ \<Rightarrow>
     (let db2 = redis_expire now uk ttl db1 in
      case redis_sismember now uk userID db2 of
        Inl e \<Rightarrow> (Inl e, db2)
      | Inr True \<Rightarrow>
          (case get_number now sk db2 of
             Inl e \<Rightarrow> (Inl e, db2)
           | Inr None \<Rightarrow> (Inr [-1], db2)
           | Inr (Some n) \<Rightarrow> (Inr [-1, n], db2))
      | Inr False \<Rightarrow>
          (case get_number now sk db2 of
             Inl e \<Rightarrow> (Inl e, db2)
           | Inr None \<Rightarrow> (Inl ''attempt to compare nil with number'', db2)
           | Inr (Some stock) \<Rightarrow>
               if stock \<le> 0 then (Inr [-2, stock], db2)
               else
                 (case redis_add now sk (-1) db2 of
                    (Inl e, db3) \<Rightarrow> (Inl e, db3)
                  | (Inr left, db3) \<Rightarrow>
                      (case redis_sadd now uk userID db3 of
                         (Inl e, db4) \<Rightarrow> (Inl e, db4)
                       | (Inr _, db4) \<Rightarrow> (Inr [0, left], redis_expire now uk ttl db4))))))"

definition releaseStockScript ::
  "string \<Rightarrow> string \<Rightarrow> string \<Rightarrow> instant \<Rightarrow> redis_db \<Rightarrow> (string + int) \<times> redis_db" where
  "releaseStockScript sk uk userID now db0 =
     (case redis_srem now uk userID db0 of
        (Inl e, db1) \<Rightarrow> (Inl e, db1)
      | (Inr removed, db1) \<Rightarrow>
          if removed = 1
          then (case redis_add now sk 1 db1 of
                  (Inl e, db2) \<Rightarrow> (Inl e, db2)
                | (Inr _, db2) \<Rightarrow> (Inr removed, db2))
          else (Inr removed, db1))"

section \<open>The store\<close>

definition stockKey :: "nat \<Rightarrow> string" where
  "stockKey activityID = ''order:activity:'' @ utoa activityID @ '':stock''"

definition usersKey :: "nat \<Rightarrow> string" where
  "usersKey activityID = ''order:activity:'' @ utoa activityID @ '':users''"

text \<open>
  \<open>int64(d.Seconds())\<close> for \<open>d \<ge> 0\<close>: \<open>Seconds\<close> adds whole seconds and the fraction in
  \<open>float64\<close>, which reaches the next whole second when the missing fraction is at most half a unit
  in the last place of a number of that size (never below \<open>2^24\<close> seconds).
\<close>

definition rounds_up :: "int \<Rightarrow> int \<Rightarrow> bool" where
  "rounds_up s n \<longleftrightarrow> list_ex (\<lambda>k. 2 ^ k \<le> s \<and> (1000000000 - n) * 2 ^ 53 \<le> 1000000000 * 2 ^ k) [0..<64]"

definition whole_seconds :: "duration \<Rightarrow> int" where
  "whole_seconds d =
     (let s = d div go_second; n = d mod go_second in if rounds_up s n then s + 1 else s)"

definition reserveTTL :: "instant \<Rightarrow> instant \<Rightarrow> int" where
  "reserveTTL now endAt =
     (let ttl = wrap64 (time_sub endAt now + go_hour) in
      whole_seconds (if ttl < go_hour then go_hour else ttl))"

text \<open>The text \<open>%v\<close> prints for a slice of integers.\<close>

fun slice_text :: "int list \<Rightarrow> string" where
  "slice_text [] = ''''"
| "slice_text [n] = itoa n"
| "slice_text (n # ns) = itoa n @ '' '' @ slice_text ns"

definition reserve_decode :: "int list \<Rightarrow> goerr + int" where
  "reserve_decode values =
     (case values of
        [code, stockLeft] \<Rightarrow>
          (if code = 0 then Inr stockLeft
           else if code = -1 then Inl ErrDuplicateOrder
           else if code = -2 then Inl ErrSoldOut
           else Inl (ErrText (''unexpected redis reserve code: '' @ itoa code)))
      | _ \<Rightarrow> Inl (ErrText (''unexpected redis reserve result: ['' @ slice_text values @ '']'')))"

definition cache_Reserve :: "activity \<Rightarrow> nat \<Rightarrow> int go" where
  "cache_Reserve act userID =
     bindE time_now (\<lambda>now.
     bindE (redis_call (reserveStockScript (stockKey (a_id act)) (usersKey (a_id act)) (a_stock act)
              (utoa userID) (reserveTTL now (a_end act)))) (\<lambda>values.
     (case reserve_decode values of Inl e \<Rightarrow> throw e | Inr stockLeft \<Rightarrow> ret stockLeft)))"

definition setStockPipe :: "nat \<Rightarrow> int \<Rightarrow> int \<Rightarrow> instant \<Rightarrow> redis_db \<Rightarrow> (string + unit) \<times> redis_db" where
  "setStockPipe activityID stock ttl now db =
     (let (r, db1) = redis_set now (stockKey activityID) stock ttl db in
      (r, redis_expire now (usersKey activityID) ttl db1))"

definition cache_SetStock :: "nat \<Rightarrow> int \<Rightarrow> instant \<Rightarrow> unit go" where
  "cache_SetStock activityID stock endAt =
     bindE time_now (\<lambda>now. redis_call (setStockPipe activityID stock (reserveTTL now endAt)))"

definition cache_Prewarm :: "activity \<Rightarrow> unit go" where
  "cache_Prewarm act = cache_SetStock (a_id act) (a_stock act) (a_end act)"

definition getStockCommand :: "nat \<Rightarrow> instant \<Rightarrow> redis_db \<Rightarrow> (string + (int \<times> bool)) \<times> redis_db" where
  "getStockCommand activityID now db =
     (case rget now db (stockKey activityID) of
        None \<Rightarrow> (Inr (0, False), db)
      | Some (RNum n) \<Rightarrow> (Inr (n, True), db)
      | Some (RRaw s) \<Rightarrow> (Inl (''invalid redis stock value '' @ s), db)
      | Some (RSet _) \<Rightarrow> (Inl wrong_type, db))"

definition cache_GetStock :: "nat \<Rightarrow> (int \<times> bool) go" where
  "cache_GetStock activityID = redis_call (getStockCommand activityID)"

definition cache_Release :: "nat \<Rightarrow> nat \<Rightarrow> unit go" where
  "cache_Release activityID userID =
     thenE (redis_call (releaseStockScript (stockKey activityID) (usersKey activityID) (utoa userID))) (ret ())"

section \<open>Keys and times to live\<close>

lemma stockKey_inject [simp]: "stockKey a = stockKey b \<longleftrightarrow> a = b"
  by (simp add: stockKey_def)

lemma usersKey_inject [simp]: "usersKey a = usersKey b \<longleftrightarrow> a = b"
  by (simp add: usersKey_def)

lemma stockKey_neq_usersKey [simp]: "stockKey a \<noteq> usersKey b" "usersKey b \<noteq> stockKey a"
proof -
  have "rev (stockKey a) \<noteq> rev (usersKey b)"
    by (simp add: stockKey_def usersKey_def)
  then show "stockKey a \<noteq> usersKey b" "usersKey b \<noteq> stockKey a" by metis+
qed

lemma whole_seconds_bounds:
  "d div go_second \<le> whole_seconds d \<and> whole_seconds d \<le> d div go_second + 1"
  by (simp add: whole_seconds_def Let_def)

lemma whole_seconds_exact:
  assumes "d < 16777216 * go_second"
  shows "whole_seconds d = d div go_second"
proof -
  have s: "d div go_second < 16777216"
    using assms by (simp add: go_second_def)
  have n: "d mod go_second < 1000000000" by (simp add: go_second_def)
  have "\<not> rounds_up (d div go_second) (d mod go_second)"
  proof
    assume "rounds_up (d div go_second) (d mod go_second)"
    then obtain k :: nat where k: "2 ^ k \<le> d div go_second"
      and le: "(1000000000 - d mod go_second) * 2 ^ 53 \<le> 1000000000 * 2 ^ k"
      by (auto simp: rounds_up_def list_ex_iff)
    from k s have "(2::int) ^ k < 2 ^ 24" by simp
    then have "k < 24" by (rule power_less_imp_less_exp [rotated]) simp
    then have "(2::int) ^ k \<le> 2 ^ 23" by (intro power_increasing) auto
    moreover have "1 * (2::int) ^ 53 \<le> (1000000000 - d mod go_second) * 2 ^ 53"
      using n by (intro mult_right_mono) auto
    ultimately show False using le by simp
  qed
  then show ?thesis by (simp add: whole_seconds_def)
qed

text \<open>A reservation outlives the activity by an hour and never has less than an hour.\<close>

lemma reserveTTL_ge_hour: "3600 \<le> reserveTTL now endAt"
proof -
  let ?d = "let ttl = wrap64 (time_sub endAt now + go_hour) in if ttl < go_hour then go_hour else ttl"
  have "go_hour \<le> ?d" by (simp add: Let_def)
  then have "3600 \<le> ?d div go_second" by (simp add: go_hour_def go_second_def)
  also have "\<dots> \<le> whole_seconds ?d" using whole_seconds_bounds by blast
  finally show ?thesis by (simp add: reserveTTL_def Let_def)
qed

lemma reserveTTL_pos [simp]: "\<not> reserveTTL now endAt \<le> 0"
  using reserveTTL_ge_hour [of now endAt] by linarith

lemma reserveTTL_covers:
  assumes "in_i64 (endAt - now + go_hour)" and "in_i64 (endAt - now)"
  shows "endAt < now + reserveTTL now endAt * go_second"
proof -
  let ?d = "let ttl = wrap64 (time_sub endAt now + go_hour) in if ttl < go_hour then go_hour else ttl"
  have "endAt - now + go_hour \<le> ?d"
    using assms by (simp add: Let_def time_sub_def)
  moreover have "?d - go_second < ?d div go_second * go_second"
    by (simp add: go_second_def)
  moreover have "?d div go_second * go_second \<le> reserveTTL now endAt * go_second"
    using whole_seconds_bounds [of ?d]
    by (simp add: reserveTTL_def Let_def go_second_def)
  ultimately show ?thesis by (simp add: go_hour_def go_second_def)
qed

section \<open>The stock cache interface\<close>

text \<open>
  What the order service relies on.  \<open>avail\<close> is the counter of an activity (\<open>None\<close> when the key is
  missing), \<open>holders\<close> the users who hold a reservation, \<open>alive now T\<close> says that no key expires
  between \<open>now\<close> and \<open>T\<close>.
\<close>

locale stock_cache =
  fixes reserve :: "nat \<Rightarrow> int \<Rightarrow> nat \<Rightarrow> int \<Rightarrow> instant \<Rightarrow> 'c \<Rightarrow> (string + int list) \<times> 'c"
    and release :: "nat \<Rightarrow> nat \<Rightarrow> instant \<Rightarrow> 'c \<Rightarrow> (string + int) \<times> 'c"
    and set_stock :: "nat \<Rightarrow> int \<Rightarrow> int \<Rightarrow> instant \<Rightarrow> 'c \<Rightarrow> (string + unit) \<times> 'c"
    and avail :: "instant \<Rightarrow> 'c \<Rightarrow> nat \<Rightarrow> int option"
    and holders :: "instant \<Rightarrow> 'c \<Rightarrow> nat \<Rightarrow> nat set"
    and wf :: "instant \<Rightarrow> 'c \<Rightarrow> bool"
    and alive :: "instant \<Rightarrow> instant \<Rightarrow> 'c \<Rightarrow> bool"
  assumes finite_holders: "wf now c \<Longrightarrow> finite (holders now c a)"
    and avail_range: "wf now c \<Longrightarrow> avail now c a = Some n \<Longrightarrow> in_i64 n"
    and reserve_dup:
      "wf now c \<Longrightarrow> 0 < ttl \<Longrightarrow> in_i64 init \<Longrightarrow> (case avail now c a of None \<Rightarrow> init | Some m \<Rightarrow> m) = n \<Longrightarrow>
       u \<in> holders now c a \<Longrightarrow> reserve a init u ttl now c = (r, c') \<Longrightarrow>
       r = Inr [-1, n] \<and> avail now c' = (avail now c)(a \<mapsto> n) \<and> holders now c' = holders now c"
    and reserve_sold_out:
      "wf now c \<Longrightarrow> 0 < ttl \<Longrightarrow> in_i64 init \<Longrightarrow> (case avail now c a of None \<Rightarrow> init | Some m \<Rightarrow> m) = n \<Longrightarrow>
       u \<notin> holders now c a \<Longrightarrow> n \<le> 0 \<Longrightarrow> reserve a init u ttl now c = (r, c') \<Longrightarrow>
       r = Inr [-2, n] \<and> avail now c' = (avail now c)(a \<mapsto> n) \<and> holders now c' = holders now c"
    and reserve_granted:
      "wf now c \<Longrightarrow> 0 < ttl \<Longrightarrow> in_i64 init \<Longrightarrow> (case avail now c a of None \<Rightarrow> init | Some m \<Rightarrow> m) = n \<Longrightarrow>
       u \<notin> holders now c a \<Longrightarrow> 0 < n \<Longrightarrow> reserve a init u ttl now c = (r, c') \<Longrightarrow>
       r = Inr [0, n - 1] \<and> avail now c' = (avail now c)(a \<mapsto> n - 1) \<and>
       holders now c' = (holders now c)(a := insert u (holders now c a))"
    and reserve_wf:
      "wf now c \<Longrightarrow> 0 < ttl \<Longrightarrow> in_i64 init \<Longrightarrow> reserve a init u ttl now c = (r, c') \<Longrightarrow> wf now c'"
    and reserve_alive:
      "alive now T c \<Longrightarrow> now \<le> T \<Longrightarrow> 0 < ttl \<Longrightarrow> T < now + ttl * go_second \<Longrightarrow>
       reserve a init u ttl now c = (r, c') \<Longrightarrow> alive now T c'"
    and release_holder:
      "wf now c \<Longrightarrow> avail now c a = Some n \<Longrightarrow> in_i64 (n + 1) \<Longrightarrow> u \<in> holders now c a \<Longrightarrow>
       release a u now c = (rr, c') \<Longrightarrow>
       rr = Inr 1 \<and> avail now c' = (avail now c)(a \<mapsto> n + 1) \<and>
       holders now c' = (holders now c)(a := holders now c a - {u})"
    and release_stranger:
      "wf now c \<Longrightarrow> u \<notin> holders now c a \<Longrightarrow> release a u now c = (rr, c') \<Longrightarrow>
       rr = Inr 0 \<and> avail now c' = avail now c \<and> holders now c' = holders now c"
    and release_wf: "wf now c \<Longrightarrow> release a u now c = (rr, c') \<Longrightarrow> wf now c'"
    and release_alive:
      "alive now T c \<Longrightarrow> now \<le> T \<Longrightarrow> release a u now c = (rr, c') \<Longrightarrow> alive now T c'"
    and set_stock_law:
      "wf now c \<Longrightarrow> 0 < ttl \<Longrightarrow> in_i64 n \<Longrightarrow> set_stock a n ttl now c = (ru, c') \<Longrightarrow>
       ru = Inr () \<and> wf now c' \<and> avail now c' = (avail now c)(a \<mapsto> n) \<and> holders now c' = holders now c"
    and alive_later:
      "alive now T c \<Longrightarrow> now \<le> t \<Longrightarrow> t \<le> T \<Longrightarrow>
       alive t T c \<and> wf t c = wf now c \<and> avail t c = avail now c \<and> holders t c = holders now c"
begin

text \<open>Reserved plus available: the number of units the cache accounts for.\<close>

definition total :: "instant \<Rightarrow> 'c \<Rightarrow> nat \<Rightarrow> int option" where
  "total now c a = map_option (\<lambda>n. n + int (card (holders now c a))) (avail now c a)"

lemma reserve_total:
  assumes "wf now c" and "0 < ttl" and "in_i64 init" and "avail now c a \<noteq> None"
    and run: "reserve a init u ttl now c = (r, c')"
  shows "total now c' b = total now c b"
proof -
  from assms(4) obtain n where n: "avail now c a = Some n" by auto
  then have sel: "(case avail now c a of None \<Rightarrow> init | Some m \<Rightarrow> m) = n" by simp
  consider (dup) "u \<in> holders now c a" | (out) "u \<notin> holders now c a" "n \<le> 0"
    | (ok) "u \<notin> holders now c a" "0 < n" by fastforce
  then show ?thesis
  proof cases
    case dup
    with reserve_dup [OF assms(1-3) sel _ run] n show ?thesis by (auto simp: total_def)
  next
    case out
    with reserve_sold_out [OF assms(1-3) sel _ _ run] n show ?thesis by (auto simp: total_def)
  next
    case ok
    with reserve_granted [OF assms(1-3) sel _ _ run] n finite_holders [OF assms(1), of a]
    show ?thesis by (auto simp: total_def)
  qed
qed

lemma release_total:
  assumes "wf now c" and "avail now c a = Some n" and "in_i64 (n + 1)"
    and run: "release a u now c = (r, c')"
  shows "total now c' b = total now c b"
proof (cases "u \<in> holders now c a")
  case True
  have "card (holders now c a - {u}) + 1 = card (holders now c a)"
    using True finite_holders [OF assms(1)] by (metis Suc_eq_plus1 card_Suc_Diff1)
  with release_holder [OF assms(1-3) True run] assms(2) show ?thesis
    by (auto simp: total_def)
next
  case False
  with release_stranger [OF assms(1) _ run] show ?thesis by (simp add: total_def)
qed

text \<open>Releasing what was just reserved gives back the cache as it was.\<close>

lemma reserve_release:
  assumes "wf now c" and "0 < ttl" and "in_i64 init" and "avail now c a = Some n"
    and "reserve a init u ttl now c = (Inr [0, left], c1)"
    and "release a u now c1 = (r, c2)"
  shows "avail now c2 = avail now c \<and> holders now c2 = holders now c"
proof -
  have sel: "(case avail now c a of None \<Rightarrow> init | Some m \<Rightarrow> m) = n" using assms(4) by simp
  have fresh: "u \<notin> holders now c a"
    using reserve_dup [OF assms(1-3) sel _ assms(5)] by auto
  have pos: "0 < n"
    using reserve_sold_out [OF assms(1-3) sel fresh _ assms(5)] by fastforce
  have g: "avail now c1 = (avail now c)(a \<mapsto> n - 1)"
    "holders now c1 = (holders now c)(a := insert u (holders now c a))"
    using reserve_granted [OF assms(1-3) sel fresh pos assms(5)] by auto
  have "wf now c1" by (rule reserve_wf [OF assms(1-3,5)])
  moreover have "in_i64 (n - 1 + 1)" using avail_range [OF assms(1,4)] by simp
  ultimately have "avail now c2 = (avail now c1)(a \<mapsto> n - 1 + 1)"
    "holders now c2 = (holders now c1)(a := holders now c1 a - {u})"
    using release_holder [of now c1 a "n - 1" u r c2] g assms(6) by auto
  with g fresh assms(4) show ?thesis by (auto simp: fun_eq_iff)
qed

end

section \<open>The scripts keep the contract\<close>

definition cache_avail :: "instant \<Rightarrow> redis_db \<Rightarrow> nat \<Rightarrow> int option" where
  "cache_avail now db a = (case rget now db (stockKey a) of Some (RNum n) \<Rightarrow> Some n | _ \<Rightarrow> None)"

definition cache_holders :: "instant \<Rightarrow> redis_db \<Rightarrow> nat \<Rightarrow> nat set" where
  "cache_holders now db a =
     (case rget now db (usersKey a) of Some (RSet ms) \<Rightarrow> {u. utoa u \<in> set ms} | _ \<Rightarrow> {})"

definition cache_wf :: "instant \<Rightarrow> redis_db \<Rightarrow> bool" where
  "cache_wf now db \<longleftrightarrow>
     (\<forall>a. (case rget now db (stockKey a) of None \<Rightarrow> True | Some (RNum n) \<Rightarrow> in_i64 n | _ \<Rightarrow> False) \<and>
          (case rget now db (usersKey a) of None \<Rightarrow> True | Some (RSet ms) \<Rightarrow> True | _ \<Rightarrow> False))"

definition cache_alive :: "instant \<Rightarrow> instant \<Rightarrow> redis_db \<Rightarrow> bool" where
  "cache_alive now T db \<longleftrightarrow> (\<forall>k. rget T db k = rget now db k)"

lemma rget_rput [simp]: "rget now (rput now k v db) k' = (if k' = k then Some v else rget now db k')"
  by (auto simp: rget_def rput_def split: option.splits if_splits)

lemma rget_expire [simp]: "0 < ttl \<Longrightarrow> rget now (redis_expire now k ttl db) k' = rget now db k'"
  by (auto simp: rget_def redis_expire_def go_second_def split: option.splits if_splits)

lemma rget_remove [simp]: "rget now (db(k := None)) k' = (if k' = k then None else rget now db k')"
  by (simp add: rget_def)

lemma rget_set:
  "0 < ttl \<Longrightarrow> rget now (db(k \<mapsto> \<lparr>rv = v, rexp = Some (now + ttl * go_second)\<rparr>)) k' =
     (if k' = k then Some v else rget now db k')"
  by (simp add: rget_def go_second_def)

lemmas redis_command_defs = redis_set_def redis_add_def redis_sismember_def redis_sadd_def
  redis_srem_def get_number_def

lemma reserve_script_effect:
  assumes "0 < ttl" "sk \<noteq> uk"
    and sk: "rget now db sk = None \<or> (\<exists>n. rget now db sk = Some (RNum n) \<and> in_i64 n)"
    and uk: "rget now db uk = None \<or> (\<exists>ms. rget now db uk = Some (RSet ms))"
    and n: "n = (case rget now db sk of Some (RNum m) \<Rightarrow> m | _ \<Rightarrow> init)"
    and ms: "ms = (case rget now db uk of Some (RSet xs) \<Rightarrow> xs | _ \<Rightarrow> [])"
    and i: "in_i64 init"
    and run: "reserveStockScript sk uk init m ttl now db = (r, db')"
  shows "r = Inr (if m \<in> set ms then [-1, n] else if n \<le> 0 then [-2, n] else [0, n - 1]) \<and>
         rget now db' k = (if k = sk then Some (RNum (if m \<notin> set ms \<and> 0 < n then n - 1 else n))
            else if k = uk then (if m \<notin> set ms \<and> 0 < n then Some (RSet (ms @ [m])) else rget now db uk)
            else rget now db k)"
proof -
  have rng: "in_i64 n" using sk n i by (auto split: option.splits)
  have dec: "0 < n \<Longrightarrow> in_i64 (n + - 1)" using rng by (simp add: in_i64_def)
  show ?thesis
    using run sk uk assms(1,2) rng dec n ms
    by (auto simp: reserveStockScript_def Let_def redis_command_defs rget_set 
         split: option.splits rval.splits if_splits sum.splits prod.splits bool.splits)
qed

lemma release_script_effect:
  assumes "sk \<noteq> uk"
    and sk: "rget now db sk = None \<or> (\<exists>n. rget now db sk = Some (RNum n))"
    and uk: "rget now db uk = None \<or> (\<exists>ms. rget now db uk = Some (RSet ms))"
    and n: "n = (case rget now db sk of Some (RNum m) \<Rightarrow> m | _ \<Rightarrow> 0)"
    and ms: "ms = (case rget now db uk of Some (RSet xs) \<Rightarrow> xs | _ \<Rightarrow> [])"
    and rng: "in_i64 (n + 1)"
    and run: "releaseStockScript sk uk m now db = (r, db')"
  shows "r = Inr (if m \<in> set ms then 1 else 0) \<and>
         rget now db' k = (if m \<notin> set ms then rget now db k
            else if k = sk then Some (RNum (n + 1))
            else if k = uk then (if removeAll m ms = [] then None else Some (RSet (removeAll m ms)))
            else rget now db k)"
  using run sk uk assms(1) rng n ms
  by (auto simp: releaseStockScript_def Let_def redis_command_defs
       split: option.splits rval.splits if_splits sum.splits prod.splits)

lemma release_script_none:
  assumes uk: "rget now db uk = None \<or> (\<exists>ms. rget now db uk = Some (RSet ms))"
    and ms: "ms = (case rget now db uk of Some (RSet xs) \<Rightarrow> xs | _ \<Rightarrow> [])"
    and "m \<notin> set ms"
    and run: "releaseStockScript sk uk m now db = (r, db')"
  shows "r = Inr 0 \<and> db' = db"
  using run uk assms(3) ms
  by (auto simp: releaseStockScript_def Let_def redis_command_defs
       split: option.splits rval.splits if_splits sum.splits prod.splits)

definition later_same :: "instant \<Rightarrow> instant \<Rightarrow> redis_db \<Rightarrow> string \<Rightarrow> bool" where
  "later_same now T db k \<longleftrightarrow> rget T db k = rget now db k"

lemma later_rput: "later_same now T db k' \<Longrightarrow> later_same now T db k \<Longrightarrow> now \<le> T \<Longrightarrow> later_same now T (rput now k v db) k'"
  by (auto simp: later_same_def rget_def rput_def split: option.splits if_splits)

lemma later_remove: "later_same now T db k' \<Longrightarrow> later_same now T (db(k := None)) k'"
  by (auto simp: later_same_def rget_def)

lemma later_set: "later_same now T db k' \<Longrightarrow> T < now + ttl * go_second \<Longrightarrow> 0 < ttl \<Longrightarrow>
   later_same now T (db(k \<mapsto> \<lparr>rv = v, rexp = Some (now + ttl * go_second)\<rparr>)) k'"
  by (auto simp: later_same_def rget_def go_second_def split: option.splits)

lemma later_expire: "later_same now T db k' \<Longrightarrow> T < now + ttl * go_second \<Longrightarrow> 0 < ttl \<Longrightarrow>
   later_same now T (redis_expire now k ttl db) k'"
  by (auto simp: redis_expire_def later_set split: option.splits)

lemma rget_antimono: "now \<le> t \<Longrightarrow> rget t db k = Some v \<Longrightarrow> rget now db k = Some v"
  by (auto simp: rget_def split: option.splits if_splits)

lemma alive_between:
  assumes "cache_alive now T db" "now \<le> t" "t \<le> T"
  shows "rget t db = rget now db"
proof
  fix k
  have e: "rget T db k = rget now db k" using assms(1) by (simp add: cache_alive_def)
  show "rget t db k = rget now db k"
  proof (cases "rget now db k")
    case None
    with assms(2) show ?thesis by (metis rget_antimono not_None_eq)
  next
    case (Some v)
    with e have "rget T db k = Some v" by simp
    with assms(3) Some show ?thesis by (metis rget_antimono)
  qed
qed

lemma cache_alive_iff: "cache_alive now T db \<longleftrightarrow> (\<forall>k. later_same now T db k)"
  by (simp add: cache_alive_def later_same_def)

lemma reserve_script_alive:
  assumes "cache_alive now T db" "now \<le> T" "T < now + ttl * go_second" "0 < ttl"
    and run: "reserveStockScript sk uk init m ttl now db = (r, db')"
  shows "cache_alive now T db'"
  using run assms(1-4) unfolding cache_alive_iff
  by (auto simp: reserveStockScript_def Let_def redis_command_defs 
         intro!: later_expire later_rput later_set
         split: option.splits rval.splits if_splits sum.splits prod.splits bool.splits)

lemma release_script_alive:
  assumes "cache_alive now T db" "now \<le> T"
    and run: "releaseStockScript sk uk m now db = (r, db')"
  shows "cache_alive now T db'"
  using run assms(1-2) unfolding cache_alive_iff
  by (auto simp: releaseStockScript_def Let_def redis_command_defs 
         intro!: later_remove later_rput 
         split: option.splits rval.splits if_splits sum.splits prod.splits bool.splits)
text \<open>The three operations by activity and user, as the store calls the scripts.\<close>

definition reserve_op :: "nat \<Rightarrow> int \<Rightarrow> nat \<Rightarrow> int \<Rightarrow> instant \<Rightarrow> redis_db \<Rightarrow> (string + int list) \<times> redis_db" where
  "reserve_op a init u ttl now db =
     reserveStockScript (stockKey a) (usersKey a) init (utoa u) ttl now db"

definition release_op :: "nat \<Rightarrow> nat \<Rightarrow> instant \<Rightarrow> redis_db \<Rightarrow> (string + int) \<times> redis_db" where
  "release_op a u now db = releaseStockScript (stockKey a) (usersKey a) (utoa u) now db"

lemma cache_wf_stock:
  "cache_wf now db \<Longrightarrow> rget now db (stockKey a) = None \<or> (\<exists>n. rget now db (stockKey a) = Some (RNum n) \<and> in_i64 n)"
  unfolding cache_wf_def by (drule spec [of _ a]) (auto split: option.splits rval.splits)

lemma cache_wf_users:
  "cache_wf now db \<Longrightarrow> rget now db (usersKey a) = None \<or> (\<exists>ms. rget now db (usersKey a) = Some (RSet ms))"
  unfolding cache_wf_def by (drule spec [of _ a]) (auto split: option.splits rval.splits)

lemma finite_cache_holders: "finite (cache_holders now db a)"
proof -
  have "finite {u. utoa u \<in> set ms}" for ms
    using finite_vimageI [of "set ms" utoa] by (simp add: vimage_def inj_def)
  then show ?thesis by (auto simp: cache_holders_def split: option.splits rval.splits)
qed

lemma reserve_op_effect:
  assumes wf: "cache_wf now db" and ttl: "0 < ttl" and i: "in_i64 init"
    and run: "reserve_op a init u ttl now db = (r, db')"
    and n: "n = (case cache_avail now db a of None \<Rightarrow> init | Some m \<Rightarrow> m)"
  shows "r = Inr (if u \<in> cache_holders now db a then [-1, n] else if n \<le> 0 then [-2, n] else [0, n - 1]) \<and>
    cache_avail now db' = (cache_avail now db)(a \<mapsto> (if u \<notin> cache_holders now db a \<and> 0 < n then n - 1 else n)) \<and>
    cache_holders now db' = (if u \<notin> cache_holders now db a \<and> 0 < n
       then (cache_holders now db)(a := insert u (cache_holders now db a)) else cache_holders now db) \<and>
    cache_wf now db'"
proof -
  let ?ms = "case rget now db (usersKey a) of Some (RSet xs) \<Rightarrow> xs | _ \<Rightarrow> []"
  let ?m = "case rget now db (stockKey a) of Some (RNum m) \<Rightarrow> m | _ \<Rightarrow> init"
  note eff = reserve_script_effect [OF ttl _ cache_wf_stock [OF wf] cache_wf_users [OF wf] refl refl i
    run [unfolded reserve_op_def], simplified]
  have n': "?m = n"
    using n cache_wf_stock [OF wf, of a] by (auto simp: cache_avail_def)
  have u: "utoa u \<in> set ?ms \<longleftrightarrow> u \<in> cache_holders now db a"
    using cache_wf_users [OF wf, of a] by (auto simp: cache_holders_def)
  have rng: "in_i64 n" using n i cache_wf_stock [OF wf, of a] by (auto simp: cache_avail_def)
  have rng': "0 < n \<Longrightarrow> in_i64 (n - 1)" using rng by (simp add: in_i64_def)
  show ?thesis
  proof (intro conjI)
    show "r = Inr (if u \<in> cache_holders now db a then [-1, n] else if n \<le> 0 then [-2, n] else [0, n - 1])"
      using eff n' u by auto
    show "cache_avail now db' = (cache_avail now db)(a \<mapsto> (if u \<notin> cache_holders now db a \<and> 0 < n then n - 1 else n))"
      using eff n' u by (auto simp: cache_avail_def fun_eq_iff)
    show "cache_holders now db' = (if u \<notin> cache_holders now db a \<and> 0 < n
       then (cache_holders now db)(a := insert u (cache_holders now db a)) else cache_holders now db)"
      using eff n' u cache_wf_users [OF wf, of a] by (auto simp: cache_holders_def fun_eq_iff)
    show "cache_wf now db'"
      using eff n' u wf rng rng' unfolding cache_wf_def by auto
  qed
qed

lemma release_op_effect:
  assumes wf: "cache_wf now db" and run: "release_op a u now db = (r, db')"
    and h: "u \<in> cache_holders now db a" and n: "cache_avail now db a = Some n" and rng: "in_i64 (n + 1)"
  shows "r = Inr 1 \<and> cache_avail now db' = (cache_avail now db)(a \<mapsto> n + 1) \<and>
    cache_holders now db' = (cache_holders now db)(a := cache_holders now db a - {u})"
proof -
  let ?ms = "case rget now db (usersKey a) of Some (RSet xs) \<Rightarrow> xs | _ \<Rightarrow> []"
  have sk: "rget now db (stockKey a) = Some (RNum n)"
    using n by (auto simp: cache_avail_def split: option.splits rval.splits)
  have eff: "r = Inr (if utoa u \<in> set ?ms then 1 else 0) \<and>
      rget now db' k = (if utoa u \<notin> set ?ms then rget now db k
        else if k = stockKey a then Some (RNum (n + 1))
        else if k = usersKey a then (if removeAll (utoa u) ?ms = [] then None else Some (RSet (removeAll (utoa u) ?ms)))
        else rget now db k)" for k
    by (rule release_script_effect [OF _ _ cache_wf_users [OF wf] _ refl rng run [unfolded release_op_def]])
      (simp_all add: sk)
  have u: "utoa u \<in> set ?ms"
    using h cache_wf_users [OF wf, of a] by (auto simp: cache_holders_def)
  have e: "rget now db' k = (if k = stockKey a then Some (RNum (n + 1))
      else if k = usersKey a then (if removeAll (utoa u) ?ms = [] then None else Some (RSet (removeAll (utoa u) ?ms)))
      else rget now db k)" and r: "r = Inr 1" for k
    using eff [of k] u rng by auto
  obtain ms where ms: "rget now db (usersKey a) = Some (RSet ms)"
    using h cache_wf_users [OF wf, of a] by (auto simp: cache_holders_def)
  have "removeAll (utoa u) ms = [] \<Longrightarrow> utoa x \<in> set ms \<Longrightarrow> x = u" for x
    by (metis Diff_iff empty_iff list.set(1) set_removeAll singletonD utoa_inject)
  then have at_a: "cache_holders now db' a = cache_holders now db a - {u}"
    by (auto simp: cache_holders_def e ms)
  have "cache_avail now db' b = ((cache_avail now db)(a \<mapsto> n + 1)) b" for b
    by (simp add: cache_avail_def e)
  moreover have "cache_holders now db' b = cache_holders now db b" if "b \<noteq> a" for b
    using that by (simp add: cache_holders_def e)
  ultimately show ?thesis using r at_a by (simp add: fun_eq_iff)
qed

lemma release_op_wf:
  assumes wf: "cache_wf now db" and run: "release_op a u now db = (r, db')"
  shows "cache_wf now db'"
proof -
  have "cache_wf now (rput now k v d)" if "cache_wf now d" and
    "(\<exists>b n. k = stockKey b \<and> v = RNum n \<and> in_i64 n) \<or> (\<exists>b ms. k = usersKey b \<and> v = RSet ms)" for k v d
    using that unfolding cache_wf_def by auto
  moreover have "cache_wf now (d(usersKey b := None))" if "cache_wf now d" for b d
    using that unfolding cache_wf_def by auto
  ultimately show ?thesis
    using run wf unfolding release_op_def
    by (auto simp: releaseStockScript_def Let_def redis_command_defs in_i64_def
       split: option.splits rval.splits if_splits sum.splits prod.splits)
qed

interpretation rs: stock_cache reserve_op release_op setStockPipe cache_avail cache_holders cache_wf cache_alive
proof (unfold_locales, goal_cases)
  case (1 now c a)
  show ?case by (rule finite_cache_holders)
next
  case (2 now c a n)
  then show ?case using cache_wf_stock [of now c a] by (auto simp: cache_avail_def)
next
  case (3 now c ttl init a n u r c')
  with reserve_op_effect [OF 3(1-3,6) refl] show ?case by auto
next
  case (4 now c ttl init a n u r c')
  with reserve_op_effect [OF 4(1-3,7) refl] show ?case by auto
next
  case (5 now c ttl init a n u r c')
  with reserve_op_effect [OF 5(1-3,7) refl] show ?case by auto
next
  case (6 now c ttl init a u r c')
  with reserve_op_effect [OF 6(1-4) refl] show ?case by auto
next
  case (7 now T c ttl a init u r c')
  then show ?case by (auto simp: reserve_op_def intro: reserve_script_alive)
next
  case (8 now c a n u rr c')
  with release_op_effect show ?case by auto
next
  case (9 now c u a rr c')
  then have "utoa u \<notin> set (case rget now c (usersKey a) of Some (RSet xs) \<Rightarrow> xs | _ \<Rightarrow> [])"
    using cache_wf_users [OF 9(1), of a] by (auto simp: cache_holders_def)
  from release_script_none [OF cache_wf_users [OF 9(1)] refl this 9(3) [unfolded release_op_def]]
  show ?case by simp
next
  case (10 now c a u rr c')
  then show ?case by (rule release_op_wf)
next
  case (11 now T c a u rr c')
  then show ?case by (auto simp: release_op_def intro: release_script_alive)
next
  case (12 now c ttl n a ru c')
  have "rget now c' k = (if k = stockKey a then Some (RNum n) else rget now c k)" for k
    using 12(2,4) by (auto simp: setStockPipe_def redis_set_def rget_set split: prod.splits)
  with 12 show ?case
    by (auto simp: setStockPipe_def redis_set_def cache_wf_def cache_avail_def cache_holders_def
        fun_eq_iff split: prod.splits)
next
  case (13 now T c t)
  from alive_between [OF this] have e: "rget t c = rget now c" .
  with 13(1) show ?case
    by (auto simp: cache_alive_def cache_wf_def cache_avail_def cache_holders_def fun_eq_iff)
qed

end
