(* ===== verification/Json.thy ===== *)
theory Json
  imports Prelude
begin

text \<open>
  The part of Go's \<^verbatim>\<open>encoding/json\<close> that the queue messages use: the encoder's string
  escaping (HTML characters escaped, as \<open>json.Marshal\<close> does) and a parser for JSON documents.
  Text is a list of bytes; bytes from 128 on are passed through, as the encoder and the decoder do
  for valid UTF-8.  (Go writes U+2028 and U+2029 as escapes, which its decoder reads back as the same bytes,
  and puts U+FFFD for bytes that are not UTF-8; the messages hold order numbers and error texts.)  The decoder's nesting limit of 10000 is not modelled.
\<close>

datatype json = JNull | JBool bool | JNum string | JStr string
  | JArr "json list" | JObj "(string \<times> json) list"

section \<open>Encoding strings\<close>

definition hex_char :: "nat \<Rightarrow> char" where
  "hex_char n = ''0123456789abcdef'' ! (n mod 16)"

definition escape_char :: "char \<Rightarrow> string" where
  "escape_char c =
     (let n = of_char c :: nat in
      if n = 34 then [CHR 0x5C, CHR 0x22]
      else if n = 92 then [CHR 0x5C, CHR 0x5C]
      else if n = 8 then [CHR 0x5C, CHR ''b'']
      else if n = 12 then [CHR 0x5C, CHR ''f'']
      else if n = 10 then [CHR 0x5C, CHR ''n'']
      else if n = 13 then [CHR 0x5C, CHR ''r'']
      else if n = 9 then [CHR 0x5C, CHR ''t'']
      else if n < 32 \<or> n = 60 \<or> n = 62 \<or> n = 38
        then [CHR 0x5C, CHR ''u'', CHR ''0'', CHR ''0'', hex_char (n div 16), hex_char n]
      else [c])"

definition json_quote :: "string \<Rightarrow> string" where
  "json_quote s = [CHR 0x22] @ concat (map escape_char s) @ [CHR 0x22]"

section \<open>Parsing\<close>

definition is_ws :: "char \<Rightarrow> bool" where
  "is_ws c \<longleftrightarrow> c = CHR '' '' \<or> c = CHR 0x09 \<or> c = CHR 0x0A \<or> c = CHR 0x0D"

definition skip_ws :: "string \<Rightarrow> string" where
  "skip_ws s = dropWhile is_ws s"

definition is_digit :: "char \<Rightarrow> bool" where
  "is_digit c \<longleftrightarrow> digit_value c \<noteq> None"

definition hex_value :: "char \<Rightarrow> nat option" where
  "hex_value c =
     (case digit_value c of Some d \<Rightarrow> Some d
      | None \<Rightarrow> if c = CHR ''a'' \<or> c = CHR ''A'' then Some 10
                else if c = CHR ''b'' \<or> c = CHR ''B'' then Some 11
                else if c = CHR ''c'' \<or> c = CHR ''C'' then Some 12
                else if c = CHR ''d'' \<or> c = CHR ''D'' then Some 13
                else if c = CHR ''e'' \<or> c = CHR ''E'' then Some 14
                else if c = CHR ''f'' \<or> c = CHR ''F'' then Some 15 else None)"

fun hex4 :: "string \<Rightarrow> (nat \<times> string) option" where
  "hex4 (a # b # c # d # rest) =
     (case (hex_value a, hex_value b, hex_value c, hex_value d) of
        (Some w, Some x, Some y, Some z) \<Rightarrow> Some (w * 4096 + x * 256 + y * 16 + z, rest)
      | _ \<Rightarrow> None)"
| "hex4 _ = None"

text \<open>The UTF-8 bytes of a code point; a lone surrogate becomes U+FFFD.\<close>

definition utf8 :: "nat \<Rightarrow> string" where
  "utf8 n =
     (if n < 128 then [char_of n]
      else if n < 2048 then [char_of (192 + n div 64), char_of (128 + n mod 64)]
      else if n < 65536 then [char_of (224 + n div 4096), char_of (128 + n div 64 mod 64), char_of (128 + n mod 64)]
      else [char_of (240 + n div 262144), char_of (128 + n div 4096 mod 64),
            char_of (128 + n div 64 mod 64), char_of (128 + n mod 64)])"

definition decode_u :: "nat \<Rightarrow> string \<Rightarrow> string \<times> string" where
  "decode_u n rest =
     (if 55296 \<le> n \<and> n < 56320
      then (case rest of
              x # y # more \<Rightarrow>
                (if x = CHR 0x5C \<and> y = CHR ''u''
                 then (case hex4 more of
                         Some (m, rest') \<Rightarrow>
                           if 56320 \<le> m \<and> m < 57344
                           then (utf8 (65536 + (n - 55296) * 1024 + (m - 56320)), rest')
                           else (utf8 65533, rest)
                       | None \<Rightarrow> (utf8 65533, rest))
                 else (utf8 65533, rest))
            | _ \<Rightarrow> (utf8 65533, rest))
      else if 56320 \<le> n \<and> n < 57344 then (utf8 65533, rest)
      else (utf8 n, rest))"

text \<open>The body of a string literal after its opening quote; fuel bounds the number of steps.\<close>

fun parse_chars :: "nat \<Rightarrow> string \<Rightarrow> (string \<times> string) option" where
  "parse_chars 0 s = None"
| "parse_chars (Suc f) [] = None"
| "parse_chars (Suc f) (c # s) =
     (if c = CHR 0x22 then Some ([], s)
      else if c = CHR 0x5C then
        (case s of
           [] \<Rightarrow> None
         | e # rest \<Rightarrow>
             (if e = CHR ''u'' then
                (case hex4 rest of
                   None \<Rightarrow> None
                 | Some (n, rest') \<Rightarrow>
                     (case decode_u n rest' of (bytes, rest'') \<Rightarrow>
                        map_option (apfst ((@) bytes)) (parse_chars f rest'')))
              else
                (let simple = (if e = CHR 0x22 then Some (CHR 0x22) else if e = CHR 0x5C then Some (CHR 0x5C)
                   else if e = CHR ''/'' then Some (CHR ''/'') else if e = CHR ''b'' then Some (CHR 0x08)
                   else if e = CHR ''f'' then Some (CHR 0x0C) else if e = CHR ''n'' then Some (CHR 0x0A)
                   else if e = CHR ''r'' then Some (CHR 0x0D) else if e = CHR ''t'' then Some (CHR 0x09)
                   else None) in
                 case simple of
                   None \<Rightarrow> None
                 | Some b \<Rightarrow> map_option (apfst ((#) b)) (parse_chars f rest))))
      else if of_char c < (32 :: nat) then None
      else map_option (apfst ((#) c)) (parse_chars f s))"

definition take_digits :: "string \<Rightarrow> string \<times> string" where
  "take_digits s = (takeWhile is_digit s, dropWhile is_digit s)"

text \<open>A number literal: sign, integer part without leading zeros, fraction, exponent.\<close>

definition parse_number :: "string \<Rightarrow> (string \<times> string) option" where
  "parse_number s0 =
     (let (sign, s1) = (case s0 of c # r \<Rightarrow> if c = CHR ''-'' then ([c], r) else ([], s0) | [] \<Rightarrow> ([], [])) in
      case s1 of [] \<Rightarrow> None
      | d # r \<Rightarrow>
        (let (ip, s2) = (if d = CHR ''0'' then ([d], r) else take_digits s1) in
         if ip = [] then None else
         (let fr = (case s2 of
              c # r2 \<Rightarrow> (if c = CHR ''.'' then (let (ds, r3) = take_digits r2 in
                            if ds = [] then None else Some (c # ds, r3)) else Some ([], s2))
            | [] \<Rightarrow> Some ([], [])) in
          case fr of None \<Rightarrow> None
          | Some (fp, s3) \<Rightarrow>
             (case s3 of
                c # r4 \<Rightarrow>
                  (if c = CHR ''e'' \<or> c = CHR ''E'' then
                     (let (sg, r5) = (case r4 of x # r6 \<Rightarrow> if x = CHR ''+'' \<or> x = CHR ''-'' then ([x], r6) else ([], r4) | [] \<Rightarrow> ([], []));
                          (ds, r7) = take_digits r5 in
                      if ds = [] then None else Some (sign @ ip @ fp @ [c] @ sg @ ds, r7))
                   else Some (sign @ ip @ fp, s3))
              | [] \<Rightarrow> Some (sign @ ip @ fp, [])))))"

definition strip :: "string \<Rightarrow> string \<Rightarrow> string option" where
  "strip p s = (if prefix p s then Some (drop (length p) s) else None)"

fun parse_value :: "nat \<Rightarrow> string \<Rightarrow> (json \<times> string) option"
and parse_elems :: "nat \<Rightarrow> string \<Rightarrow> (json list \<times> string) option"
and parse_members :: "nat \<Rightarrow> string \<Rightarrow> ((string \<times> json) list \<times> string) option" where
  "parse_value 0 s = None"
| "parse_value (Suc f) s0 =
     (case skip_ws s0 of
        [] \<Rightarrow> None
      | c # s \<Rightarrow>
          (if c = CHR 0x22 then map_option (apfst JStr) (parse_chars (Suc (length s)) s)
           else if c = CHR 0x7B then
             (case skip_ws s of
                d # r \<Rightarrow> (if d = CHR 0x7D then Some (JObj [], r) else map_option (apfst JObj) (parse_members f (d # r)))
              | [] \<Rightarrow> None)
           else if c = CHR 0x5B then
             (case skip_ws s of
                d # r \<Rightarrow> (if d = CHR 0x5D then Some (JArr [], r) else map_option (apfst JArr) (parse_elems f (d # r)))
              | [] \<Rightarrow> None)
           else (case strip ''null'' (c # s) of Some r \<Rightarrow> Some (JNull, r)
           | None \<Rightarrow> (case strip ''true'' (c # s) of Some r \<Rightarrow> Some (JBool True, r)
           | None \<Rightarrow> (case strip ''false'' (c # s) of Some r \<Rightarrow> Some (JBool False, r)
           | None \<Rightarrow> map_option (apfst JNum) (parse_number (c # s)))))))"
| "parse_elems 0 s = None"
| "parse_elems (Suc f) s =
     (case parse_value f s of None \<Rightarrow> None
      | Some (v, r) \<Rightarrow>
          (case skip_ws r of
             c # r' \<Rightarrow> (if c = CHR 0x5D then Some ([v], r')
                        else if c = CHR '','' then map_option (apfst ((#) v)) (parse_elems f r')
                        else None)
           | [] \<Rightarrow> None))"
| "parse_members 0 s = None"
| "parse_members (Suc f) s =
     (case skip_ws s of [] \<Rightarrow> None
      | q # s1 \<Rightarrow>
         (if q \<noteq> CHR 0x22 then None else
          (case parse_chars (Suc (length s1)) s1 of None \<Rightarrow> None
           | Some (k, r1) \<Rightarrow>
              (case skip_ws r1 of [] \<Rightarrow> None
               | c # r2 \<Rightarrow>
                  (if c \<noteq> CHR '':'' then None else
                   (case parse_value f r2 of None \<Rightarrow> None
                    | Some (v, r3) \<Rightarrow>
                       (case skip_ws r3 of [] \<Rightarrow> None
                        | d # r4 \<Rightarrow>
                           (if d = CHR 0x7D then Some ([(k, v)], r4)
                            else if d = CHR '','' then map_option (apfst ((#) (k, v))) (parse_members f r4)
                            else None))))))))"

text \<open>A document is one value with nothing but white space around it.\<close>

definition parse_json :: "string \<Rightarrow> json option" where
  "parse_json s =
     (case parse_value (2 * length s + 2) s of
        None \<Rightarrow> None | Some (v, r) \<Rightarrow> if skip_ws r = [] then Some v else None)"

section \<open>Reading back what was written\<close>

lemma hex_value_hex_char [simp]: "n < 16 \<Longrightarrow> hex_value (hex_char n) = Some n"
proof -
  have "list_all (\<lambda>n. hex_value (hex_char n) = Some n) [0..<16]" by code_simp
  then show "n < 16 \<Longrightarrow> hex_value (hex_char n) = Some n" by (simp add: list_all_iff)
qed

lemma hex_char_mod [simp]: "hex_char (n mod 16) = hex_char n"
  by (simp add: hex_char_def)

lemma hex4_escape:
  assumes "n < 128"
  shows "hex4 (CHR ''0'' # CHR ''0'' # hex_char (n div 16) # hex_char n # rest) = Some (n, rest)"
proof -
  have "n div 16 < 16" using assms by simp
  moreover have "hex_value (hex_char n) = Some (n mod 16)"
    using hex_value_hex_char [of "n mod 16"] by simp
  ultimately show ?thesis by (simp add: hex_value_def [of "CHR ''0''"] digit_value_def [of "CHR ''0''"])
qed

lemma decode_u_ascii: "n < 128 \<Longrightarrow> decode_u n rest = ([char_of n], rest)"
  by (simp add: decode_u_def utf8_def)

lemma parse_escape:
  "parse_chars (Suc f) (escape_char c @ rest) = map_option (apfst ((#) c)) (parse_chars f rest)"
proof -
  define n where n: "n = (of_char c :: nat)"
  have c: "c = char_of n" by (simp add: n)
  have eqs: "c = CHR 0x22 \<longleftrightarrow> n = 34" "c = CHR 0x5C \<longleftrightarrow> n = 92" 
  proof -
    have l: "of_char (CHR 0x22) = (34::nat)" "of_char (CHR 0x5C) = (92::nat)" by simp_all
    show "c = CHR 0x22 \<longleftrightarrow> n = 34" "c = CHR 0x5C \<longleftrightarrow> n = 92"
      unfolding n l [symmetric] of_char_eq_iff by (rule refl)+
  qed
  have one: "(@) [c] = (#) c" by (rule ext) simp
  have lits: "n = 34 \<Longrightarrow> c = CHR 0x22" "n = 92 \<Longrightarrow> c = CHR 0x5C" "n = 8 \<Longrightarrow> c = CHR 0x08"
    "n = 12 \<Longrightarrow> c = CHR 0x0C" "n = 10 \<Longrightarrow> c = CHR 0x0A" "n = 13 \<Longrightarrow> c = CHR 0x0D" "n = 9 \<Longrightarrow> c = CHR 0x09"
    unfolding c by (simp_all add: char_of_eq_iff)
  consider "n = 34" | "n = 92" | "n = 8" | "n = 12" | "n = 10" | "n = 13" | "n = 9"
    | (hex) "n \<notin> {34, 92, 8, 12, 10, 13, 9}" "n < 32 \<or> n = 60 \<or> n = 62 \<or> n = 38"
    | (plain) "n \<notin> {34, 92, 8, 12, 10, 13, 9}" "\<not> (n < 32 \<or> n = 60 \<or> n = 62 \<or> n = 38)"
    by auto
  then show ?thesis
  proof cases
    case hex
    then have lt: "n < 128" by auto
    from hex have "escape_char c = [CHR 0x5C, CHR ''u'', CHR ''0'', CHR ''0'', hex_char (n div 16), hex_char n]"
      by (simp add: escape_char_def n [symmetric])
    then show ?thesis
      by (simp add: hex4_escape [OF lt] decode_u_ascii [OF lt] c [symmetric] one del: hex4.simps)
  next
    case plain
    then have "escape_char c = [c]" by (simp add: escape_char_def n [symmetric])
    moreover have "c \<noteq> CHR 0x22" "c \<noteq> CHR 0x5C" using plain by (simp_all add: eqs)
    ultimately show ?thesis using plain by (simp add: n [symmetric])
  qed (simp_all add: escape_char_def n [symmetric] Let_def lits)
qed

lemma parse_quoted:
  assumes "length s < f"
  shows "parse_chars f (concat (map escape_char s) @ CHR 0x22 # rest) = Some (s, rest)"
  using assms
proof (induction s arbitrary: f)
  case Nil
  then show ?case by (cases f) auto
next
  case (Cons c s)
  then obtain g where f: "f = Suc g" "length s < g" by (cases f) auto
  with Cons show ?case by (simp add: parse_escape)
qed

lemma length_escape: "length s \<le> length (concat (map escape_char s))"
proof (induction s)
  case (Cons c s)
  have "1 \<le> length (escape_char c)" by (simp add: escape_char_def Let_def)
  with Cons show ?case by simp
qed simp

lemma quote_parses: "parse_value (Suc f) (json_quote s @ rest) = Some (JStr s, rest)"
proof -
  have "parse_chars (Suc (length (concat (map escape_char s) @ CHR 0x22 # rest))) (concat (map escape_char s) @ CHR 0x22 # rest)
      = Some (s, rest)"
    by (rule parse_quoted) (use length_escape [of s] in simp)
  then show ?thesis by (simp add: json_quote_def skip_ws_def is_ws_def)
qed

lemma take_digits_utoa:
  assumes "rest = [] \<or> \<not> is_digit (hd rest)"
  shows "take_digits (utoa n @ rest) = (utoa n, rest)"
proof -
  have "\<forall>c\<in>set (utoa n). is_digit c" using utoa_digits by (auto simp: is_digit_def)
  with assms show ?thesis
    by (cases rest) (auto simp: take_digits_def takeWhile_append dropWhile_append takeWhile_eq_all_conv dropWhile_eq_Nil_conv)
qed

lemma utoa_zero_head: "hd (utoa n) = CHR ''0'' \<Longrightarrow> utoa n = [CHR ''0'']"
proof (induction n rule: utoa.induct)
  case (1 n)
  show ?case
  proof (cases "n < 10")
    case True
    with 1(2) show ?thesis by (subst utoa.simps) (simp add: utoa.simps [of n])
  next
    case False
    with 1(2) have "hd (utoa (n div 10)) = CHR ''0''" by (simp add: utoa.simps [of n])
    with 1(1) False have "utoa (n div 10) = [CHR ''0'']" by simp
    then have "digits_value (utoa (n div 10)) = Some 0" by (simp add: digits_value_def digit_value_def)
    with False show ?thesis by simp
  qed
qed

lemma number_parses:
  assumes e: "e = CHR 0x7D \<or> e = CHR '',''"
  shows "parse_number (utoa n @ e # rest) = Some (utoa n, e # rest)"
proof -
  have nd: "\<not> is_digit e" using e by (auto simp: is_digit_def digit_value_def)
  obtain d r where u: "utoa n = d # r" by (cases "utoa n") auto
  have d: "d \<noteq> CHR ''-''" using minus_not_in_utoa [of n] u by auto
  show ?thesis
  proof (cases "d = CHR ''0''")
    case True
    then have "utoa n = [CHR ''0'']" using utoa_zero_head [of n] u by simp
    with e show ?thesis by (auto simp: parse_number_def)
  next
    case False
    have "take_digits (d # r @ e # rest) = (d # r, e # rest)"
      using take_digits_utoa [of "e # rest" n] nd u by simp
    with False d u e show ?thesis by (auto simp: parse_number_def)
  qed
qed

lemma value_number_parses:
  assumes "e = CHR 0x7D \<or> e = CHR '',''"
  shows "parse_value (Suc f) (utoa n @ e # rest) = Some (JNum (utoa n), e # rest)"
proof -
  obtain d r where u: "utoa n = d # r" by (cases "utoa n") auto
  have dig: "digit_value d \<noteq> None" using utoa_digits [of d n] u by simp
  then have "\<not> is_ws d" and "d \<noteq> CHR 0x22" "d \<noteq> CHR 0x7B" "d \<noteq> CHR 0x5B"
    and "d \<noteq> CHR ''n''" "d \<noteq> CHR ''t''" "d \<noteq> CHR ''f''"
    by (auto simp: is_ws_def digit_value_def)
  then show ?thesis
    using number_parses [OF assms, of n rest] u by (simp add: skip_ws_def strip_def)
qed

end
