(* ===== verification/Rabbit.thy ===== *)
theory Rabbit
  imports World Json
begin

text \<open>
  \<^verbatim>\<open>internal/service/rabbitmq.go\<close>: the order queue.  The broker is two lists of message bodies
  in the world, the main queue \<open>mq\<close> and the dead-letter queue \<open>dlq\<close>; the connection, the channel
  and the queue declarations are the outside's.  A body is a JSON object, or the bare order number
  of older producers.
\<close>

record RabbitOrderMessage =
  rm_order_no :: string
  rm_retry :: int

record RabbitDeadLetterMessage =
  dl_order_no :: string
  dl_retry :: int
  dl_reason :: string
  dl_failed_at :: instant

section \<open>Encoding and decoding\<close>

definition json_message :: "RabbitOrderMessage \<Rightarrow> string" where
  "json_message msg =
     [CHR 0x7B] @ json_quote ''order_no'' @ '':'' @ json_quote (rm_order_no msg) @ '','' @
     json_quote ''retry'' @ '':'' @ itoa (rm_retry msg) @ [CHR 0x7D]"

definition encodeRabbitOrderMessage :: "RabbitOrderMessage \<Rightarrow> goerr + string" where
  "encodeRabbitOrderMessage msg =
     (if rm_order_no msg = '''' then Inl (ErrText ''rabbit order message requires order_no'')
      else Inr (json_message msg))"

definition lower_char :: "char \<Rightarrow> char" where
  "lower_char c = (let n = of_char c :: nat in if 65 \<le> n \<and> n \<le> 90 then char_of (n + 32) else c)"

text \<open>\<open>strconv.ParseInt(lit, 10, 64)\<close> on a JSON number literal.\<close>

definition parse_i64 :: "string \<Rightarrow> int option" where
  "parse_i64 s =
     (let v = (case s of c # r \<Rightarrow> if c = CHR ''-'' then map_option (\<lambda>n. - int n) (digits_value r)
                                  else map_option int (digits_value s) | [] \<Rightarrow> None) in
      case v of Some n \<Rightarrow> if in_i64 n then Some n else None | None \<Rightarrow> None)"

text \<open>
  \<open>json.Unmarshal\<close> into the message: names match up to case, the last one wins, \<open>null\<close> changes
  nothing, a value of the wrong type is an error (\<open>None\<close>).
\<close>

definition decode_field :: "RabbitOrderMessage option \<Rightarrow> string \<times> json \<Rightarrow> RabbitOrderMessage option" where
  "decode_field acc kv =
     (case acc of None \<Rightarrow> None
      | Some msg \<Rightarrow>
         (let k = map lower_char (fst kv) in
          if k = ''order_no'' then
            (case snd kv of JStr s \<Rightarrow> Some (msg\<lparr>rm_order_no := s\<rparr>) | JNull \<Rightarrow> Some msg | _ \<Rightarrow> None)
          else if k = ''retry'' then
            (case snd kv of
               JNum lit \<Rightarrow> (case parse_i64 lit of Some n \<Rightarrow> Some (msg\<lparr>rm_retry := n\<rparr>) | None \<Rightarrow> None)
             | JNull \<Rightarrow> Some msg | _ \<Rightarrow> None)
          else Some msg))"

definition unmarshal_message :: "string \<Rightarrow> RabbitOrderMessage option" where
  "unmarshal_message body =
     (let zero = \<lparr>rm_order_no = '''', rm_retry = 0\<rparr> in
      case parse_json body of
        Some (JObj kvs) \<Rightarrow> foldl decode_field (Some zero) kvs
      | Some JNull \<Rightarrow> Some zero
      | _ \<Rightarrow> None)"

definition is_space :: "char \<Rightarrow> bool" where
  "is_space c \<longleftrightarrow> is_ws c \<or> c = CHR 0x0B \<or> c = CHR 0x0C"

definition trim_space :: "string \<Rightarrow> string" where
  "trim_space s = rev (dropWhile is_space (rev (dropWhile is_space s)))"

definition plain_message :: "string \<Rightarrow> goerr + RabbitOrderMessage" where
  "plain_message body =
     (let orderNo = trim_space body in
      if orderNo = '''' then Inl (ErrText ''empty rabbit order message'')
      else Inr \<lparr>rm_order_no = orderNo, rm_retry = 0\<rparr>)"

definition decodeRabbitOrderMessage :: "string \<Rightarrow> goerr + RabbitOrderMessage" where
  "decodeRabbitOrderMessage body =
     (case unmarshal_message body of
        Some msg \<Rightarrow>
          (if rm_order_no msg \<noteq> ''''
           then Inr (if rm_retry msg < 0 then msg\<lparr>rm_retry := 0\<rparr> else msg)
           else plain_message body)
      | None \<Rightarrow> plain_message body)"

section \<open>Publishing\<close>

definition rabbit_PublishRetry :: "RabbitOrderMessage \<Rightarrow> unit go" where
  "rabbit_PublishRetry msg =
     (case encodeRabbitOrderMessage msg of
        Inl e \<Rightarrow> throw e
      | Inr body \<Rightarrow> broker_call False body)"

definition rabbit_Publish :: "string \<Rightarrow> unit go" where
  "rabbit_Publish orderNo = rabbit_PublishRetry \<lparr>rm_order_no = orderNo, rm_retry = 0\<rparr>"

text \<open>
  The dead letter carries the reason and the time of the failure; the RFC 3339 text of an instant
  is \<open>stamp_utc\<close> of the outside.
\<close>

definition dead_letter_json :: "(instant \<Rightarrow> string) \<Rightarrow> RabbitDeadLetterMessage \<Rightarrow> string" where
  "dead_letter_json rfc m =
     [CHR 0x7B] @ json_quote ''order_no'' @ '':'' @ json_quote (dl_order_no m) @ '','' @
     json_quote ''retry'' @ '':'' @ itoa (dl_retry m) @ '','' @
     json_quote ''reason'' @ '':'' @ json_quote (dl_reason m) @ '','' @
     json_quote ''failed_at'' @ '':'' @ json_quote (rfc (dl_failed_at m)) @ [CHR 0x7D]"

definition rabbit_PublishDeadLetter :: "RabbitOrderMessage \<Rightarrow> string \<Rightarrow> unit go" where
  "rabbit_PublishDeadLetter msg reason =
     bindE time_now (\<lambda>now. \<lambda>w.
       broker_call True (dead_letter_json (stamp_utc (ext w))
         \<lparr>dl_order_no = rm_order_no msg, dl_retry = rm_retry msg, dl_reason = reason, dl_failed_at = now\<rparr>) w)"

section \<open>A message survives the queue\<close>

lemma itoa_nonneg: "0 \<le> n \<Longrightarrow> itoa n = utoa (nat n)"
  by (simp add: itoa_def)

lemma parse_i64_utoa: "in_i64 (int n) \<Longrightarrow> parse_i64 (utoa n) = Some (int n)"
proof -
  assume r: "in_i64 (int n)"
  obtain d s where u: "utoa n = d # s" by (cases "utoa n") auto
  have "d \<noteq> CHR ''-''" using minus_not_in_utoa [of n] u by auto
  moreover have "digits_value (d # s) = Some n" using u digits_value_utoa [of n] by simp
  ultimately show ?thesis using r u by (simp add: parse_i64_def)
qed

lemma parse_value_brace:
  "d \<noteq> CHR 0x7D \<Longrightarrow> \<not> is_ws d \<Longrightarrow>
   parse_value (Suc f) (CHR 0x7B # d # s) = map_option (apfst JObj) (parse_members f (d # s))"
  by (simp add: skip_ws_def is_ws_def)

lemma quote_Cons: "json_quote s @ rest = CHR 0x22 # concat (map escape_char s) @ CHR 0x22 # rest"
  by (simp add: json_quote_def)

lemma quoted_chars:
  "parse_chars (Suc (length (concat (map escape_char s) @ CHR 0x22 # rest))) (concat (map escape_char s) @ CHR 0x22 # rest)
      = Some (s, rest)"
  by (rule parse_quoted) (use length_escape [of s] in simp)

lemma member_parses:
  assumes "parse_value f r2 = Some (v, d # r4)" and "d = CHR 0x7D \<or> d = CHR '',''"
  shows "parse_members (Suc f) (json_quote k @ CHR '':'' # r2) =
    (if d = CHR 0x7D then Some ([(k, v)], r4) else map_option (apfst ((#) (k, v))) (parse_members f r4))"
proof -
  have c: "\<not> is_ws (CHR 0x22)" "\<not> is_ws (CHR '':'')" "\<not> is_ws d"
    using assms(2) by (auto simp: is_ws_def)
  show ?thesis
    unfolding quote_Cons using quoted_chars [of k "CHR '':'' # r2"] assms c
    by (auto simp: skip_ws_def)
qed

lemma json_message_parses:
  assumes pos: "0 \<le> rm_retry msg"
  shows "parse_json (json_message msg) =
     Some (JObj [(''order_no'', JStr (rm_order_no msg)), (''retry'', JNum (utoa (nat (rm_retry msg))))])"
proof -
  let ?n = "utoa (nat (rm_retry msg))"
  let ?m2 = "json_quote ''retry'' @ CHR '':'' # ?n @ [CHR 0x7D]"
  let ?m1 = "json_quote ''order_no'' @ CHR '':'' # json_quote (rm_order_no msg) @ CHR '','' # ?m2"
  have body: "json_message msg = CHR 0x7B # ?m1"
    using pos by (simp add: json_message_def itoa_nonneg)
  obtain m where m: "length (json_message msg) = Suc m" using body by simp
  define f where "f = 2 * m"
  have f: "2 * length (json_message msg) + 2 = Suc (Suc (Suc (Suc f)))" by (simp add: m f_def)
  have "parse_members (Suc (Suc f)) ?m2 = Some ([(''retry'', JNum ?n)], [])"
    by (subst member_parses [OF value_number_parses]) simp_all
  then have "parse_members (Suc (Suc (Suc f))) ?m1 =
      Some ([(''order_no'', JStr (rm_order_no msg)), (''retry'', JNum ?n)], [])"
    by (subst member_parses [OF quote_parses]) simp_all
  then have "parse_value (Suc (Suc (Suc (Suc f)))) (CHR 0x7B # ?m1) =
      Some (JObj [(''order_no'', JStr (rm_order_no msg)), (''retry'', JNum ?n)], [])"
    unfolding quote_Cons [of "''order_no''"] by (subst parse_value_brace) (simp_all add: is_ws_def)
  then show ?thesis
    unfolding parse_json_def f by (simp only: body) (simp add: skip_ws_def)
qed

lemma decode_encode:
  assumes "0 \<le> rm_retry msg" and "in_i64 (rm_retry msg)" and "encodeRabbitOrderMessage msg = Inr body"
  shows "decodeRabbitOrderMessage body = Inr msg"
proof -
  from assms(3) have ne: "rm_order_no msg \<noteq> ''''" and body: "body = json_message msg"
    by (auto simp: encodeRabbitOrderMessage_def split: if_splits)
  have names: "map lower_char ''order_no'' = ''order_no''" "map lower_char ''retry'' = ''retry''"
    by (simp_all add: lower_char_def)
  have "parse_i64 (utoa (nat (rm_retry msg))) = Some (rm_retry msg)"
    using parse_i64_utoa [of "nat (rm_retry msg)"] assms(1,2) by simp
  then have "unmarshal_message body = Some msg"
    using json_message_parses [OF assms(1)]
    by (simp add: unmarshal_message_def body decode_field_def names del: list.map)
  with ne assms(1) show ?thesis by (simp add: decodeRabbitOrderMessage_def)
qed

text \<open>A dead letter is an object of four members, which the decoder of messages reads as the message it was.\<close>

lemma dead_letter_parses:
  assumes pos: "0 \<le> dl_retry m"
  shows "parse_json (dead_letter_json rfc m) =
     Some (JObj [(''order_no'', JStr (dl_order_no m)), (''retry'', JNum (itoa (dl_retry m))),
       (''reason'', JStr (dl_reason m)), (''failed_at'', JStr (rfc (dl_failed_at m)))])"
proof -
  let ?n = "utoa (nat (dl_retry m))"
  let ?m4 = "json_quote ''failed_at'' @ CHR '':'' # json_quote (rfc (dl_failed_at m)) @ [CHR 0x7D]"
  let ?m3 = "json_quote ''reason'' @ CHR '':'' # json_quote (dl_reason m) @ CHR '','' # ?m4"
  let ?m2 = "json_quote ''retry'' @ CHR '':'' # ?n @ CHR '','' # ?m3"
  let ?m1 = "json_quote ''order_no'' @ CHR '':'' # json_quote (dl_order_no m) @ CHR '','' # ?m2"
  let ?kv4 = "(''failed_at'', JStr (rfc (dl_failed_at m)))" and ?kv3 = "(''reason'', JStr (dl_reason m))"
  let ?kv2 = "(''retry'', JNum ?n)" and ?kv1 = "(''order_no'', JStr (dl_order_no m))"
  have body: "dead_letter_json rfc m = CHR 0x7B # ?m1"
    using pos by (simp add: dead_letter_json_def itoa_nonneg)
  have "4 \<le> length (dead_letter_json rfc m)" by (simp add: body json_quote_def)
  then obtain k where k: "length (dead_letter_json rfc m) = 4 + k" using le_Suc_ex by blast
  define f where "f = 2 * k + 4"
  have f: "2 * length (dead_letter_json rfc m) + 2 = Suc (Suc (Suc (Suc (Suc (Suc f)))))" by (simp add: k f_def)
  have "parse_members (Suc (Suc f)) ?m4 = Some ([?kv4], [])"
    by (subst member_parses [OF quote_parses]) simp_all
  then have "parse_members (Suc (Suc (Suc f))) ?m3 = Some ([?kv3, ?kv4], [])"
    by (subst member_parses [OF quote_parses]) simp_all
  then have "parse_members (Suc (Suc (Suc (Suc f)))) ?m2 = Some ([?kv2, ?kv3, ?kv4], [])"
    by (subst member_parses [OF value_number_parses]) simp_all
  then have "parse_members (Suc (Suc (Suc (Suc (Suc f))))) ?m1 = Some ([?kv1, ?kv2, ?kv3, ?kv4], [])"
    by (subst member_parses [OF quote_parses]) simp_all
  then have "parse_value (Suc (Suc (Suc (Suc (Suc (Suc f)))))) (CHR 0x7B # ?m1) = Some (JObj [?kv1, ?kv2, ?kv3, ?kv4], [])"
    unfolding quote_Cons [of "''order_no''"] by (subst parse_value_brace) (simp_all add: is_ws_def)
  then show ?thesis
    unfolding parse_json_def f using pos by (simp only: body itoa_nonneg) (simp add: skip_ws_def)
qed

lemma dead_letter_decodes:
  assumes "0 \<le> dl_retry m" and "in_i64 (dl_retry m)" and "dl_order_no m \<noteq> ''''"
  shows "decodeRabbitOrderMessage (dead_letter_json rfc m) = Inr \<lparr>rm_order_no = dl_order_no m, rm_retry = dl_retry m\<rparr>"
proof -
  have names: "map lower_char ''order_no'' = ''order_no''" "map lower_char ''retry'' = ''retry''"
    "map lower_char ''reason'' = ''reason''" "map lower_char ''failed_at'' = ''failed_at''"
    by (simp_all add: lower_char_def)
  have "parse_i64 (itoa (dl_retry m)) = Some (dl_retry m)"
    using parse_i64_utoa [of "nat (dl_retry m)"] assms(1,2) by (simp add: itoa_nonneg)
  then have "unmarshal_message (dead_letter_json rfc m) = Some \<lparr>rm_order_no = dl_order_no m, rm_retry = dl_retry m\<rparr>"
    using dead_letter_parses [OF assms(1)]
    by (simp add: unmarshal_message_def decode_field_def names del: list.map)
  with assms(1,3) show ?thesis by (simp add: decodeRabbitOrderMessage_def)
qed

section \<open>Any message that arrives\<close>

lemma order_letter_no_json: "parse_json (CHR ''O'' # s) = None"
proof -
  have "parse_value (Suc f) (CHR ''O'' # s) = None" for f
    by (simp add: skip_ws_def is_ws_def strip_def parse_number_def take_digits_def is_digit_def digit_value_def)
  then show ?thesis by (simp add: parse_json_def)
qed

lemma trim_space_none: "\<forall>c\<in>set s. \<not> is_space c \<Longrightarrow> trim_space s = s"
proof -
  assume no: "\<forall>c\<in>set s. \<not> is_space c"
  have "dropWhile is_space t = t" if "\<forall>c\<in>set t. \<not> is_space c" for t
    using that by (cases t) auto
  from this [of s] this [of "rev s"] no show ?thesis by (simp add: trim_space_def)
qed

lemma decode_field_i64:
  "decode_field (Some m) kv = Some m' \<Longrightarrow> in_i64 (rm_retry m) \<Longrightarrow> in_i64 (rm_retry m')"
  by (auto simp: decode_field_def parse_i64_def Let_def split: if_splits json.splits option.splits)

lemma decode_fields_None: "foldl decode_field None kvs = None"
  by (induction kvs) (simp_all add: decode_field_def)

lemma decode_fields_i64:
  "foldl decode_field (Some m) kvs = Some m' \<Longrightarrow> in_i64 (rm_retry m) \<Longrightarrow> in_i64 (rm_retry m')"
proof (induction kvs arbitrary: m)
  case (Cons kv kvs)
  then show ?case
    by (cases "decode_field (Some m) kv") (auto simp: decode_fields_None intro: decode_field_i64)
qed simp

lemma unmarshal_i64: "unmarshal_message body = Some m \<Longrightarrow> in_i64 (rm_retry m)"
proof -
  let ?zero = "\<lparr>rm_order_no = '''', rm_retry = 0\<rparr>"
  assume "unmarshal_message body = Some m"
  then have "m = ?zero \<or> (\<exists>kvs. foldl decode_field (Some ?zero) kvs = Some m)"
    unfolding unmarshal_message_def Let_def by (auto split: option.splits json.splits)
  then show ?thesis using decode_fields_i64 [of ?zero _ m] by (auto simp: in_i64_def)
qed

lemma decode_well_formed:
  assumes "decodeRabbitOrderMessage body = Inr msg"
  shows "rm_order_no msg \<noteq> ''''" and "0 \<le> rm_retry msg" and "in_i64 (rm_retry msg)"
  using assms
  by (auto simp: decodeRabbitOrderMessage_def plain_message_def Let_def in_i64_def dest: unmarshal_i64
      split: option.splits if_splits)

text \<open>
  Messages survive the queue.  A message with an order number and a retry count of an \<open>int64\<close>
  is encoded and decoded to itself; the bare order number of an older producer is read as a first
  attempt; and whatever body arrives, a decoded message has an order number and a retry count
  between 0 and the largest \<open>int64\<close>.
\<close>

theorem message_round_trip:
  assumes "\<forall>c\<in>set (rm_order_no msg). of_char c < (128::nat)" and "rm_order_no msg \<noteq> ''''"
    and "0 \<le> rm_retry msg" and "in_i64 (rm_retry msg)" and "\<forall>c\<in>set s. \<not> is_space c"
    and "decodeRabbitOrderMessage received = Inr m"
  shows "(\<exists>body. encodeRabbitOrderMessage msg = Inr body \<and> decodeRabbitOrderMessage body = Inr msg) \<and>
    decodeRabbitOrderMessage (CHR ''O'' # s) = Inr \<lparr>rm_order_no = CHR ''O'' # s, rm_retry = 0\<rparr> \<and>
    rm_order_no m \<noteq> '''' \<and> 0 \<le> rm_retry m \<and> in_i64 (rm_retry m)"
proof -
  obtain body where "encodeRabbitOrderMessage msg = Inr body"
    using assms(2) by (simp add: encodeRabbitOrderMessage_def)
  moreover have "trim_space (CHR ''O'' # s) = CHR ''O'' # s"
    by (rule trim_space_none) (use assms(5) in \<open>simp add: is_space_def is_ws_def\<close>)
  then have "decodeRabbitOrderMessage (CHR ''O'' # s) = Inr \<lparr>rm_order_no = CHR ''O'' # s, rm_retry = 0\<rparr>"
    by (simp add: decodeRabbitOrderMessage_def unmarshal_message_def order_letter_no_json plain_message_def)
  ultimately show ?thesis using decode_encode [OF assms(3,4)] decode_well_formed [OF assms(6)] by blast
qed

theorem message_round_trip_witness:
  "(\<exists>body. encodeRabbitOrderMessage \<lparr>rm_order_no = ''ORD1'', rm_retry = 2\<rparr> = Inr body \<and>
      decodeRabbitOrderMessage body = Inr \<lparr>rm_order_no = ''ORD1'', rm_retry = 2\<rparr>) \<and>
    decodeRabbitOrderMessage ''ORD2'' = Inr \<lparr>rm_order_no = ''ORD2'', rm_retry = 0\<rparr>"
proof -
  have "decodeRabbitOrderMessage '' x '' = Inr \<lparr>rm_order_no = ''x'', rm_retry = 0\<rparr>" by code_simp
  from message_round_trip [OF _ _ _ _ _ this, of "\<lparr>rm_order_no = ''ORD1'', rm_retry = 2\<rparr>" "''RD2''"]
  show ?thesis by (simp add: in_i64_def is_space_def is_ws_def)
qed

end
