(* ===== verification/OrderCreate.thy ===== *)
theory OrderCreate
  imports Store RedisStock Rabbit
begin

text \<open>
  \<^verbatim>\<open>internal/service/order.go\<close>, first part: the service, publishing an order task, and the two
  ways an order comes into being, an activity order (with and without the Redis stock) and the
  checkout of a cart.
\<close>

section \<open>The service\<close>

text \<open>Whether a stock cache and a broker are present, and the retry limit; tables, cache, queues and
  the task channel are in the world.\<close>

record OrderService =
  os_cache :: bool
  os_rabbit :: bool
  os_max_retries :: int

record CreateOrderInput =
  co_activity :: nat
  co_request_id :: string

record CheckoutCartInput =
  cc_address :: nat
  cc_user_coupon :: nat

definition NewOrderService :: "bool \<Rightarrow> bool \<Rightarrow> OrderService" where
  "NewOrderService redisStock rabbit =
     \<lparr>os_cache = redisStock, os_rabbit = rabbit, os_max_retries = 3\<rparr>"

definition SetRabbitMaxRetries :: "int \<Rightarrow> OrderService \<Rightarrow> OrderService" where
  "SetRabbitMaxRetries n s = s\<lparr>os_max_retries := (if n < 0 then 0 else n)\<rparr>"

definition hex_text :: "nat list \<Rightarrow> string" where
  "hex_text bs = concat (map (\<lambda>b. [hex_char (b div 16), hex_char b]) bs)"

definition randomText :: "nat \<Rightarrow> string go" where
  "randomText n = (\<lambda>w.
     (Inr (case entropy (ext w) (tick w) of
             None \<Rightarrow> itoa (clock (ext w) (tick w))
           | Some byte \<Rightarrow> take n (hex_text (map (\<lambda>i. byte i mod 256) [0..<n]))),
      w\<lparr>tick := Suc (tick w)\<rparr>))"

definition newOrderNo :: "string go" where
  "newOrderNo =
     bindE time_now (\<lambda>now. bindE (randomText 8) (\<lambda>r. \<lambda>w. (Inr (''ORD'' @ stamp14 (ext w) now @ r), w)))"

section \<open>Publishing an order task\<close>

definition tasks_capacity :: nat where
  "tasks_capacity = 128"

text \<open>
  The send on the task channel waits up to two seconds for room.  A call of the model is one step, so a
  worker that makes room during the wait is a worker whose turn comes before the call; a channel that is
  full at the call is one that stays full, and the send gives up.
\<close>

definition send_task :: "string \<Rightarrow> unit go" where
  "send_task orderNo = (\<lambda>w.
     if length (tasks w) < tasks_capacity
     then (Inr (), w\<lparr>tasks := tasks w @ [orderNo]\<rparr>)
     else log_op ''order_task_publish_failed'' orderNo 0 ''failed'' (err_text (Ext CtxDeadlineExceeded)) w)"

definition publishOrderTask :: "OrderService \<Rightarrow> string \<Rightarrow> unit go" where
  "publishOrderTask s orderNo =
     (if os_rabbit s then
        bindE (attempt (rabbit_Publish orderNo)) (\<lambda>r.
          case r of
            Inr _ \<Rightarrow> log_op ''order_task_published'' orderNo 0 ''success'' ''published to RabbitMQ''
          | Inl e \<Rightarrow>
              thenE (log_op ''order_task_publish_fallback'' orderNo 0 ''failed'' (err_text e))
                (send_task orderNo))
      else send_task orderNo)"

section \<open>Creating an activity order\<close>

definition ensureActivityOrderable :: "activity \<Rightarrow> instant \<Rightarrow> goerr option" where
  "ensureActivityOrderable act now =
     (let status = (if a_status act = '''' then ActivityStatusPublished else a_status act) in
      if status \<noteq> ActivityStatusPublished then Some ErrActivityNotAvailable
      else if time_before now (a_start act) \<or> time_after now (a_end act) then Some ErrActivityNotAvailable
      else None)"

definition ensureE :: "goerr option \<Rightarrow> unit go" where
  "ensureE r = (case r of None \<Rightarrow> ret () | Some e \<Rightarrow> throw e)"

definition isActivityOrderUniqueConflict :: "goerr \<Rightarrow> bool" where
  "isActivityOrderUniqueConflict err =
     (let text = map lower_char (err_text err) in
      sublist ''activity_order_key'' text \<or> sublist ''idx_orders_activity_order_key'' text)"

definition new_activity_order :: "string \<Rightarrow> string \<Rightarrow> nat \<Rightarrow> activity \<Rightarrow> order" where
  "new_activity_order orderNo requestID userID act =
     \<lparr>o_id = 0, o_order_no = orderNo, o_request_id = requestID, o_user = userID,
      o_product = a_product act, o_activity = a_id act, o_key = NewActivityOrderKey userID (a_id act),
      o_address = 0, o_user_coupon = 0, o_original = a_price act, o_discount = 0, o_amount = a_price act,
      o_status = OrderStatusQueued, o_created = 0, o_updated = 0\<rparr>"

definition create_activity_order :: "order \<Rightarrow> order go" where
  "create_activity_order ord =
     on_error (create_order ord)
       (\<lambda>err. throw (if isActivityOrderUniqueConflict err then ErrDuplicateOrder else err))"

definition db_order_body :: "nat \<Rightarrow> CreateOrderInput \<Rightarrow> (order \<times> int) go" where
  "db_order_body userID input =
     bindE (on_error (first_by activities (\<lambda>a. a_id a = co_activity input)) (\<lambda>_. throw ErrActivityNotFound)) (\<lambda>act.
     bindE time_now (\<lambda>now.
     thenE (ensureE (ensureActivityOrderable act now))
     (thenE (guardE (0 < a_stock act) ErrSoldOut)
     (bindE (count_by orders (\<lambda>r. o_user r = userID \<and> o_activity r = co_activity input)) (\<lambda>count.
      thenE (guardE (count = 0) ErrDuplicateOrder)
      (bindE (save_activity (act\<lparr>a_stock := wrap64 (a_stock act - 1)\<rparr>)) (\<lambda>act'.
       bindE newOrderNo (\<lambda>no.
       bindE (create_activity_order (new_activity_order no (co_request_id input) userID act')) (\<lambda>ord.
       ret (ord, a_stock act'))))))))))"

definition createOrderWithDB :: "OrderService \<Rightarrow> nat \<Rightarrow> CreateOrderInput \<Rightarrow> (order \<times> int) go" where
  "createOrderWithDB s userID input =
     bindE (on_error (transaction (db_order_body userID input))
              (\<lambda>err. thenE (log_op ''create_order_rejected'' '''' userID ''failed'' (err_text err)) (throw err)))
       (\<lambda>(ord, stockLeft).
         thenE (publishOrderTask s (o_order_no ord))
        (thenE (log_op ''stock_reserved'' (o_order_no ord) userID ''success'' (''stock_left='' @ itoa stockLeft))
          (ret (ord, stockLeft))))"

text \<open>The conditional \<open>UPDATE activities SET stock = stock - 1 WHERE ...\<close>; the value is \<open>RowsAffected\<close>.\<close>

definition stock_row_hit :: "nat \<Rightarrow> instant \<Rightarrow> activity \<Rightarrow> bool" where
  "stock_row_hit activityID updateNow act \<longleftrightarrow>
     a_id act = activityID \<and> 0 < a_stock act \<and>
     (a_status act = ActivityStatusPublished \<or> a_status act = '''') \<and>
     a_start act \<le> updateNow \<and> updateNow \<le> a_end act"

definition decrement_stock :: "nat \<Rightarrow> instant \<Rightarrow> nat go" where
  "decrement_stock activityID updateNow = stmt (\<lambda>_ _ t.
     Inr (length (filter (stock_row_hit activityID updateNow) (activities t)),
          t\<lparr>activities := map (\<lambda>a. if stock_row_hit activityID updateNow a
             then a\<lparr>a_stock := a_stock a - 1\<rparr> else a) (activities t)\<rparr>))"

definition redis_order_body :: "nat \<Rightarrow> CreateOrderInput \<Rightarrow> activity \<Rightarrow> order go" where
  "redis_order_body userID input act =
     bindE (count_by orders (\<lambda>r. o_user r = userID \<and> o_activity r = co_activity input)) (\<lambda>count.
     thenE (guardE (count = 0) ErrDuplicateOrder)
     (bindE time_now (\<lambda>updateNow.
      bindE (decrement_stock (co_activity input) updateNow) (\<lambda>rows.
      if rows = 0 then
        bindE (attempt (first_by activities (\<lambda>a. a_id a = co_activity input))) (\<lambda>r.
          case r of
            Inr current \<Rightarrow> throw (if a_stock current \<le> 0 then ErrSoldOut else ErrActivityNotAvailable)
          | Inl _ \<Rightarrow> throw ErrActivityNotAvailable)
      else
        bindE newOrderNo (\<lambda>no.
        create_activity_order (new_activity_order no (co_request_id input) userID act))))))"

definition createOrderWithRedis :: "OrderService \<Rightarrow> nat \<Rightarrow> CreateOrderInput \<Rightarrow> (order \<times> int) go" where
  "createOrderWithRedis s userID input =
     bindE (on_error (first_by activities (\<lambda>a. a_id a = co_activity input))
              (\<lambda>_. thenE (log_op ''create_order_rejected'' '''' userID ''failed'' (err_text ErrActivityNotFound))
                     (throw ErrActivityNotFound))) (\<lambda>act.
     bindE time_now (\<lambda>now.
     thenE (on_error (ensureE (ensureActivityOrderable act now))
              (\<lambda>err. thenE (log_op ''create_order_rejected'' '''' userID ''failed'' (err_text err)) (throw err)))
     (bindE (on_error (cache_Reserve act userID)
              (\<lambda>err. thenE (log_op ''create_order_rejected'' '''' userID ''failed'' (err_text err)) (throw err))) (\<lambda>stockLeft.
      bindE (on_error (transaction (redis_order_body userID input act))
              (\<lambda>err. thenE (attempt (cache_Release (co_activity input) userID))
                    (thenE (log_op ''create_order_rejected'' '''' userID ''failed'' (err_text err)) (throw err)))) (\<lambda>ord.
      thenE (publishOrderTask s (o_order_no ord))
     (thenE (log_op ''stock_reserved_redis'' (o_order_no ord) userID ''success'' (''stock_left='' @ itoa stockLeft))
       (ret (ord, stockLeft))))))))"

text \<open>\<open>ctxErr\<close> is \<open>ctx.Err()\<close> at the entry.\<close>

definition CreateOrderContext ::
  "OrderService \<Rightarrow> ext_error option \<Rightarrow> nat \<Rightarrow> CreateOrderInput \<Rightarrow> (order \<times> int) go" where
  "CreateOrderContext s ctxErr userID input =
     (case ctxErr of
        Some e \<Rightarrow> throw (Ext e)
      | None \<Rightarrow>
          bindE (if co_request_id input = ''''
                 then bindE (randomText 8) (\<lambda>r. ret (input\<lparr>co_request_id := ''req_'' @ r\<rparr>))
                 else ret input) (\<lambda>input'.
          if os_cache s then createOrderWithRedis s userID input' else createOrderWithDB s userID input'))"

definition CreateOrder :: "OrderService \<Rightarrow> nat \<Rightarrow> CreateOrderInput \<Rightarrow> (order \<times> int) go" where
  "CreateOrder s userID input = CreateOrderContext s None userID input"

section \<open>Checking out a cart\<close>

definition zero_time :: instant where
  "zero_time = -62135596800000000000"

definition zero_product :: product where
  "zero_product = \<lparr>p_id = 0, p_name = '''', p_price = 0, p_stock = 0, p_created = zero_time, p_updated = zero_time\<rparr>"

definition zero_coupon :: coupon where
  "zero_coupon = \<lparr>c_id = 0, c_title = '''', c_threshold = 0, c_discount = 0, c_stock = 0,
     c_start = zero_time, c_end = zero_time, c_created = zero_time, c_updated = zero_time\<rparr>"

text \<open>\<open>Preload("Product")\<close>: one more query for the products of the items, none for an empty result.\<close>

definition preload_products :: "cart_item list \<Rightarrow> (cart_item \<times> product) list go" where
  "preload_products items =
     (if items = [] then ret []
      else stmt (\<lambda>_ _ t. Inr (map (\<lambda>i. (i, case find (\<lambda>p. p_id p = ci_product i) (products t) of
                                         Some p \<Rightarrow> p | None \<Rightarrow> zero_product)) items, t)))"

definition preload_coupon :: "user_coupon \<Rightarrow> coupon go" where
  "preload_coupon uc = stmt (\<lambda>_ _ t. Inr (case find (\<lambda>c. c_id c = uc_coupon uc) (coupons t) of
     Some c \<Rightarrow> c | None \<Rightarrow> zero_coupon, t))"

fun checkout_loop :: "(cart_item \<times> product) list \<Rightarrow> int \<Rightarrow> int go" where
  "checkout_loop [] originalAmount = ret originalAmount"
| "checkout_loop ((item, _) # rest) originalAmount =
     thenE (guardE (0 < ci_quantity item) (ErrText ''invalid cart item quantity''))
    (bindE (on_error (first_by products (\<lambda>p. p_id p = ci_product item))
              (\<lambda>_. throw (ErrText ''product not found''))) (\<lambda>product.
     thenE (guardE (ci_quantity item \<le> p_stock product)
              (ErrText (''product '' @ p_name product @ '' stock is not enough'')))
    (bindE (save_product (product\<lparr>p_stock := wrap64 (p_stock product - ci_quantity item)\<rparr>)) (\<lambda>product'.
     checkout_loop rest (wrap64 (originalAmount + wrap64 (p_price product' * ci_quantity item)))))))"

definition applyCoupon :: "nat \<Rightarrow> nat \<Rightarrow> int \<Rightarrow> int go" where
  "applyCoupon userID userCouponID originalAmount =
     (if userCouponID = 0 then ret 0
      else
        bindE (on_error (bindE (first_by user_coupons (\<lambda>u. uc_id u = userCouponID \<and> uc_user u = userID))
                           (\<lambda>uc. bindE (preload_coupon uc) (\<lambda>c. ret (uc, c))))
                 (\<lambda>_. throw (ErrText ''user coupon not found''))) (\<lambda>(uc, c).
        thenE (guardE (uc_status uc = UserCouponUnused) (ErrText ''user coupon is not unused''))
       (bindE time_now (\<lambda>now.
        if time_before now (c_start c) \<or> time_after now (c_end c)
        then thenE (attempt (save_user_coupon (uc\<lparr>uc_status := UserCouponExpired\<rparr>)))
               (throw (ErrText ''coupon expired''))
        else
          thenE (guardE (c_threshold c \<le> originalAmount) (ErrText ''coupon threshold not reached''))
         (thenE (save_user_coupon (uc\<lparr>uc_status := UserCouponUsed\<rparr>))
           (ret (c_discount c)))))))"

fun checkout_items :: "order \<Rightarrow> (cart_item \<times> product) list \<Rightarrow> unit go" where
  "checkout_items ord [] = ret ()"
| "checkout_items ord ((item, product) # rest) =
     thenE (create_order_item
       \<lparr>oi_id = 0, oi_order = o_id ord, oi_order_no = o_order_no ord, oi_product = ci_product item,
        oi_name = p_name product, oi_price = p_price product, oi_quantity = ci_quantity item,
        oi_created = 0, oi_updated = 0\<rparr>)
       (checkout_items ord rest)"

definition checkout_body :: "nat \<Rightarrow> CheckoutCartInput \<Rightarrow> order go" where
  "checkout_body userID input =
     thenE (on_error (first_by addresses (\<lambda>a. ad_id a = cc_address input \<and> ad_user a = userID))
              (\<lambda>_. throw (ErrText ''address not found'')))
    (bindE (bindE (find_all cart_items (\<lambda>c. ci_user c = userID)) preload_products) (\<lambda>cartItems.
     thenE (guardE (cartItems \<noteq> []) (ErrText ''cart is empty''))
    (bindE (checkout_loop cartItems 0) (\<lambda>originalAmount.
     bindE (applyCoupon userID (cc_user_coupon input) originalAmount) (\<lambda>discountAmount.
     let payAmount = (if wrap64 (originalAmount - discountAmount) < 0 then 0
                      else wrap64 (originalAmount - discountAmount)) in
     bindE newOrderNo (\<lambda>no.
     bindE (randomText 8) (\<lambda>r.
     bindE (create_order
       \<lparr>o_id = 0, o_order_no = no, o_request_id = ''cart_'' @ r, o_user = userID,
        o_product = ci_product (fst (hd cartItems)), o_activity = 0, o_key = None,
        o_address = cc_address input, o_user_coupon = cc_user_coupon input,
        o_original = originalAmount, o_discount = discountAmount, o_amount = payAmount,
        o_status = OrderStatusWaitPay, o_created = 0, o_updated = 0\<rparr>) (\<lambda>ord.
     thenE (checkout_items ord cartItems)
    (thenE (delete_cart_items (\<lambda>c. ci_user c = userID))
      (ret ord))))))))))"

definition CheckoutCart :: "nat \<Rightarrow> CheckoutCartInput \<Rightarrow> order go" where
  "CheckoutCart userID input =
     bindE (on_error (transaction (checkout_body userID input))
              (\<lambda>err. thenE (log_op ''checkout_cart_failed'' '''' userID ''failed'' (err_text err)) (throw err))) (\<lambda>ord.
     thenE (log_op ''checkout_cart'' (o_order_no ord) userID ''success''
              (''amount='' @ itoa (o_amount ord) @ '' discount='' @ itoa (o_discount ord)))
       (ret ord))"

end
