(* ===== verification/OrderLife.thy ===== *)
theory OrderLife
  imports OrderCreate
begin

text \<open>
  \<^verbatim>\<open>internal/service/order.go\<close>, second part: what happens to an order after it was created.
  Queries, cancellation, expiry, the compensation run, stock reconciliation, the payment callback
  and the worker that moves a queued order on.  The instants that bound a scan are computed in
  Go's 64-bit durations.
\<close>

section \<open>Queries\<close>

definition ListOrders :: "nat \<Rightarrow> order list go" where
  "ListOrders userID = find_desc orders (\<lambda>r. o_user r = userID)"

definition GetOrder :: "nat \<Rightarrow> string \<Rightarrow> order go" where
  "GetOrder userID orderNo =
     on_error (first_by orders (\<lambda>r. o_user r = userID \<and> o_order_no r = orderNo))
       (\<lambda>_. throw ErrOrderNotFound)"

definition ListLogs :: "operation_log list go" where
  "ListLogs = bindE (find_desc operation_logs (\<lambda>_. True)) (\<lambda>ls. ret (take 100 ls))"

section \<open>Returning stock\<close>

fun restore_items :: "order_item list \<Rightarrow> unit go" where
  "restore_items [] = ret ()"
| "restore_items (item # rest) =
     bindE (first_by products (\<lambda>p. p_id p = oi_product item)) (\<lambda>product.
     thenE (save_product (product\<lparr>p_stock := wrap64 (p_stock product + oi_quantity item)\<rparr>))
       (restore_items rest))"

definition restoreStock :: "OrderService \<Rightarrow> order \<Rightarrow> unit go" where
  "restoreStock s ord =
     (if 0 < o_activity ord then
        bindE (first_by activities (\<lambda>a. a_id a = o_activity ord)) (\<lambda>act.
        thenE (save_activity (act\<lparr>a_stock := wrap64 (a_stock act + 1)\<rparr>))
          (if os_cache s then cache_Release (o_activity ord) (o_user ord) else ret ()))
      else
        bindE (find_all order_items (\<lambda>i. oi_order_no i = o_order_no ord)) restore_items)"

section \<open>Cancelling\<close>

record CancelOrderResult =
  cr_order_no :: string
  cr_status :: string
  cr_returned_stock :: bool

definition cancellable :: "order \<Rightarrow> bool" where
  "cancellable ord \<longleftrightarrow> o_status ord = OrderStatusQueued \<or> o_status ord = OrderStatusWaitPay"

definition cancel_body :: "OrderService \<Rightarrow> nat \<Rightarrow> string \<Rightarrow> CancelOrderResult go" where
  "cancel_body s userID orderNo =
     bindE (on_error (first_by orders (\<lambda>r. o_user r = userID \<and> o_order_no r = orderNo))
              (\<lambda>_. throw ErrOrderNotFound)) (\<lambda>ord.
     thenE (guardE (cancellable ord) ErrIllegalTransition)
    (thenE (restoreStock s ord)
    (bindE (save_order (ord\<lparr>o_status := OrderStatusCancelled\<rparr>)) (\<lambda>ord'.
     ret \<lparr>cr_order_no = orderNo, cr_status = o_status ord', cr_returned_stock = True\<rparr>))))"

definition CancelOrder :: "OrderService \<Rightarrow> nat \<Rightarrow> string \<Rightarrow> CancelOrderResult go" where
  "CancelOrder s userID orderNo =
     bindE (on_error (transaction (cancel_body s userID orderNo))
              (\<lambda>err. thenE (log_op ''cancel_order_failed'' orderNo userID ''failed'' (err_text err)) (throw err))) (\<lambda>result.
     thenE (log_op ''cancel_order'' orderNo userID ''success'' ''order cancelled and stock returned'')
       (ret result))"

section \<open>Closing orders that timed out\<close>

text \<open>\<open>now.Add(-time.Duration(n) * time.Second)\<close>: negation and product wrap.\<close>

definition cutoff_before :: "instant \<Rightarrow> int \<Rightarrow> instant" where
  "cutoff_before now n = now + wrap64 (wrap64 (- n) * go_second)"

definition expire_body :: "OrderService \<Rightarrow> string \<Rightarrow> unit go" where
  "expire_body s orderNo =
     bindE (first_by orders (\<lambda>r. o_order_no r = orderNo)) (\<lambda>ord.
     if \<not> cancellable ord then ret ()
     else thenE (restoreStock s ord)
            (bindE (save_order (ord\<lparr>o_status := OrderStatusClosed\<rparr>)) (\<lambda>_. ret ())))"

fun expire_loop :: "OrderService \<Rightarrow> order list \<Rightarrow> int \<Rightarrow> int go" where
  "expire_loop s [] expired = ret expired"
| "expire_loop s (item # rest) expired =
     bindE (attempt (transaction (expire_body s (o_order_no item)))) (\<lambda>r.
       case r of
         Inl err \<Rightarrow>
           thenE (log_op ''expire_order_failed'' (o_order_no item) (o_user item) ''failed'' (err_text err))
             (expire_loop s rest expired)
       | Inr _ \<Rightarrow>
           thenE (log_op ''expire_order'' (o_order_no item) (o_user item) ''success''
                    ''order timeout closed and stock returned'')
             (expire_loop s rest (wrap64 (expired + 1))))"

definition ExpireOrders :: "OrderService \<Rightarrow> int \<Rightarrow> int go" where
  "ExpireOrders s timeoutSeconds =
     (let timeout = (if timeoutSeconds < 0 then 0 else timeoutSeconds) in
      bindE time_now (\<lambda>now.
      bindE (find_all orders (\<lambda>r. cancellable r \<and> o_created r \<le> cutoff_before now timeout)) (\<lambda>found.
      expire_loop s found 0)))"

section \<open>Compensation\<close>

record CompensationResult =
  cm_requeued :: int
  cm_closed :: int
  cm_ended :: int
  cm_failed :: int

text \<open>\<open>UPDATE orders SET updated_at = now WHERE order_no = ? AND status = 'QUEUED'\<close>, with \<open>RowsAffected\<close>.\<close>

definition touch_queued :: "string \<Rightarrow> instant \<Rightarrow> nat go" where
  "touch_queued orderNo now = stmt (\<lambda>_ _ t.
     let hit = (\<lambda>r. o_order_no r = orderNo \<and> o_status r = OrderStatusQueued) in
     Inr (length (filter hit (orders t)),
          t\<lparr>orders := map (\<lambda>r. if hit r then r\<lparr>o_updated := now\<rparr> else r) (orders t)\<rparr>))"

fun requeue_loop :: "OrderService \<Rightarrow> instant \<Rightarrow> order list \<Rightarrow> CompensationResult \<Rightarrow> CompensationResult go" where
  "requeue_loop s now [] result = ret result"
| "requeue_loop s now (item # rest) result =
     bindE (attempt (transaction (touch_queued (o_order_no item) now))) (\<lambda>r.
       case r of
         Inl err \<Rightarrow>
           thenE (log_op ''compensate_requeue_failed'' (o_order_no item) (o_user item) ''failed'' (err_text err))
             (requeue_loop s now rest (result\<lparr>cm_failed := wrap64 (cm_failed result + 1)\<rparr>))
       | Inr rows \<Rightarrow>
           if rows = 0 then requeue_loop s now rest result
           else
             thenE (publishOrderTask s (o_order_no item))
            (thenE (log_op ''compensate_requeue_order'' (o_order_no item) (o_user item) ''success''
                      ''stale queued order was published again'')
              (requeue_loop s now rest (result\<lparr>cm_requeued := wrap64 (cm_requeued result + 1)\<rparr>))))"

definition close_body :: "OrderService \<Rightarrow> string \<Rightarrow> bool go" where
  "close_body s orderNo =
     bindE (first_by orders (\<lambda>r. o_order_no r = orderNo)) (\<lambda>ord.
     if o_status ord \<noteq> OrderStatusWaitPay then ret False
     else thenE (restoreStock s ord)
            (bindE (save_order (ord\<lparr>o_status := OrderStatusClosed\<rparr>)) (\<lambda>_. ret True)))"

fun close_loop :: "OrderService \<Rightarrow> order list \<Rightarrow> CompensationResult \<Rightarrow> CompensationResult go" where
  "close_loop s [] result = ret result"
| "close_loop s (item # rest) result =
     bindE (attempt (transaction (close_body s (o_order_no item)))) (\<lambda>r.
       case r of
         Inl err \<Rightarrow>
           thenE (log_op ''compensate_close_failed'' (o_order_no item) (o_user item) ''failed'' (err_text err))
             (close_loop s rest (result\<lparr>cm_failed := wrap64 (cm_failed result + 1)\<rparr>))
       | Inr closed \<Rightarrow>
           if closed then
             thenE (log_op ''compensate_close_order'' (o_order_no item) (o_user item) ''success''
                      ''timeout wait-pay order closed and stock returned'')
               (close_loop s rest (result\<lparr>cm_closed := wrap64 (cm_closed result + 1)\<rparr>))
           else close_loop s rest result)"

definition end_activity_body :: "nat \<Rightarrow> bool go" where
  "end_activity_body activityID =
     bindE (first_by activities (\<lambda>a. a_id a = activityID)) (\<lambda>act.
     if a_status act \<noteq> ActivityStatusPublished \<and> a_status act \<noteq> '''' then ret False
     else bindE (save_activity (act\<lparr>a_status := ActivityStatusEnded\<rparr>)) (\<lambda>_. ret True))"

fun end_loop :: "activity list \<Rightarrow> CompensationResult \<Rightarrow> CompensationResult go" where
  "end_loop [] result = ret result"
| "end_loop (item # rest) result =
     bindE (attempt (transaction (end_activity_body (a_id item)))) (\<lambda>r.
       case r of
         Inl err \<Rightarrow>
           thenE (log_op ''compensate_end_activity_failed'' '''' 0 ''failed''
                    (''activity='' @ utoa (a_id item) @ '' reason='' @ err_text err))
             (end_loop rest (result\<lparr>cm_failed := wrap64 (cm_failed result + 1)\<rparr>))
       | Inr ended \<Rightarrow>
           if ended then
             thenE (log_op ''compensate_end_activity'' '''' 0 ''success''
                      (''activity='' @ utoa (a_id item) @ '' marked ENDED''))
               (end_loop rest (result\<lparr>cm_ended := wrap64 (cm_ended result + 1)\<rparr>))
           else end_loop rest result)"

definition Compensate :: "OrderService \<Rightarrow> int \<Rightarrow> int \<Rightarrow> CompensationResult go" where
  "Compensate s queuedTimeout payTimeout =
     (let qt = (if queuedTimeout < 0 then 0 else queuedTimeout);
          pt = (if payTimeout < 0 then 0 else payTimeout) in
      bindE time_now (\<lambda>now.
      bindE (find_all orders (\<lambda>r. o_status r = OrderStatusQueued \<and> o_updated r \<le> cutoff_before now qt)) (\<lambda>queued.
      bindE (requeue_loop s now queued \<lparr>cm_requeued = 0, cm_closed = 0, cm_ended = 0, cm_failed = 0\<rparr>) (\<lambda>r1.
      bindE (find_all orders (\<lambda>r. o_status r = OrderStatusWaitPay \<and> o_created r \<le> cutoff_before now pt)) (\<lambda>waiting.
      bindE (close_loop s waiting r1) (\<lambda>r2.
      bindE (find_all activities (\<lambda>a. (a_status a = ActivityStatusPublished \<or> a_status a = '''') \<and> a_end a \<le> now)) (\<lambda>over.
      end_loop over r2)))))))"

section \<open>Reconciling the cached stock\<close>

record StockReconcileItem =
  si_activity :: nat
  si_name :: string
  si_status :: string
  si_mysql :: int
  si_redis :: int
  si_exists :: bool
  si_repaired :: bool

record StockReconcileResult =
  sr_checked :: int
  sr_missing :: int
  sr_mismatched :: int
  sr_repaired :: int
  sr_items :: "StockReconcileItem list"

definition reconcile_item :: "activity \<Rightarrow> int \<Rightarrow> bool \<Rightarrow> bool \<Rightarrow> StockReconcileItem" where
  "reconcile_item act redisStock present repaired =
     \<lparr>si_activity = a_id act, si_name = a_name act, si_status = a_status act, si_mysql = a_stock act,
      si_redis = redisStock, si_exists = present, si_repaired = repaired\<rparr>"

definition reconcile_one :: "bool \<Rightarrow> activity \<Rightarrow> StockReconcileResult \<Rightarrow> StockReconcileResult go" where
  "reconcile_one repair act res0 =
     (let res = res0\<lparr>sr_checked := wrap64 (sr_checked res0 + 1)\<rparr> in
      bindE (cache_GetStock (a_id act)) (\<lambda>(redisStock, present).
      if \<not> present \<or> redisStock \<noteq> a_stock act then
        (let res1 = (if \<not> present then res\<lparr>sr_missing := wrap64 (sr_missing res + 1)\<rparr>
                     else res\<lparr>sr_mismatched := wrap64 (sr_mismatched res + 1)\<rparr>) in
         if repair then
           thenE (cache_SetStock (a_id act) (a_stock act) (a_end act))
          (thenE (log_op ''stock_reconcile_repair'' '''' 0 ''success''
                    (if \<not> present
                     then ''activity='' @ utoa (a_id act) @ '' missing redis stock repaired to mysql_stock='' @ itoa (a_stock act)
                     else ''activity='' @ utoa (a_id act) @ '' redis_stock='' @ itoa redisStock @ '' mysql_stock='' @ itoa (a_stock act)))
            (ret (res1\<lparr>sr_repaired := wrap64 (sr_repaired res1 + 1),
                       sr_items := sr_items res1 @ [reconcile_item act redisStock present True]\<rparr>)))
         else
           thenE (if \<not> present
                  then log_op ''stock_reconcile_missing'' '''' 0 ''failed''
                         (''activity='' @ utoa (a_id act) @ '' mysql_stock='' @ itoa (a_stock act))
                  else log_op ''stock_reconcile_mismatch'' '''' 0 ''failed''
                         (''activity='' @ utoa (a_id act) @ '' redis_stock='' @ itoa redisStock @ '' mysql_stock='' @ itoa (a_stock act)))
             (ret (res1\<lparr>sr_items := sr_items res1 @ [reconcile_item act redisStock present False]\<rparr>)))
      else ret res))"

fun reconcile_loop :: "bool \<Rightarrow> activity list \<Rightarrow> StockReconcileResult \<Rightarrow> StockReconcileResult go" where
  "reconcile_loop repair [] res = ret res"
| "reconcile_loop repair (act # rest) res =
     bindE (reconcile_one repair act res) (reconcile_loop repair rest)"

definition ReconcileStock :: "OrderService \<Rightarrow> nat \<Rightarrow> bool \<Rightarrow> StockReconcileResult go" where
  "ReconcileStock s activityID repair =
     (if \<not> os_cache s then throw (ErrText ''redis stock store is not enabled'')
      else
        bindE (find_desc activities (\<lambda>a. activityID = 0 \<or> a_id a = activityID)) (\<lambda>found.
        reconcile_loop repair found
          \<lparr>sr_checked = 0, sr_missing = 0, sr_mismatched = 0, sr_repaired = 0, sr_items = []\<rparr>))"

section \<open>Payment callbacks\<close>

record PaymentCallbackInput =
  pi_order_no :: string
  pi_transaction :: string
  pi_status :: string

record PaymentResult =
  pr_order_no :: string
  pr_transaction :: string
  pr_order_status :: string
  pr_already :: bool
  pr_message :: string

definition new_payment :: "PaymentCallbackInput \<Rightarrow> payment" where
  "new_payment input =
     \<lparr>pm_id = 0, pm_transaction = pi_transaction input, pm_order_no = pi_order_no input,
      pm_status = pi_status input, pm_created = 0, pm_updated = 0\<rparr>"

definition payment_body :: "PaymentCallbackInput \<Rightarrow> PaymentResult go" where
  "payment_body input =
     bindE (attempt (first_by payments (\<lambda>p. pm_transaction p = pi_transaction input))) (\<lambda>r.
       case r of
         Inr pay \<Rightarrow>
           bindE (attempt (first_by orders (\<lambda>x. o_order_no x = pm_order_no pay))) (\<lambda>ro.
           ret \<lparr>pr_order_no = pm_order_no pay, pr_transaction = pi_transaction input,
                pr_order_status = (case ro of Inr ord \<Rightarrow> o_status ord | Inl _ \<Rightarrow> ''''),
                pr_already = True, pr_message = ''duplicate callback ignored by transaction id''\<rparr>)
       | Inl _ \<Rightarrow>
           bindE (on_error (first_by orders (\<lambda>x. o_order_no x = pi_order_no input))
                    (\<lambda>_. throw ErrOrderNotFound)) (\<lambda>ord.
           if pi_status input \<noteq> ''SUCCESS'' then
             thenE (create_payment (new_payment input))
               (ret \<lparr>pr_order_no = o_order_no ord, pr_transaction = pi_transaction input,
                     pr_order_status = o_status ord, pr_already = False,
                     pr_message = ''non-success callback recorded''\<rparr>)
           else
             thenE (guardE (o_status ord = OrderStatusWaitPay) ErrIllegalTransition)
            (bindE (save_order (ord\<lparr>o_status := OrderStatusPaid\<rparr>)) (\<lambda>ord'.
             thenE (create_payment (new_payment input))
               (ret \<lparr>pr_order_no = o_order_no ord', pr_transaction = pi_transaction input,
                     pr_order_status = o_status ord', pr_already = False,
                     pr_message = ''payment success, order status changed to PAID''\<rparr>)))))"

definition PaymentCallback :: "PaymentCallbackInput \<Rightarrow> PaymentResult go" where
  "PaymentCallback input =
     bindE (on_error (transaction (payment_body input))
              (\<lambda>err. thenE (log_op ''payment_callback_failed'' (pi_order_no input) 0 ''failed'' (err_text err)) (throw err))) (\<lambda>result.
     thenE (log_op ''payment_callback'' (pr_order_no result) 0 ''success'' (pr_message result))
       (ret result))"

section \<open>Processing a created order\<close>

definition process_body :: "string \<Rightarrow> unit go" where
  "process_body orderNo =
     bindE (first_by orders (\<lambda>r. o_order_no r = orderNo)) (\<lambda>ord.
     if o_status ord \<noteq> OrderStatusQueued then ret ()
     else bindE (save_order (ord\<lparr>o_status := OrderStatusWaitPay\<rparr>)) (\<lambda>_. ret ()))"

text \<open>\<open>done\<close> is the error of a context that ends before the 120 milliseconds of waiting are over.\<close>

definition processOrderCreated :: "ext_error option \<Rightarrow> nat \<Rightarrow> string \<Rightarrow> unit go" where
  "processOrderCreated done workerID orderNo =
     (case done of
        Some e \<Rightarrow> throw (Ext e)
      | None \<Rightarrow>
          thenE (on_error (transaction (process_body orderNo))
                   (\<lambda>err. thenE (log_op ''order_created_async'' orderNo 0 ''failed'' (err_text err)) (throw err)))
            (log_op ''order_created_async'' orderNo 0 ''success''
               (''worker='' @ utoa workerID @ '' moved order to WAIT_PAY'')))"

end
