(* ===== verification/Catalog.thy ===== *)
theory Catalog
  imports Store RedisStock
begin

text \<open>
  \<^verbatim>\<open>internal/service/catalog.go\<close>: products and activities.  The argument \<open>cached\<close> says whether
  a Redis stock store was set (\<open>s.redisStock != nil\<close>); a failed prewarm is only printed.
\<close>

record CreateProductInput =
  cp_name :: string
  cp_price :: int
  cp_stock :: int

record CreateActivityInput =
  ca_product :: nat
  ca_name :: string
  ca_price :: int
  ca_stock :: int
  ca_duration :: int

definition CreateProduct :: "CreateProductInput \<Rightarrow> product go" where
  "CreateProduct input =
     (if cp_price input \<le> 0 \<or> cp_stock input < 0
      then throw (ErrText ''price must be positive and stock cannot be negative'')
      else create_product \<lparr>p_id = 0, p_name = cp_name input, p_price = cp_price input,
             p_stock = cp_stock input, p_created = 0, p_updated = 0\<rparr>)"

definition ListProducts :: "product list go" where
  "ListProducts = find_desc products (\<lambda>_. True)"

definition CreateActivity :: "bool \<Rightarrow> CreateActivityInput \<Rightarrow> activity go" where
  "CreateActivity cached input =
     (if ca_price input \<le> 0 \<or> ca_stock input \<le> 0
      then throw (ErrText ''price and stock must be positive'')
      else
        (let duration = (if ca_duration input \<le> 0 then 24 * 3600 else ca_duration input) in
         bindE (on_error (first_by products (\<lambda>p. p_id p = ca_product input))
                  (\<lambda>_. throw (ErrText ''product not found''))) (\<lambda>product.
         if p_stock product < ca_stock input
         then throw (ErrText ''activity stock cannot exceed product stock'')
         else
           bindE time_now (\<lambda>now.
           bindE (create_activity
             \<lparr>a_id = 0, a_product = ca_product input, a_name = ca_name input, a_price = ca_price input,
              a_stock = ca_stock input, a_status = ActivityStatusPublished, a_start = now,
              a_end = now + seconds_duration duration, a_created = 0, a_updated = 0\<rparr>) (\<lambda>act.
           thenE (if cached then thenE (attempt (cache_Prewarm act)) (ret ()) else ret ())
             (ret act))))))"

definition ListActivities :: "activity list go" where
  "ListActivities = find_desc activities (\<lambda>_. True)"

definition UpdateActivityStatus :: "nat \<Rightarrow> string \<Rightarrow> activity go" where
  "UpdateActivityStatus activityID status =
     (if \<not> IsValidActivityStatus status
      then throw (ErrText (''invalid activity status: '' @ status))
      else
        bindE (on_error (first_by activities (\<lambda>a. a_id a = activityID))
                 (\<lambda>_. throw (ErrText ''activity not found''))) (\<lambda>act.
        save_activity (act\<lparr>a_status := status\<rparr>)))"

end
