(* ===== verification/Ledger.thy ===== *)
theory Ledger
  imports World
begin

text \<open>
  The abstract specification of the order system: what may happen to the tables, one rule per
  business event, without statements, retries or failures.  The service methods are shown to
  perform only such events (theory \<^theory_text>\<open>Refinement\<close>); the invariants of the system are proved
  here, once, on the events.
\<close>

section \<open>Stock accounting\<close>

definition live :: "order \<Rightarrow> bool" where
  "live ord \<longleftrightarrow> o_status ord = OrderStatusQueued \<or> o_status ord = OrderStatusWaitPay \<or>
     o_status ord = OrderStatusPaid"

definition open_order :: "order \<Rightarrow> bool" where
  "open_order ord \<longleftrightarrow> o_status ord = OrderStatusQueued \<or> o_status ord = OrderStatusWaitPay"

text \<open>Units of an activity in stock plus units held by live orders.\<close>

definition activity_level :: "tables \<Rightarrow> nat \<Rightarrow> int" where
  "activity_level t a =
     sum_list (map (\<lambda>x. if a_id x = a then a_stock x else 0) (activities t)) +
     sum_list (map (\<lambda>x. if live x \<and> o_activity x = a then 1 else 0) (orders t))"

definition live_no :: "order list \<Rightarrow> string \<Rightarrow> bool" where
  "live_no os no \<longleftrightarrow> (\<exists>x\<in>set os. o_order_no x = no \<and> live x)"

definition item_sum :: "order_item list \<Rightarrow> nat \<Rightarrow> int" where
  "item_sum is p = sum_list (map (\<lambda>i. if oi_product i = p then oi_quantity i else 0) is)"

definition product_level :: "tables \<Rightarrow> nat \<Rightarrow> int" where
  "product_level t p =
     sum_list (map (\<lambda>x. if p_id x = p then p_stock x else 0) (products t)) +
     item_sum (filter (\<lambda>i. live_no (orders t) (oi_order_no i)) (order_items t)) p"

text \<open>The same products with the stock of each moved by \<open>d\<close> of its key.\<close>

definition moved :: "(nat \<Rightarrow> int) \<Rightarrow> product \<Rightarrow> product \<Rightarrow> bool" where
  "moved d p p' \<longleftrightarrow> p_id p' = p_id p \<and> p_name p' = p_name p \<and> p_price p' = p_price p \<and>
     p_stock p' = p_stock p + d (p_id p)"

definition shifted :: "(nat \<Rightarrow> int) \<Rightarrow> product list \<Rightarrow> product list \<Rightarrow> bool" where
  "shifted d ps ps' \<longleftrightarrow> list_all2 (moved d) ps ps'"

definition success_payments :: "payment list \<Rightarrow> string \<Rightarrow> nat" where
  "success_payments ps no = length (filter (\<lambda>p. pm_order_no p = no \<and> pm_status p = ''SUCCESS'') ps)"

section \<open>Events\<close>

inductive ev :: "tables \<Rightarrow> tables \<Rightarrow> bool" where
  ev_log: "ev t (t\<lparr>operation_logs := ls\<rparr>)"
| ev_side: "ev t (t\<lparr>users := us, addresses := as, cart_items := cs, coupons := co, user_coupons := uc\<rparr>)"
| ev_new_product: "p_id p \<notin> p_id ` set (products t) \<Longrightarrow> 0 \<le> p_stock p \<Longrightarrow> in_i64 (p_stock p) \<Longrightarrow>
    ev t (t\<lparr>products := products t @ [p]\<rparr>)"
| ev_new_activity: "a_id a \<notin> a_id ` set (activities t) \<Longrightarrow> 0 < a_id a \<Longrightarrow> 0 \<le> a_stock a \<Longrightarrow> in_i64 (a_stock a) \<Longrightarrow>
    ev t (t\<lparr>activities := activities t @ [a]\<rparr>)"
| ev_activity_status: "act \<in> set (activities t) \<Longrightarrow> a_id act' = a_id act \<Longrightarrow> a_stock act' = a_stock act \<Longrightarrow>
    ev t (t\<lparr>activities := put_row a_id act' (activities t)\<rparr>)"
| ev_place: "act \<in> set (activities t) \<Longrightarrow> o_activity ord = a_id act \<Longrightarrow> 0 < a_stock act \<Longrightarrow>
    a_id act' = a_id act \<Longrightarrow> a_stock act' = a_stock act - 1 \<Longrightarrow>
    \<forall>x\<in>set (orders t). \<not> (o_user x = o_user ord \<and> o_activity x = o_activity ord) \<Longrightarrow>
    o_order_no ord \<notin> o_order_no ` set (orders t) \<Longrightarrow> o_id ord \<notin> o_id ` set (orders t) \<Longrightarrow>
    o_status ord = OrderStatusQueued \<Longrightarrow> o_key ord = None \<or> o_key ord \<notin> o_key ` set (orders t) \<Longrightarrow>
    o_key ord = NewActivityOrderKey (o_user ord) (o_activity ord) \<Longrightarrow>
    ev t (t\<lparr>activities := put_row a_id act' (activities t), orders := orders t @ [ord]\<rparr>)"
| ev_advance: "ord \<in> set (orders t) \<Longrightarrow> o_status ord = OrderStatusQueued \<Longrightarrow>
    ord' = ord\<lparr>o_status := OrderStatusWaitPay, o_updated := u\<rparr> \<Longrightarrow>
    ev t (t\<lparr>orders := put_row o_id ord' (orders t)\<rparr>)"
| ev_touch: "ev t (t\<lparr>orders := map (\<lambda>x. if P x then x\<lparr>o_updated := u\<rparr> else x) (orders t)\<rparr>)"
| ev_pay: "ord \<in> set (orders t) \<Longrightarrow> o_status ord = OrderStatusWaitPay \<Longrightarrow>
    ord' = ord\<lparr>o_status := OrderStatusPaid, o_updated := u\<rparr> \<Longrightarrow>
    pm_order_no p = o_order_no ord \<Longrightarrow> pm_status p = ''SUCCESS'' \<Longrightarrow>
    pm_transaction p \<notin> pm_transaction ` set (payments t) \<Longrightarrow>
    ev t (t\<lparr>orders := put_row o_id ord' (orders t), payments := payments t @ [p]\<rparr>)"
| ev_note_payment: "pm_order_no p \<in> o_order_no ` set (orders t) \<Longrightarrow> pm_status p \<noteq> ''SUCCESS'' \<Longrightarrow>
    pm_transaction p \<notin> pm_transaction ` set (payments t) \<Longrightarrow>
    ev t (t\<lparr>payments := payments t @ [p]\<rparr>)"
| ev_return_activity: "ord \<in> set (orders t) \<Longrightarrow> open_order ord \<Longrightarrow> 0 < o_activity ord \<Longrightarrow>
    act \<in> set (activities t) \<Longrightarrow> a_id act = o_activity ord \<Longrightarrow>
    a_id act' = a_id act \<Longrightarrow> a_stock act' = a_stock act + 1 \<Longrightarrow>
    final = OrderStatusCancelled \<or> final = OrderStatusClosed \<Longrightarrow>
    ord' = ord\<lparr>o_status := final, o_updated := u\<rparr> \<Longrightarrow>
    ev t (t\<lparr>activities := put_row a_id act' (activities t), orders := put_row o_id ord' (orders t)\<rparr>)"
| ev_return_cart: "ord \<in> set (orders t) \<Longrightarrow> open_order ord \<Longrightarrow> o_activity ord = 0 \<Longrightarrow>
    shifted (item_sum (filter (\<lambda>i. oi_order_no i = o_order_no ord) (order_items t))) (products t) ps' \<Longrightarrow>
    final = OrderStatusCancelled \<or> final = OrderStatusClosed \<Longrightarrow>
    ord' = ord\<lparr>o_status := final, o_updated := u\<rparr> \<Longrightarrow>
    ev t (t\<lparr>products := ps', orders := put_row o_id ord' (orders t)\<rparr>)"
| ev_checkout: "o_activity ord = 0 \<Longrightarrow> o_status ord = OrderStatusWaitPay \<Longrightarrow>
    o_order_no ord \<notin> o_order_no ` set (orders t) \<Longrightarrow> o_id ord \<notin> o_id ` set (orders t) \<Longrightarrow>
    \<forall>i\<in>set is. oi_order_no i = o_order_no ord \<and> 0 < oi_quantity i \<and> oi_product i \<in> p_id ` set (products t) \<Longrightarrow>
    shifted (\<lambda>p. - item_sum is p) (products t) ps' \<Longrightarrow> \<forall>p\<in>set ps'. 0 \<le> p_stock p \<Longrightarrow>
    o_key ord = None \<Longrightarrow>
    ev t (t\<lparr>products := ps', orders := orders t @ [ord], order_items := order_items t @ is,
            cart_items := cs, user_coupons := uc\<rparr>)"

abbreviation evs :: "tables \<Rightarrow> tables \<Rightarrow> bool" where
  "evs \<equiv> ev\<^sup>*\<^sup>*"

section \<open>The invariant\<close>

definition keys_inv :: "tables \<Rightarrow> bool" where
  "keys_inv t \<longleftrightarrow> distinct (map a_id (activities t)) \<and> distinct (map p_id (products t)) \<and>
     distinct (map o_id (orders t)) \<and> distinct (map o_order_no (orders t)) \<and>
     distinct (map pm_transaction (payments t))"

definition refs_inv :: "tables \<Rightarrow> bool" where
  "refs_inv t \<longleftrightarrow>
     (\<forall>x\<in>set (orders t). 0 < o_activity x \<longrightarrow> o_activity x \<in> a_id ` set (activities t)) \<and>
     (\<forall>a\<in>set (activities t). 0 < a_id a) \<and>
     (\<forall>i\<in>set (order_items t). 0 < oi_quantity i \<and> oi_product i \<in> p_id ` set (products t) \<and>
        (\<exists>x\<in>set (orders t). o_order_no x = oi_order_no i \<and> o_activity x = 0)) \<and>
     (\<forall>p\<in>set (payments t). pm_order_no p \<in> o_order_no ` set (orders t))"

definition stock_inv :: "tables \<Rightarrow> bool" where
  "stock_inv t \<longleftrightarrow> (\<forall>a\<in>set (activities t). 0 \<le> a_stock a) \<and> (\<forall>p\<in>set (products t). 0 \<le> p_stock p) \<and>
     (\<forall>a\<in>set (activities t). in_i64 (activity_level t (a_id a))) \<and>
     (\<forall>p\<in>set (products t). in_i64 (product_level t (p_id p)))"

text \<open>The unique index on the key of an activity order.\<close>

definition index_inv :: "tables \<Rightarrow> bool" where
  "index_inv t \<longleftrightarrow> (\<forall>x\<in>set (orders t). \<forall>y\<in>set (orders t).
     o_key x \<noteq> None \<and> o_key x = o_key y \<longrightarrow> o_id x = o_id y)"

text \<open>Every order has the key of its user and activity; the order of a cart has none.\<close>

definition keyed_inv :: "tables \<Rightarrow> bool" where
  "keyed_inv t \<longleftrightarrow> (\<forall>x\<in>set (orders t). o_key x = NewActivityOrderKey (o_user x) (o_activity x))"

text \<open>One order per user and activity.\<close>

definition once_inv :: "tables \<Rightarrow> bool" where
  "once_inv t \<longleftrightarrow> (\<forall>x\<in>set (orders t). \<forall>y\<in>set (orders t).
     0 < o_activity x \<and> o_user x = o_user y \<and> o_activity x = o_activity y \<longrightarrow> o_id x = o_id y)"

text \<open>An order is paid exactly when one successful payment is recorded for it.\<close>

definition paid_inv :: "tables \<Rightarrow> bool" where
  "paid_inv t \<longleftrightarrow> (\<forall>x\<in>set (orders t).
     success_payments (payments t) (o_order_no x) = (if o_status x = OrderStatusPaid then 1 else 0))"

definition ledger_inv :: "tables \<Rightarrow> bool" where
  "ledger_inv t \<longleftrightarrow> keys_inv t \<and> refs_inv t \<and> stock_inv t \<and> once_inv t \<and> paid_inv t \<and> index_inv t \<and> keyed_inv t"

definition empty_tables :: tables where
  "empty_tables = \<lparr>users = [], products = [], addresses = [], cart_items = [], coupons = [],
     user_coupons = [], activities = [], orders = [], order_items = [], payments = [], operation_logs = []\<rparr>"

lemma ledger_inv_empty: "ledger_inv empty_tables"
  by (simp add: ledger_inv_def keys_inv_def refs_inv_def stock_inv_def once_inv_def paid_inv_def index_inv_def keyed_inv_def
      empty_tables_def activity_level_def product_level_def item_sum_def in_i64_def)

section \<open>Facts on shifts and on single rows\<close>

lemma shifted_keys: "shifted d ps ps' \<Longrightarrow> map p_id ps' = map p_id ps"
  unfolding shifted_def by (induction rule: list_all2_induct) (auto simp: moved_def)

lemma shifted_key_set: "shifted d ps ps' \<Longrightarrow> p_id ` set ps' = p_id ` set ps"
  by (metis shifted_keys list.set_map)

lemma shifted_sum:
  "shifted d ps ps' \<Longrightarrow> distinct (map p_id ps) \<Longrightarrow>
   sum_list (map (\<lambda>x. if p_id x = p then p_stock x else 0) ps') =
   sum_list (map (\<lambda>x. if p_id x = p then p_stock x else 0) ps) + (if p \<in> p_id ` set ps then d p else 0)"
  unfolding shifted_def
  by (induction rule: list_all2_induct) (auto simp: moved_def)

lemma shifted_at: "shifted d ps ps' \<Longrightarrow> p' \<in> set ps' \<Longrightarrow>
   \<exists>p\<in>set ps. p_id p' = p_id p \<and> p_stock p' = p_stock p + d (p_id p)"
  unfolding shifted_def
  by (induction rule: list_all2_induct) (auto simp: moved_def)

lemma item_sum_append [simp]: "item_sum (is @ js) p = item_sum is p + item_sum js p"
  by (simp add: item_sum_def)

lemma item_sum_nonneg: "\<forall>i\<in>set is. 0 < oi_quantity i \<Longrightarrow> 0 \<le> item_sum is p"
  unfolding item_sum_def by (induction "is") auto

lemma item_sum_zero: "p \<notin> oi_product ` set is \<Longrightarrow> item_sum is p = 0"
  unfolding item_sum_def by (induction "is") auto

lemma item_sum_filter_split:
  "item_sum (filter P is) p = item_sum (filter (\<lambda>i. P i \<and> Q i) is) p + item_sum (filter (\<lambda>i. P i \<and> \<not> Q i) is) p"
  unfolding item_sum_def by (induction "is") auto

lemma success_payments_append [simp]:
  "success_payments (ps @ qs) no = success_payments ps no + success_payments qs no"
  by (simp add: success_payments_def)

lemma success_payments_none:
  "no \<notin> pm_order_no ` set ps \<Longrightarrow> success_payments ps no = 0"
  by (auto simp: success_payments_def filter_empty_conv)

lemma put_row_map_other:
  assumes "distinct (map key rs)" and "r0 \<in> set rs" and "key r = key r0" and "f r = f r0"
  shows "map f (put_row key r rs) = map f rs"
  using distinct_key_unique [OF assms(1) _ assms(2)] assms(3,4) by (auto simp: put_row_def)

lemma in_put_row:
  "x \<in> set (put_row key r rs) \<Longrightarrow> x = r \<or> x \<in> set rs \<and> key x \<noteq> key r"
  by (auto simp: set_put_row split: if_splits)

end
