(* ===== verification/Invariants.thy ===== *)
theory Invariants
  imports Ledger
begin

text \<open>
  Every event of \<^theory_text>\<open>Ledger\<close> preserves the invariant \<open>ledger_inv\<close>: keys stay unique, references stay
  valid, no stock goes negative, a user holds at most one order of an activity, an order is paid
  exactly when one successful payment names it.  No event changes the level of an existing activity
  or product (conservation of stock), and every order row lives on with its identity, moving along
  the status machine only.
\<close>

section \<open>Order rows, keys and references\<close>

lemma open_live: "open_order x \<Longrightarrow> live x"
  by (auto simp: open_order_def live_def)

lemma closed_not_live: "f = OrderStatusCancelled \<or> f = OrderStatusClosed \<Longrightarrow> o_status x = f \<Longrightarrow> \<not> live x"
  by (auto simp: live_def)

lemma status_not_live [simp]:
  "\<not> live (x\<lparr>o_status := OrderStatusCancelled\<rparr>)"
  "\<not> live (x\<lparr>o_status := OrderStatusClosed\<rparr>)"
  "live (x\<lparr>o_status := OrderStatusWaitPay\<rparr>)"
  "live (x\<lparr>o_status := OrderStatusPaid\<rparr>)"
  by (simp_all add: live_def)

lemma live_updated [simp]: "live (x\<lparr>o_updated := u\<rparr>) = live x"
  by (simp add: live_def)

lemma live_no_put_row:
  assumes "distinct (map o_id os)" and "distinct (map o_order_no os)" and "r0 \<in> set os"
    and "o_id r = o_id r0" and "o_order_no r = o_order_no r0"
  shows "live_no (put_row o_id r os) no = (if no = o_order_no r0 then live r else live_no os no)"
proof -
  have "x \<in> set os \<Longrightarrow> o_order_no x = o_order_no r0 \<Longrightarrow> x = r0" for x
    using distinct_key_unique [OF assms(2) _ assms(3)] .
  moreover have "x \<in> set os \<Longrightarrow> o_id x = o_id r0 \<Longrightarrow> x = r0" for x
    using distinct_key_unique [OF assms(1) _ assms(3)] .
  ultimately show ?thesis using assms(3-5)
    unfolding live_no_def by (auto simp: set_put_row)
qed

lemma live_no_map: "(\<And>x. o_order_no (f x) = o_order_no x \<and> live (f x) = live x) \<Longrightarrow> live_no (map f os) = live_no os"
  by (auto simp: live_no_def fun_eq_iff)

lemma live_no_append: "live_no (os @ [x]) no = (live_no os no \<or> o_order_no x = no \<and> live x)"
  by (auto simp: live_no_def)

text \<open>Keys and references.\<close>

lemma ev_keys: "ev t t' \<Longrightarrow> keys_inv t \<Longrightarrow> keys_inv t'"
  by (induction rule: ev.induct)
     (auto simp: keys_inv_def shifted_keys put_row_map_other comp_def if_distrib cong: if_cong)

text \<open>What never changes in an order row: the invariants on references see nothing else.\<close>

definition order_sig :: "order \<Rightarrow> nat \<times> string \<times> nat \<times> nat \<times> string option" where
  "order_sig x = (o_id x, o_order_no x, o_user x, o_activity x, o_key x)"

lemma order_sig_update [simp]: "order_sig (x\<lparr>o_status := s, o_updated := u\<rparr>) = order_sig x"
  "order_sig (x\<lparr>o_updated := u\<rparr>) = order_sig x"
  "order_sig (x\<lparr>o_status := s\<rparr>) = order_sig x"
  by (simp_all add: order_sig_def)

lemma sig_put_row:
  "distinct (map o_id os) \<Longrightarrow> r0 \<in> set os \<Longrightarrow> order_sig r = order_sig r0 \<Longrightarrow>
   map order_sig (put_row o_id r os) = map order_sig os"
  using put_row_map_other [of o_id os r0 r order_sig] by (simp add: order_sig_def)

lemma sig_put_status:
  "distinct (map o_id os) \<Longrightarrow> ord \<in> set os \<Longrightarrow>
   map order_sig (put_row o_id (ord\<lparr>o_status := s, o_updated := u\<rparr>) os) = map order_sig os"
  by (rule sig_put_row [where ?r0.0 = ord]) auto

lemma sig_touch: "map order_sig (map (\<lambda>x. if P x then x\<lparr>o_updated := u\<rparr> else x) os) = map order_sig os"
  by (auto simp: comp_def)

lemma ball_sig: "(\<forall>x\<in>set os. P (order_sig x)) \<longleftrightarrow> (\<forall>z\<in>set (map order_sig os). P z)"
  by simp

lemma refs_inv_cong:
  assumes "map order_sig (orders t') = map order_sig (orders t)"
    and "a_id ` set (activities t) \<subseteq> a_id ` set (activities t')" and "\<forall>a\<in>set (activities t'). 0 < a_id a"
    and "p_id ` set (products t) \<subseteq> p_id ` set (products t')"
    and "order_items t' = order_items t"
    and "\<forall>p\<in>set (payments t') - set (payments t). pm_order_no p \<in> o_order_no ` set (orders t)"
    and "refs_inv t"
  shows "refs_inv t'"
proof -
  have sigs: "order_sig ` set (orders t') = order_sig ` set (orders t)"
    using arg_cong [OF assms(1), of set] by simp
  have 1: "\<exists>y\<in>set (orders t). order_sig x = order_sig y" if "x \<in> set (orders t')" for x
  proof -
    from that have "order_sig x \<in> order_sig ` set (orders t')" by (rule imageI)
    then show ?thesis unfolding sigs by (rule imageE) blast
  qed
  have 2: "\<exists>x\<in>set (orders t'). order_sig x = order_sig y" if "y \<in> set (orders t)" for y
  proof -
    from that have "order_sig y \<in> order_sig ` set (orders t)" by (rule imageI)
    then show ?thesis unfolding sigs [symmetric] by (rule imageE) (metis)
  qed
  have nos: "o_order_no ` set (orders t) \<subseteq> o_order_no ` set (orders t')"
  proof
    fix n assume "n \<in> o_order_no ` set (orders t)"
    then obtain y where "y \<in> set (orders t)" "n = o_order_no y" by auto
    with 2 [of y] show "n \<in> o_order_no ` set (orders t')" by (auto simp: order_sig_def intro: rev_image_eqI)
  qed
  have acts: "\<forall>x\<in>set (orders t'). 0 < o_activity x \<longrightarrow> o_activity x \<in> a_id ` set (activities t')"
  proof (intro ballI impI)
    fix x assume "x \<in> set (orders t')" "0 < o_activity x"
    with 1 [of x] obtain y where "y \<in> set (orders t)" "o_activity y = o_activity x"
      by (auto simp: order_sig_def)
    with assms(2,7) \<open>0 < o_activity x\<close> show "o_activity x \<in> a_id ` set (activities t')"
      unfolding refs_inv_def by (metis subsetD)
  qed
  have its: "\<exists>x\<in>set (orders t'). o_order_no x = n \<and> o_activity x = 0"
    if "\<exists>x\<in>set (orders t). o_order_no x = n \<and> o_activity x = 0" for n
  proof -
    from that obtain y where "y \<in> set (orders t)" "o_order_no y = n" "o_activity y = 0" by auto
    with 2 [of y] show ?thesis by (auto simp: order_sig_def)
  qed
  show ?thesis
    unfolding refs_inv_def
  proof (intro conjI)
    show "\<forall>i\<in>set (order_items t'). 0 < oi_quantity i \<and> oi_product i \<in> p_id ` set (products t') \<and>
        (\<exists>x\<in>set (orders t'). o_order_no x = oi_order_no i \<and> o_activity x = 0)"
      using assms(4,5,7) its unfolding refs_inv_def by auto
    show "\<forall>p\<in>set (payments t'). pm_order_no p \<in> o_order_no ` set (orders t')"
      using assms(6,7) nos unfolding refs_inv_def by blast
  qed (use acts assms(3) in auto)
qed

lemma ids_put_row: "a_id ` set (put_row a_id r xs) = a_id ` set xs"
  by (metis list.set_map map_key_put_row)

lemma pos_put_row:
  "\<forall>a\<in>set xs. 0 < a_id a \<Longrightarrow> r0 \<in> set xs \<Longrightarrow> a_id r = a_id r0 \<Longrightarrow> \<forall>a\<in>set (put_row a_id r xs). 0 < a_id a"
  by (auto dest: in_put_row)

lemma refs_posD: "refs_inv t \<Longrightarrow> \<forall>a\<in>set (activities t). 0 < a_id a"
  by (simp add: refs_inv_def)

lemma ev_refs: "ev t t' \<Longrightarrow> keys_inv t \<Longrightarrow> refs_inv t \<Longrightarrow> refs_inv t'"
proof (induction rule: ev.induct)
  case (ev_checkout ord t "is" ps' cs uc)
  show ?case using ev_checkout.hyps ev_checkout.prems unfolding refs_inv_def
    by (auto simp: shifted_key_set)
next
  case (ev_place act t ord act')
  show ?case using ev_place.hyps ev_place.prems pos_put_row [OF refs_posD] unfolding refs_inv_def
    by (auto simp: ids_put_row)
qed ((rule refs_inv_cong [rotated 6], assumption);
     auto simp: keys_inv_def sig_put_status sig_touch ids_put_row shifted_key_set dest: refs_posD pos_put_row [OF refs_posD])+

section \<open>Uniqueness of orders and of payments\<close>

text \<open>One order per user and activity.\<close>

lemma once_sig:
  "once_inv t \<longleftrightarrow> (\<forall>x\<in>set (map order_sig (orders t)). \<forall>y\<in>set (map order_sig (orders t)).
     case (x, y) of ((i, n, u, a, k), (i', n', u', a', k')) \<Rightarrow> 0 < a \<and> u = u' \<and> a = a' \<longrightarrow> i = i')"
  by (simp add: once_inv_def order_sig_def)

lemma once_inv_cong:
  "map order_sig (orders t') = map order_sig (orders t) \<Longrightarrow> once_inv t \<Longrightarrow> once_inv t'"
  by (simp add: once_sig)

lemma once_append:
  assumes "once_inv t" and "orders t' = orders t @ [ord]"
    and "\<And>x. x \<in> set (orders t) \<Longrightarrow> 0 < o_activity ord \<Longrightarrow>
      o_user x = o_user ord \<Longrightarrow> o_activity x = o_activity ord \<Longrightarrow> False"
  shows "once_inv t'"
  unfolding once_inv_def
proof (intro ballI impI)
  fix x y assume "x \<in> set (orders t')" "y \<in> set (orders t')"
    and eq: "0 < o_activity x \<and> o_user x = o_user y \<and> o_activity x = o_activity y"
  then consider "x = ord" "y = ord" | "x = ord" "y \<in> set (orders t)" | "x \<in> set (orders t)" "y = ord"
    | "x \<in> set (orders t)" "y \<in> set (orders t)" by (auto simp: assms(2))
  then show "o_id x = o_id y"
  proof cases
    case 2
    with assms(3) [of y] eq show ?thesis by metis
  next
    case 3
    with assms(3) [of x] eq show ?thesis by metis
  next
    case 4
    with assms(1) eq show ?thesis unfolding once_inv_def by metis
  qed simp
qed

lemma ev_once: "ev t t' \<Longrightarrow> keys_inv t \<Longrightarrow> once_inv t \<Longrightarrow> once_inv t'"
proof (induction rule: ev.induct)
  case (ev_place act t ord act')
  show ?case by (rule once_append [OF ev_place.prems(2)]) (use ev_place.hyps in auto)
next
  case (ev_checkout ord t "is" ps' cs uc)
  show ?case by (rule once_append [OF ev_checkout.prems(2)]) (use ev_checkout.hyps in auto)
qed ((rule once_inv_cong, simp_all add: keys_inv_def sig_put_status sig_touch); fail)+

lemma index_sig:
  "index_inv t \<longleftrightarrow> (\<forall>x\<in>set (map order_sig (orders t)). \<forall>y\<in>set (map order_sig (orders t)).
     case (x, y) of ((i, n, u, a, k), (i', n', u', a', k')) \<Rightarrow> k \<noteq> None \<and> k = k' \<longrightarrow> i = i')"
  by (simp add: index_inv_def order_sig_def)

lemma index_inv_cong:
  "map order_sig (orders t') = map order_sig (orders t) \<Longrightarrow> index_inv t \<Longrightarrow> index_inv t'"
  by (simp add: index_sig)

lemma index_append:
  assumes "index_inv t" and "orders t' = orders t @ [ord]"
    and "o_key ord = None \<or> o_key ord \<notin> o_key ` set (orders t)"
  shows "index_inv t'"
  unfolding index_inv_def
proof (intro ballI impI)
  fix x y assume "x \<in> set (orders t')" "y \<in> set (orders t')" and eq: "o_key x \<noteq> None \<and> o_key x = o_key y"
  then consider "x = ord" "y = ord" | "x = ord" "y \<in> set (orders t)" | "x \<in> set (orders t)" "y = ord"
    | "x \<in> set (orders t)" "y \<in> set (orders t)" by (auto simp: assms(2))
  then show "o_id x = o_id y"
  proof cases
    case 2
    with assms(3) eq show ?thesis by (metis imageI)
  next
    case 3
    with assms(3) eq show ?thesis by (metis imageI)
  next
    case 4
    with assms(1) eq show ?thesis unfolding index_inv_def by metis
  qed simp
qed

lemma ev_index: "ev t t' \<Longrightarrow> keys_inv t \<Longrightarrow> index_inv t \<Longrightarrow> index_inv t'"
proof (induction rule: ev.induct)
  case (ev_place act t ord act')
  show ?case by (rule index_append [OF ev_place.prems(2) _ ev_place.hyps(10)]) simp
next
  case (ev_checkout ord t "is" ps' cs uc)
  show ?case by (rule index_append [OF ev_checkout.prems(2)]) (use ev_checkout.hyps in auto)
qed ((rule index_inv_cong, simp_all add: keys_inv_def sig_put_status sig_touch); fail)+

lemma keyed_sig:
  "keyed_inv t \<longleftrightarrow> (\<forall>x\<in>set (map order_sig (orders t)).
     case x of (i, n, u, a, k) \<Rightarrow> k = NewActivityOrderKey u a)"
  by (simp add: keyed_inv_def order_sig_def)

lemma keyed_inv_cong:
  "map order_sig (orders t') = map order_sig (orders t) \<Longrightarrow> keyed_inv t \<Longrightarrow> keyed_inv t'"
  by (simp add: keyed_sig)

lemma ev_keyed: "ev t t' \<Longrightarrow> keys_inv t \<Longrightarrow> keyed_inv t \<Longrightarrow> keyed_inv t'"
proof (induction rule: ev.induct)
  case (ev_place act t ord act')
  then show ?case by (auto simp: keyed_inv_def)
next
  case (ev_checkout ord t "is" ps' cs uc)
  then show ?case by (auto simp: keyed_inv_def NewActivityOrderKey_def)
qed ((rule keyed_inv_cong, simp_all add: keys_inv_def sig_put_status sig_touch); fail)+

text \<open>Payments.\<close>

lemma paid_put_status:
  assumes "paid_inv t" and "keys_inv t" and "ord \<in> set (orders t)" and "o_status ord \<noteq> OrderStatusPaid"
    and "s \<noteq> OrderStatusPaid" and "orders t' = put_row o_id (ord\<lparr>o_status := s, o_updated := u\<rparr>) (orders t)"
    and "payments t' = payments t"
  shows "paid_inv t'"
  using assms unfolding paid_inv_def by (fastforce dest: in_put_row)

lemma paid_touch:
  "paid_inv t \<Longrightarrow> paid_inv (t\<lparr>orders := map (\<lambda>x. if P x then x\<lparr>o_updated := u\<rparr> else x) (orders t)\<rparr>)"
  unfolding paid_inv_def by auto

lemma paid_pay:
  assumes inv: "paid_inv t" "keys_inv t" and ord: "ord \<in> set (orders t)" "o_status ord = OrderStatusWaitPay"
    and p: "pm_order_no p = o_order_no ord" "pm_status p = ''SUCCESS''"
  shows "paid_inv (t\<lparr>orders := put_row o_id (ord\<lparr>o_status := OrderStatusPaid, o_updated := u\<rparr>) (orders t),
    payments := payments t @ [p]\<rparr>)"
  unfolding paid_inv_def
proof
  let ?ord = "ord\<lparr>o_status := OrderStatusPaid, o_updated := u\<rparr>"
  fix x assume "x \<in> set (orders (t\<lparr>orders := put_row o_id ?ord (orders t), payments := payments t @ [p]\<rparr>))"
  then consider "x = ?ord" | "x \<in> set (orders t)" "o_id x \<noteq> o_id ord"
    by (fastforce dest: in_put_row)
  then show "success_payments (payments (t\<lparr>orders := put_row o_id ?ord (orders t), payments := payments t @ [p]\<rparr>)) (o_order_no x) =
    (if o_status x = OrderStatusPaid then 1 else 0)"
  proof cases
    case 1
    with inv(1) ord p show ?thesis by (fastforce simp: paid_inv_def success_payments_def)
  next
    case 2
    with inv(2) ord(1) have "o_order_no x \<noteq> o_order_no ord"
      unfolding keys_inv_def by (metis distinct_key_unique)
    with 2 inv(1) p show ?thesis by (simp add: paid_inv_def success_payments_def)
  qed
qed

lemma paid_new_order:
  assumes "paid_inv t" and "refs_inv t" and "o_status ord \<noteq> OrderStatusPaid"
    and "o_order_no ord \<notin> o_order_no ` set (orders t)"
    and "orders t' = orders t @ [ord]" and "payments t' = payments t"
  shows "paid_inv t'"
proof -
  have "success_payments (payments t) (o_order_no ord) = 0"
    using assms(2,4) by (intro success_payments_none) (auto simp: refs_inv_def)
  with assms show ?thesis by (auto simp: paid_inv_def)
qed

lemma ev_paid: "ev t t' \<Longrightarrow> keys_inv t \<Longrightarrow> refs_inv t \<Longrightarrow> paid_inv t \<Longrightarrow> paid_inv t'"
proof (induction rule: ev.induct)
  case (ev_pay ord t ord' u p)
  then show ?case using paid_pay [of t ord p u] by simp
next
  case (ev_note_payment p t)
  then show ?case by (simp add: paid_inv_def success_payments_def)
next
  case (ev_touch t P u)
  show ?case by (rule paid_touch) (rule ev_touch.prems)
next
  case (ev_place act t ord act')
  show ?case by (rule paid_new_order [OF ev_place.prems(3,2)]) (use ev_place.hyps in simp_all)
next
  case (ev_checkout ord t "is" ps' cs uc)
  show ?case by (rule paid_new_order [OF ev_checkout.prems(3,2)]) (use ev_checkout.hyps in simp_all)
next
  case (ev_advance ord t ord' u)
  show ?case by (rule paid_put_status [OF ev_advance.prems(3,1) ev_advance.hyps(1)])
    (use ev_advance.hyps in simp_all)
next
  case (ev_return_activity ord t act act' final ord' u)
  show ?case by (rule paid_put_status [OF ev_return_activity.prems(3,1) ev_return_activity.hyps(1)])
    (use ev_return_activity.hyps in \<open>auto simp: open_order_def\<close>)
next
  case (ev_return_cart ord t ps' final ord' u)
  show ?case by (rule paid_put_status [OF ev_return_cart.prems(3,1) ev_return_cart.hyps(1)])
    (use ev_return_cart.hyps in \<open>auto simp: open_order_def\<close>)
qed (simp_all add: paid_inv_def)

section \<open>Conservation of stock\<close>

text \<open>Conservation: no event changes the level of an activity or a product that exists.\<close>

definition act_rows :: "activity list \<Rightarrow> nat \<Rightarrow> int" where
  "act_rows xs a = sum_list (map (\<lambda>x. if a_id x = a then a_stock x else 0) xs)"

definition held :: "order list \<Rightarrow> nat \<Rightarrow> int" where
  "held os a = sum_list (map (\<lambda>x. if live x \<and> o_activity x = a then 1 else 0) os)"

definition prod_rows :: "product list \<Rightarrow> nat \<Rightarrow> int" where
  "prod_rows xs p = sum_list (map (\<lambda>x. if p_id x = p then p_stock x else 0) xs)"

definition sold :: "order list \<Rightarrow> order_item list \<Rightarrow> nat \<Rightarrow> int" where
  "sold os is p = item_sum (filter (\<lambda>i. live_no os (oi_order_no i)) is) p"

lemma activity_level_parts: "activity_level t a = act_rows (activities t) a + held (orders t) a"
  by (simp add: activity_level_def act_rows_def held_def)

lemma product_level_parts: "product_level t p = prod_rows (products t) p + sold (orders t) (order_items t) p"
  by (simp add: product_level_def prod_rows_def sold_def)

lemma act_rows_put_row:
  "distinct (map a_id xs) \<Longrightarrow> r0 \<in> set xs \<Longrightarrow> a_id r = a_id r0 \<Longrightarrow>
   act_rows (put_row a_id r xs) a = act_rows xs a + (if a = a_id r0 then a_stock r - a_stock r0 else 0)"
  using sum_list_put_row [of a_id xs r0 r "\<lambda>x. if a_id x = a then a_stock x else 0"]
  by (simp add: act_rows_def)

lemma held_put_status:
  "distinct (map o_id xs) \<Longrightarrow> ord \<in> set xs \<Longrightarrow>
   held (put_row o_id (ord\<lparr>o_status := s, o_updated := u\<rparr>) xs) a = held xs a +
     (if a = o_activity ord then of_bool (live (ord\<lparr>o_status := s, o_updated := u\<rparr>)) - of_bool (live ord) else 0)"
  using sum_list_put_row [of o_id xs ord "ord\<lparr>o_status := s, o_updated := u\<rparr>" "\<lambda>x. if live x \<and> o_activity x = a then 1 else 0"]
  by (auto simp: held_def live_def)

lemma held_touch: "held (map (\<lambda>x. if P x then x\<lparr>o_updated := u\<rparr> else x) os) a = held os a"
  unfolding held_def by (rule arg_cong [of _ _ sum_list]) (auto simp: live_def)

lemma held_append [simp]: "held (os @ [ord]) a = held os a + (if live ord \<and> o_activity ord = a then 1 else 0)"
  by (simp add: held_def)

lemma act_rows_append [simp]: "act_rows (xs @ [x]) a = act_rows xs a + (if a_id x = a then a_stock x else 0)"
  by (simp add: act_rows_def)

lemma prod_rows_append [simp]: "prod_rows (xs @ [x]) p = prod_rows xs p + (if p_id x = p then p_stock x else 0)"
  by (simp add: prod_rows_def)

lemma prod_rows_shifted:
  "shifted d ps ps' \<Longrightarrow> distinct (map p_id ps) \<Longrightarrow> p \<in> p_id ` set ps \<Longrightarrow> prod_rows ps' p = prod_rows ps p + d p"
  using shifted_sum by (simp add: prod_rows_def)

lemma sold_touch: "sold (map (\<lambda>x. if P x then x\<lparr>o_updated := u\<rparr> else x) os) is p = sold os is p"
  unfolding sold_def by (simp add: live_no_map)

lemma sold_put_live:
  assumes "distinct (map o_id os)" and "distinct (map o_order_no os)" and "ord \<in> set os"
    and "live ord" and "live (ord\<lparr>o_status := s, o_updated := u\<rparr>)"
  shows "sold (put_row o_id (ord\<lparr>o_status := s, o_updated := u\<rparr>) os) is p = sold os is p"
proof -
  have "live_no os (o_order_no ord)" using assms(3,4) by (auto simp: live_no_def)
  then have "live_no (put_row o_id (ord\<lparr>o_status := s, o_updated := u\<rparr>) os) n = live_no os n" for n
    using live_no_put_row [OF assms(1-3), of "ord\<lparr>o_status := s, o_updated := u\<rparr>" n] assms(5) by auto
  then show ?thesis by (simp add: sold_def)
qed

lemma sold_put_dead:
  assumes "distinct (map o_id os)" and "distinct (map o_order_no os)" and "ord \<in> set os"
    and "live ord" and "\<not> live (ord\<lparr>o_status := s, o_updated := u\<rparr>)"
  shows "sold (put_row o_id (ord\<lparr>o_status := s, o_updated := u\<rparr>) os) is p =
    sold os is p - item_sum (filter (\<lambda>i. oi_order_no i = o_order_no ord) is) p"
proof -
  have alive: "live_no os (o_order_no ord)" using assms(3,4) by (auto simp: live_no_def)
  have "live_no (put_row o_id (ord\<lparr>o_status := s, o_updated := u\<rparr>) os) n =
      (live_no os n \<and> n \<noteq> o_order_no ord)" for n
    using live_no_put_row [OF assms(1-3), of "ord\<lparr>o_status := s, o_updated := u\<rparr>" n] assms(5) by auto
  moreover have "filter (\<lambda>i. live_no os (oi_order_no i) \<and> oi_order_no i = o_order_no ord) is =
      filter (\<lambda>i. oi_order_no i = o_order_no ord) is"
    by (rule filter_cong) (use alive in auto)
  ultimately show ?thesis
    using item_sum_filter_split [of "\<lambda>i. live_no os (oi_order_no i)" "is" p "\<lambda>i. oi_order_no i = o_order_no ord"]
    by (simp add: sold_def)
qed

lemma sold_append_order:
  assumes "\<forall>i\<in>set is. oi_order_no i \<noteq> o_order_no ord"
  shows "sold (os @ [ord]) is p = sold os is p"
proof -
  have "filter (\<lambda>i. live_no (os @ [ord]) (oi_order_no i)) is = filter (\<lambda>i. live_no os (oi_order_no i)) is"
    by (rule filter_cong) (use assms in \<open>auto simp: live_no_append\<close>)
  then show ?thesis by (simp add: sold_def)
qed

lemma sold_append_items:
  assumes "\<forall>i\<in>set js. oi_order_no i = o_order_no ord" and "live ord"
  shows "sold (os @ [ord]) (is @ js) p = sold (os @ [ord]) is p + item_sum js p"
proof -
  have "filter (\<lambda>i. live_no (os @ [ord]) (oi_order_no i)) js = js"
    by (rule filter_True) (use assms in \<open>auto simp: live_no_append\<close>)
  then show ?thesis by (simp add: sold_def)
qed

lemma fresh_order_items:
  "refs_inv t \<Longrightarrow> o_order_no ord \<notin> o_order_no ` set (orders t) \<Longrightarrow>
   \<forall>i\<in>set (order_items t). oi_order_no i \<noteq> o_order_no ord"
  unfolding refs_inv_def by (metis imageI)

lemma keysD:
  assumes "keys_inv t"
  shows "distinct (map a_id (activities t))" "distinct (map p_id (products t))"
    "distinct (map o_id (orders t))" "distinct (map o_order_no (orders t))"
  using assms by (auto simp: keys_inv_def)

lemma ev_activity_level:
  "ev t t' \<Longrightarrow> keys_inv t \<Longrightarrow> refs_inv t \<Longrightarrow> a \<in> a_id ` set (activities t) \<Longrightarrow>
   activity_level t' a = activity_level t a"
proof (induction rule: ev.induct)
  case (ev_place act t ord act')
  then show ?case
    by (simp add: activity_level_parts act_rows_put_row keysD) (simp add: live_def)
next
  case (ev_pay ord t ord' u p)
  then show ?case
    by (simp add: activity_level_parts held_put_status keysD) (simp add: live_def)
next
  case (ev_advance ord t ord' u)
  then show ?case
    by (simp add: activity_level_parts held_put_status keysD) (simp add: live_def)
next
  case (ev_return_activity ord t act act' final ord' u)
  then have "live ord" "\<not> live ord'" by (auto simp: open_live)
  with ev_return_activity show ?case
    by (simp add: activity_level_parts held_put_status act_rows_put_row keysD)
next
  case (ev_return_cart ord t ps' final ord' u)
  then have "0 < a" by (auto simp: refs_inv_def)
  with ev_return_cart show ?case
    by (simp add: activity_level_parts held_put_status keysD)
next
  case (ev_checkout ord t "is" ps' cs uc)
  then have "0 < a" by (auto simp: refs_inv_def)
  with ev_checkout show ?case by (simp add: activity_level_parts)
next
  case (ev_activity_status act t act')
  then show ?case by (simp add: activity_level_parts act_rows_put_row keysD)
qed (auto simp: activity_level_parts held_touch)

lemma ev_product_level:
  "ev t t' \<Longrightarrow> keys_inv t \<Longrightarrow> refs_inv t \<Longrightarrow> p \<in> p_id ` set (products t) \<Longrightarrow>
   product_level t' p = product_level t p"
proof (induction rule: ev.induct)
  case (ev_place act t ord act')
  show ?case using fresh_order_items [OF ev_place.prems(2) ev_place.hyps(7)]
    by (simp add: product_level_parts sold_append_order)
next
  case (ev_checkout ord t "is" ps' cs uc)
  then have "live ord" by (simp add: live_def)
  with ev_checkout show ?case using fresh_order_items [OF ev_checkout.prems(2) ev_checkout.hyps(3)]
    by (simp add: product_level_parts sold_append_order sold_append_items prod_rows_shifted keysD)
next
  case (ev_pay ord t ord' u p')
  then have "live ord" "live ord'" by (auto simp: live_def)
  with ev_pay show ?case by (simp add: product_level_parts sold_put_live keysD)
next
  case (ev_advance ord t ord' u)
  then have "live ord" "live ord'" by (auto simp: live_def)
  with ev_advance show ?case by (simp add: product_level_parts sold_put_live keysD)
next
  case (ev_return_cart ord t ps' final ord' u)
  then have "live ord" "\<not> live ord'" by (auto simp: open_live)
  with ev_return_cart show ?case
    by (simp add: product_level_parts sold_put_dead prod_rows_shifted keysD)
next
  case (ev_return_activity ord t act act' final ord' u)
  then have "live ord" "\<not> live ord'" by (auto simp: open_live)
  moreover have "filter (\<lambda>i. oi_order_no i = o_order_no ord) (order_items t) = []"
  proof (rule ccontr)
    assume "\<not> ?thesis"
    then obtain i where "i \<in> set (order_items t)" "oi_order_no i = o_order_no ord"
      by (auto simp: filter_empty_conv)
    with ev_return_activity.prems(2) obtain x where "x \<in> set (orders t)" "o_order_no x = o_order_no ord" "o_activity x = 0"
      by (auto simp: refs_inv_def)
    with ev_return_activity show False
      by (metis distinct_key_unique keysD(4) less_numeral_extra(3))
  qed
  ultimately show ?case using ev_return_activity
    by (simp add: product_level_parts sold_put_dead keysD item_sum_def)
qed (auto simp: product_level_parts sold_touch)

section \<open>The whole invariant and the status machine\<close>

lemma sum_list_none: "(\<And>x. x \<in> set xs \<Longrightarrow> f x = 0) \<Longrightarrow> sum_list (map f xs) = (0::int)"
  by (induction xs) auto

lemma new_activity_level:
  "refs_inv t \<Longrightarrow> a \<notin> a_id ` set (activities t) \<Longrightarrow> 0 < a \<Longrightarrow> activity_level t a = 0"
  unfolding activity_level_parts act_rows_def held_def refs_inv_def
  by (subst (1 2) sum_list_none) auto

lemma new_product_level:
  assumes "refs_inv t" and "p \<notin> p_id ` set (products t)"
  shows "product_level t p = 0"
proof -
  from assms have "p \<notin> oi_product ` set (filter (\<lambda>i. live_no (orders t) (oi_order_no i)) (order_items t))"
    by (auto simp: refs_inv_def)
  then have "sold (orders t) (order_items t) p = 0" by (simp add: sold_def item_sum_zero)
  moreover have "prod_rows (products t) p = 0"
    unfolding prod_rows_def by (rule sum_list_none) (use assms(2) in auto)
  ultimately show ?thesis by (simp add: product_level_parts)
qed

lemma ev_activity_ids: "ev t t' \<Longrightarrow> a_id ` set (activities t) \<subseteq> a_id ` set (activities t')"
  by (induction rule: ev.induct) (auto simp: ids_put_row simp del: image_subset_iff)

lemma ev_product_ids: "ev t t' \<Longrightarrow> p_id ` set (products t) \<subseteq> p_id ` set (products t')"
  by (induction rule: ev.induct) (auto simp: shifted_key_set)

lemma ev_levels_fit:
  assumes "ev t t'" and "keys_inv t" and "refs_inv t"
    and "\<forall>a\<in>a_id ` set (activities t). in_i64 (activity_level t a)"
  shows "\<forall>a\<in>a_id ` set (activities t'). in_i64 (activity_level t' a)"
proof
  fix a assume a: "a \<in> a_id ` set (activities t')"
  show "in_i64 (activity_level t' a)"
  proof (cases "a \<in> a_id ` set (activities t)")
    case True
    with assms show ?thesis using ev_activity_level [OF assms(1-3) True] by auto
  next
    case False
    from assms(1) a False assms(3) show ?thesis
    proof cases
      case (ev_new_activity r)
      with a False have "a = a_id r" by auto
      with ev_new_activity have "activity_level t' a = activity_level t a + a_stock r"
        by (simp add: activity_level_parts)
      moreover have "activity_level t a = 0"
        by (rule new_activity_level [OF assms(3) False]) (simp add: \<open>a = a_id r\<close> ev_new_activity)
      ultimately show ?thesis using ev_new_activity by simp
    qed (auto simp: ids_put_row)
  qed
qed

lemma ev_product_levels_fit:
  assumes "ev t t'" and "keys_inv t" and "refs_inv t"
    and "\<forall>p\<in>p_id ` set (products t). in_i64 (product_level t p)"
  shows "\<forall>p\<in>p_id ` set (products t'). in_i64 (product_level t' p)"
proof
  fix p assume p: "p \<in> p_id ` set (products t')"
  show "in_i64 (product_level t' p)"
  proof (cases "p \<in> p_id ` set (products t)")
    case True
    with assms show ?thesis using ev_product_level [OF assms(1-3) True] by auto
  next
    case False
    from assms(1) p False assms(3) show ?thesis
    proof cases
      case (ev_new_product r)
      with p False have "p = p_id r" by auto
      with ev_new_product have "product_level t' p = product_level t p + p_stock r"
        by (simp add: product_level_parts)
      moreover have "product_level t p = 0"
        by (rule new_product_level [OF assms(3) False])
      ultimately show ?thesis using ev_new_product by simp
    qed (auto simp: shifted_key_set)
  qed
qed

lemma ev_stock_nonneg:
  assumes "ev t t'" and "keys_inv t" and "refs_inv t"
    and "\<forall>a\<in>set (activities t). 0 \<le> a_stock a" and "\<forall>p\<in>set (products t). 0 \<le> p_stock p"
  shows "(\<forall>a\<in>set (activities t'). 0 \<le> a_stock a) \<and> (\<forall>p\<in>set (products t'). 0 \<le> p_stock p)"
  using assms
proof (cases rule: ev.cases)
  case (ev_return_cart ord ps' final ord' u)
  have "0 \<le> item_sum (filter (\<lambda>i. oi_order_no i = o_order_no ord) (order_items t)) p" for p
    by (rule item_sum_nonneg) (use assms(3) in \<open>auto simp: refs_inv_def\<close>)
  then have "\<forall>p'\<in>set ps'. 0 \<le> p_stock p'"
    using shifted_at [OF ev_return_cart(5)] assms(5) by (metis add_nonneg_nonneg)
  with ev_return_cart assms(4) show ?thesis by simp
next
  case (ev_return_activity ord act act' final ord' u)
  then have "0 \<le> a_stock act'" using assms(4) by simp
  with ev_return_activity assms(4,5) show ?thesis by (auto dest: in_put_row)
qed (auto dest!: in_put_row)

lemma ev_stock: "ev t t' \<Longrightarrow> keys_inv t \<Longrightarrow> refs_inv t \<Longrightarrow> stock_inv t \<Longrightarrow> stock_inv t'"
  using ev_stock_nonneg [of t t'] ev_levels_fit [of t t'] ev_product_levels_fit [of t t']
  by (simp add: stock_inv_def)

lemma ev_ledger: "ev t t' \<Longrightarrow> ledger_inv t \<Longrightarrow> ledger_inv t'"
  using ev_keys ev_refs ev_stock ev_once ev_paid ev_index ev_keyed by (simp add: ledger_inv_def)

lemma evs_ledger: "evs t t' \<Longrightarrow> ledger_inv t \<Longrightarrow> ledger_inv t'"
  by (induction rule: rtranclp_induct) (auto intro: ev_ledger)

section \<open>Orders are of two kinds\<close>

text \<open>The statuses an order may have: the order of a cart is never queued.\<close>

definition status_fits :: "order \<Rightarrow> bool" where
  "status_fits x \<longleftrightarrow> o_status x \<in> {OrderStatusWaitPay, OrderStatusPaid, OrderStatusCancelled, OrderStatusClosed} \<or>
     o_status x = OrderStatusQueued \<and> 0 < o_activity x"

lemma fits_put_status:
  assumes "\<forall>x\<in>set os. status_fits x" and "ord' = ord\<lparr>o_status := st, o_updated := u\<rparr>"
    and "st \<in> {OrderStatusWaitPay, OrderStatusPaid, OrderStatusCancelled, OrderStatusClosed}"
  shows "\<forall>x\<in>set (put_row o_id ord' os). status_fits x"
  using assms by (auto simp: status_fits_def dest!: in_put_row)

lemma ev_fits: "ev t t' \<Longrightarrow> refs_inv t \<Longrightarrow> \<forall>x\<in>set (orders t). status_fits x \<Longrightarrow> \<forall>x\<in>set (orders t'). status_fits x"
proof (induction rule: ev.induct)
  case (ev_place act t ord act')
  then have "0 < o_activity ord" using refs_posD by auto
  with ev_place show ?case by (simp add: status_fits_def)
next
  case (ev_touch t P u)
  then show ?case by (auto simp: status_fits_def)
next
  case (ev_checkout ord t "is" ps' cs uc)
  then show ?case by (simp add: status_fits_def)
next
  case ev_advance
  then show ?case by (simp add: fits_put_status)
next
  case ev_pay
  then show ?case by (simp add: fits_put_status)
next
  case ev_return_activity
  then show ?case by (simp add: fits_put_status)
next
  case ev_return_cart
  then show ?case by (simp add: fits_put_status)
qed simp_all

lemma evs_fits: "evs t t' \<Longrightarrow> ledger_inv t \<Longrightarrow> \<forall>x\<in>set (orders t). status_fits x \<Longrightarrow> \<forall>x\<in>set (orders t'). status_fits x"
proof (induction rule: rtranclp_induct)
  case (step y z)
  then have "refs_inv y" using evs_ledger by (auto simp: ledger_inv_def)
  with step show ?case using ev_fits by blast
qed

lemma evs_activity_level:
  "evs t t' \<Longrightarrow> ledger_inv t \<Longrightarrow> a \<in> a_id ` set (activities t) \<Longrightarrow>
   activity_level t' a = activity_level t a \<and> a \<in> a_id ` set (activities t')"
proof (induction rule: rtranclp_induct)
  case (step y z)
  then have "ledger_inv y" by (blast intro: evs_ledger)
  with step show ?case
    using ev_activity_level [of y z a] ev_activity_ids [of y z] by (auto simp: ledger_inv_def)
qed simp

lemma evs_product_level:
  "evs t t' \<Longrightarrow> ledger_inv t \<Longrightarrow> p \<in> p_id ` set (products t) \<Longrightarrow>
   product_level t' p = product_level t p \<and> p \<in> p_id ` set (products t')"
proof (induction rule: rtranclp_induct)
  case (step y z)
  then have "ledger_inv y" by (blast intro: evs_ledger)
  with step show ?case
    using ev_product_level [of y z p] ev_product_ids [of y z] by (auto simp: ledger_inv_def)
qed simp

text \<open>The status machine of an order: what an event may do to the row with a given key.\<close>

definition status_step :: "string \<Rightarrow> string \<Rightarrow> bool" where
  "status_step s s' \<longleftrightarrow> s' = s \<or>
     s = OrderStatusQueued \<and> s' = OrderStatusWaitPay \<or>
     s = OrderStatusWaitPay \<and> s' = OrderStatusPaid \<or>
     (s = OrderStatusQueued \<or> s = OrderStatusWaitPay) \<and> (s' = OrderStatusCancelled \<or> s' = OrderStatusClosed)"

definition status_path :: "string \<Rightarrow> string \<Rightarrow> bool" where
  "status_path s s' \<longleftrightarrow> s' = s \<or>
     s = OrderStatusQueued \<and> (s' = OrderStatusWaitPay \<or> s' = OrderStatusPaid) \<or>
     s = OrderStatusWaitPay \<and> s' = OrderStatusPaid \<or>
     (s = OrderStatusQueued \<or> s = OrderStatusWaitPay) \<and> (s' = OrderStatusCancelled \<or> s' = OrderStatusClosed)"

definition order_kept :: "order \<Rightarrow> order \<Rightarrow> bool" where
  "order_kept x y \<longleftrightarrow> status_path (o_status x) (o_status y) \<and>
     y = x\<lparr>o_status := o_status y, o_updated := o_updated y\<rparr>"

lemma status_path_refl [simp]: "status_path s s"
  by (simp add: status_path_def)

lemma status_path_trans: "status_path a b \<Longrightarrow> status_path b c \<Longrightarrow> status_path a c"
  by (auto simp: status_path_def)

lemma order_kept_refl [simp]: "order_kept x x"
  by (simp add: order_kept_def)

lemma order_kept_trans: "order_kept x y \<Longrightarrow> order_kept y z \<Longrightarrow> order_kept x z"
proof -
  assume a: "order_kept x y" "order_kept y z"
  then have "z = (x\<lparr>o_status := o_status y, o_updated := o_updated y\<rparr>)\<lparr>o_status := o_status z, o_updated := o_updated z\<rparr>"
    unfolding order_kept_def by metis
  then have "z = x\<lparr>o_status := o_status z, o_updated := o_updated z\<rparr>" by simp
  with a show "order_kept x z" unfolding order_kept_def by (blast intro: status_path_trans)
qed

lemma kept_put_status:
  assumes "distinct (map o_id os)" and "ord \<in> set os" and "status_path (o_status ord) s" and "x \<in> set os"
  shows "\<exists>y\<in>set (put_row o_id (ord\<lparr>o_status := s, o_updated := u\<rparr>) os). order_kept x y"
proof (cases "o_id x = o_id ord")
  case True
  with assms have "x = ord" by (metis distinct_key_unique)
  moreover have "order_kept ord (ord\<lparr>o_status := s, o_updated := u\<rparr>)"
    using assms(3) by (simp add: order_kept_def)
  moreover have "ord\<lparr>o_status := s, o_updated := u\<rparr> \<in> set (put_row o_id (ord\<lparr>o_status := s, o_updated := u\<rparr>) os)"
    using assms(2) by (auto simp: set_put_row)
  ultimately show ?thesis by blast
next
  case False
  with assms(4) have "x \<in> set (put_row o_id (ord\<lparr>o_status := s, o_updated := u\<rparr>) os)"
    by (simp add: set_put_row)
  then show ?thesis by (rule bexI [rotated]) simp
qed

lemma ev_order_kept:
  "ev t t' \<Longrightarrow> keys_inv t \<Longrightarrow> x \<in> set (orders t) \<Longrightarrow> \<exists>y\<in>set (orders t'). order_kept x y"
proof (induction rule: ev.induct)
  case (ev_advance ord t ord' u)
  show ?case using kept_put_status [OF keysD(3) [OF ev_advance.prems(1)] ev_advance.hyps(1) _ ev_advance.prems(2), of OrderStatusWaitPay u]
      ev_advance.hyps by (simp add: status_path_def)
next
  case (ev_pay ord t ord' u p)
  show ?case using kept_put_status [OF keysD(3) [OF ev_pay.prems(1)] ev_pay.hyps(1) _ ev_pay.prems(2), of OrderStatusPaid u]
      ev_pay.hyps by (simp add: status_path_def)
next
  case (ev_return_activity ord t act act' final ord' u)
  show ?case using kept_put_status [OF keysD(3) [OF ev_return_activity.prems(1)] ev_return_activity.hyps(1) _ ev_return_activity.prems(2), of final u]
      ev_return_activity.hyps by (auto simp: status_path_def open_order_def)
next
  case (ev_return_cart ord t ps' final ord' u)
  show ?case using kept_put_status [OF keysD(3) [OF ev_return_cart.prems(1)] ev_return_cart.hyps(1) _ ev_return_cart.prems(2), of final u]
      ev_return_cart.hyps by (auto simp: status_path_def open_order_def)
next
  case (ev_touch t P u)
  then have "(if P x then x\<lparr>o_updated := u\<rparr> else x) \<in> set (map (\<lambda>x. if P x then x\<lparr>o_updated := u\<rparr> else x) (orders t))"
    by auto
  moreover have "order_kept x (if P x then x\<lparr>o_updated := u\<rparr> else x)"
    by (simp add: order_kept_def)
  ultimately show ?case by auto
qed (auto intro: bexI [where x = x])

lemma evs_order_kept:
  "evs t t' \<Longrightarrow> ledger_inv t \<Longrightarrow> x \<in> set (orders t) \<Longrightarrow> \<exists>y\<in>set (orders t'). order_kept x y"
proof (induction rule: rtranclp_induct)
  case (step y z)
  then obtain x' where "x' \<in> set (orders y)" "order_kept x x'" by blast
  moreover from step have "ledger_inv y" by (blast intro: evs_ledger)
  ultimately show ?case using ev_order_kept [OF step.hyps(2)] order_kept_trans
    unfolding ledger_inv_def by metis
qed (auto intro: bexI [where x = x])

lemma ev_payments_kept: "ev t t' \<Longrightarrow> set (payments t) \<subseteq> set (payments t')"
  by (induction rule: ev.induct) auto

lemma evs_payments_kept: "evs t t' \<Longrightarrow> set (payments t) \<subseteq> set (payments t')"
  by (induction rule: rtranclp_induct) (auto dest: ev_payments_kept)

text \<open>Stock is bounded by its level, so returning a unit never leaves the 64-bit range.\<close>

lemma held_nonneg: "0 \<le> held os a"
  unfolding held_def by (induction os) auto

lemma held_open: "ord \<in> set os \<Longrightarrow> live ord \<Longrightarrow> 1 \<le> held os (o_activity ord)"
proof (induction os)
  case (Cons x os)
  then show ?case using held_nonneg [of os "o_activity ord"] by (auto simp: held_def)
qed simp

lemma act_rows_at: "distinct (map a_id xs) \<Longrightarrow> act \<in> set xs \<Longrightarrow> act_rows xs (a_id act) = a_stock act"
proof (induction xs)
  case (Cons x xs)
  have none: "a_id act \<notin> a_id ` set ys \<Longrightarrow> act_rows ys (a_id act) = 0" for ys
    unfolding act_rows_def by (rule sum_list_none) (auto simp: image_iff)
  from Cons show ?case
    using none [of xs] by (auto simp: act_rows_def image_iff)
qed simp

lemma activity_stock_le_level:
  "distinct (map a_id (activities t)) \<Longrightarrow> act \<in> set (activities t) \<Longrightarrow> a_stock act \<le> activity_level t (a_id act)"
  using held_nonneg [of "orders t" "a_id act"] by (simp add: activity_level_parts act_rows_at)

lemma prod_rows_at: "distinct (map p_id xs) \<Longrightarrow> p \<in> set xs \<Longrightarrow> prod_rows xs (p_id p) = p_stock p"
proof (induction xs)
  case (Cons x xs)
  have none: "p_id p \<notin> p_id ` set ys \<Longrightarrow> prod_rows ys (p_id p) = 0" for ys
    unfolding prod_rows_def by (rule sum_list_none) (auto simp: image_iff)
  from Cons show ?case
    using none [of xs] by (auto simp: prod_rows_def image_iff)
qed simp

lemma activity_room:
  assumes "ledger_inv t" and "act \<in> set (activities t)"
  shows "in_i64 (a_stock act)" and "0 < a_stock act \<Longrightarrow> in_i64 (a_stock act - 1)"
    and "ord \<in> set (orders t) \<Longrightarrow> live ord \<Longrightarrow> o_activity ord = a_id act \<Longrightarrow> in_i64 (a_stock act + 1)"
proof -
  have fit: "in_i64 (activity_level t (a_id act))" "0 \<le> a_stock act"
    using assms by (auto simp: ledger_inv_def stock_inv_def)
  have lev: "activity_level t (a_id act) = a_stock act + held (orders t) (a_id act)"
    using assms by (simp add: activity_level_parts act_rows_at ledger_inv_def keys_inv_def)
  show "in_i64 (a_stock act)" using fit held_nonneg [of "orders t" "a_id act"] lev by (simp add: in_i64_def)
  then show "0 < a_stock act \<Longrightarrow> in_i64 (a_stock act - 1)" by (simp add: in_i64_def)
  show "ord \<in> set (orders t) \<Longrightarrow> live ord \<Longrightarrow> o_activity ord = a_id act \<Longrightarrow> in_i64 (a_stock act + 1)"
    using held_open [of ord "orders t"] fit lev by (auto simp: in_i64_def)
qed

lemma product_room:
  assumes "ledger_inv t" and "p \<in> set (products t)"
  shows "in_i64 (p_stock p)"
    and "\<forall>i\<in>set (order_items t). P i \<longrightarrow> live_no (orders t) (oi_order_no i) \<Longrightarrow>
      in_i64 (p_stock p + item_sum (filter P (order_items t)) (p_id p))"
proof -
  have fit: "in_i64 (product_level t (p_id p))" "0 \<le> p_stock p"
    using assms by (auto simp: ledger_inv_def stock_inv_def)
  have lev: "product_level t (p_id p) = p_stock p + sold (orders t) (order_items t) (p_id p)"
    using assms by (simp add: product_level_parts prod_rows_at ledger_inv_def keys_inv_def)
  have pos: "0 \<le> item_sum (filter Q (order_items t)) (p_id p)" for Q
    by (rule item_sum_nonneg) (use assms in \<open>auto simp: ledger_inv_def refs_inv_def\<close>)
  show "in_i64 (p_stock p)" using fit lev pos [of "\<lambda>i. live_no (orders t) (oi_order_no i)"]
    by (simp add: in_i64_def sold_def)
  assume P: "\<forall>i\<in>set (order_items t). P i \<longrightarrow> live_no (orders t) (oi_order_no i)"
  have "filter (\<lambda>i. live_no (orders t) (oi_order_no i) \<and> P i) (order_items t) = filter P (order_items t)"
    by (rule filter_cong) (use P in auto)
  then have "sold (orders t) (order_items t) (p_id p) = item_sum (filter P (order_items t)) (p_id p) +
      item_sum (filter (\<lambda>i. live_no (orders t) (oi_order_no i) \<and> \<not> P i) (order_items t)) (p_id p)"
    using item_sum_filter_split [of "\<lambda>i. live_no (orders t) (oi_order_no i)" "order_items t" "p_id p" P]
    by (simp add: sold_def)
  then show "in_i64 (p_stock p + item_sum (filter P (order_items t)) (p_id p))"
    using fit lev pos [of P] pos [of "\<lambda>i. live_no (orders t) (oi_order_no i) \<and> \<not> P i"]
    by (simp add: in_i64_def)
qed

section \<open>Conservation, row by row\<close>

lemma held_count: "held os a = int (length (filter (\<lambda>x. live x \<and> o_activity x = a) os))"
  unfolding held_def by (induction os) auto

lemma evs_activity_stock:
  assumes evs: "evs t t'" and inv: "ledger_inv t" and act: "act \<in> set (activities t)"
  shows "\<exists>act'\<in>set (activities t'). a_id act' = a_id act \<and> 0 \<le> a_stock act' \<and>
    a_stock act' + int (length (filter (\<lambda>x. live x \<and> o_activity x = a_id act) (orders t'))) =
    a_stock act + int (length (filter (\<lambda>x. live x \<and> o_activity x = a_id act) (orders t)))"
proof -
  from evs_activity_level [OF evs inv, of "a_id act"] act
  have lev: "activity_level t' (a_id act) = activity_level t (a_id act)" and "a_id act \<in> a_id ` set (activities t')" by auto
  then obtain act' where act': "act' \<in> set (activities t')" "a_id act' = a_id act" by auto
  note inv' = evs_ledger [OF evs inv]
  from inv' act' have "0 \<le> a_stock act'" by (auto simp: ledger_inv_def stock_inv_def)
  moreover have "act_rows (activities t') (a_id act) = a_stock act'"
    using act_rows_at [OF keysD(1) act'(1)] inv' act'(2) by (simp add: ledger_inv_def)
  moreover have "act_rows (activities t) (a_id act) = a_stock act"
    using act_rows_at [OF keysD(1) act] inv by (simp add: ledger_inv_def)
  ultimately show ?thesis using lev act' by (auto simp: activity_level_parts held_count)
qed

lemma evs_product_stock:
  assumes evs: "evs t t'" and inv: "ledger_inv t" and p: "p \<in> set (products t)"
  shows "\<exists>p'\<in>set (products t'). p_id p' = p_id p \<and> 0 \<le> p_stock p' \<and>
    p_stock p' + sold (orders t') (order_items t') (p_id p) = p_stock p + sold (orders t) (order_items t) (p_id p)"
proof -
  from evs_product_level [OF evs inv, of "p_id p"] p
  have lev: "product_level t' (p_id p) = product_level t (p_id p)" and "p_id p \<in> p_id ` set (products t')" by auto
  then obtain p' where p': "p' \<in> set (products t')" "p_id p' = p_id p" by auto
  note inv' = evs_ledger [OF evs inv]
  from inv' p' have "0 \<le> p_stock p'" by (auto simp: ledger_inv_def stock_inv_def)
  moreover have "prod_rows (products t') (p_id p) = p_stock p'"
    using prod_rows_at [OF keysD(2) p'(1)] inv' p'(2) by (simp add: ledger_inv_def)
  moreover have "prod_rows (products t) (p_id p) = p_stock p"
    using prod_rows_at [OF keysD(2) p] inv by (simp add: ledger_inv_def)
  ultimately show ?thesis using lev p' by (auto simp: product_level_parts)
qed

end
