(* ===== verification/Effects.thy ===== *)
theory Effects
  imports OrderLife Catalog Invariants
begin

text \<open>
  The bodies of the transactions against the specification: a body that reaches its commit has
  performed exactly one event of \<^theory_text>\<open>Ledger\<close> (or nothing).  The file first states what each write
  statement leaves behind, then treats placing an order on both paths, returning stock, payments,
  processing, activities and the checkout of a cart.
\<close>

section \<open>What a successful write leaves\<close>

lemma save_activity_run:
  "save_activity a w = (Inr r, w') \<Longrightarrow> \<exists>u. r = a\<lparr>a_updated := u\<rparr> \<and> ext w' = ext w \<and>
     tables w' = (tables w)\<lparr>activities := save_row a_id r (activities (tables w))\<rparr>"
  by (auto simp: save_activity_def stmt_ok Let_def)

lemma save_product_run:
  "save_product p w = (Inr r, w') \<Longrightarrow> \<exists>u. r = p\<lparr>p_updated := u\<rparr> \<and> ext w' = ext w \<and>
     tables w' = (tables w)\<lparr>products := save_row p_id r (products (tables w))\<rparr>"
  by (auto simp: save_product_def stmt_ok Let_def)

lemma save_order_run:
  "save_order ord w = (Inr r, w') \<Longrightarrow> \<exists>u. r = ord\<lparr>o_updated := u\<rparr> \<and> ext w' = ext w \<and>
     tables w' = (tables w)\<lparr>orders := save_row o_id r (orders (tables w))\<rparr>"
  by (auto simp: save_order_def stmt_ok Let_def split: option.splits)

lemma save_user_coupon_run:
  "save_user_coupon c w = (Inr r, w') \<Longrightarrow> ext w' = ext w \<and>
     (\<exists>cs. tables w' = (tables w)\<lparr>user_coupons := cs\<rparr>)"
  by (auto simp: save_user_coupon_def stmt_ok Let_def split: option.splits)

lemma order_conflict_fresh:
  assumes "order_conflict rs r = None" and "o_id r \<notin> o_id ` set rs"
  shows "o_order_no r \<notin> o_order_no ` set rs"
proof
  assume "o_order_no r \<in> o_order_no ` set rs"
  then obtain x where "x \<in> set rs" "o_order_no x = o_order_no r" by (metis imageE)
  moreover from this(1) assms(2) have "o_id x \<noteq> o_id r" by (metis imageI)
  ultimately show False using assms(1) by (auto simp: order_conflict_def split: if_splits)
qed

lemma order_conflict_key:
  assumes "order_conflict rs r = None" and "o_id r \<notin> o_id ` set rs"
  shows "o_key r = None \<or> o_key r \<notin> o_key ` set rs"
proof (rule ccontr)
  assume "\<not> ?thesis"
  then obtain x where "x \<in> set rs" "o_key x = o_key r" "o_key r \<noteq> None" by (metis imageE)
  moreover from this(1) assms(2) have "o_id x \<noteq> o_id r" by (metis imageI)
  ultimately show False using assms(1) by (auto simp: order_conflict_def split: if_splits)
qed

lemma payment_conflict_fresh:
  assumes "payment_conflict rs r = None" and "pm_id r \<notin> pm_id ` set rs"
  shows "pm_transaction r \<notin> pm_transaction ` set rs"
proof
  assume "pm_transaction r \<in> pm_transaction ` set rs"
  then obtain x where "x \<in> set rs" "pm_transaction x = pm_transaction r" by (metis imageE)
  moreover from this(1) assms(2) have "pm_id x \<noteq> pm_id r" by (metis imageI)
  ultimately show False using assms(1) by (auto simp: payment_conflict_def split: if_splits)
qed

lemma create_order_run:
  assumes "create_order ord w = (Inr r, w')"
  shows "(\<exists>i u. r = ord\<lparr>o_id := i, o_created := u, o_updated := u\<rparr>) \<and> ext w' = ext w \<and>
     o_id r \<notin> o_id ` set (orders (tables w)) \<and> o_order_no r \<notin> o_order_no ` set (orders (tables w)) \<and>
     (o_key r = None \<or> o_key r \<notin> o_key ` set (orders (tables w))) \<and>
     tables w' = (tables w)\<lparr>orders := orders (tables w) @ [r]\<rparr>"
proof -
  from assms have r: "r = ord\<lparr>o_id := next_id o_id (id_gap (ext w) (tick w)) (orders (tables w)),
      o_created := clock (ext w) (tick w), o_updated := clock (ext w) (tick w)\<rparr>"
    and c: "order_conflict (orders (tables w)) r = None"
    and t: "tables w' = (tables w)\<lparr>orders := orders (tables w) @ [r]\<rparr>" "ext w' = ext w"
    by (auto simp: create_order_def stmt_ok Let_def split: option.splits)
  have fresh: "o_id r \<notin> o_id ` set (orders (tables w))"
    using next_id_not_in [of o_id "id_gap (ext w) (tick w)" "orders (tables w)"] by (simp add: r)
  with c have "o_order_no r \<notin> o_order_no ` set (orders (tables w))"
    by (rule order_conflict_fresh)
  with fresh r t order_conflict_key [OF c fresh] show ?thesis by blast
qed

lemma create_payment_run:
  assumes "create_payment p w = (Inr r, w')"
  shows "(\<exists>i u. r = p\<lparr>pm_id := i, pm_created := u, pm_updated := u\<rparr>) \<and> ext w' = ext w \<and>
     pm_transaction r \<notin> pm_transaction ` set (payments (tables w)) \<and>
     tables w' = (tables w)\<lparr>payments := payments (tables w) @ [r]\<rparr>"
proof -
  from assms have r: "r = p\<lparr>pm_id := next_id pm_id (id_gap (ext w) (tick w)) (payments (tables w)),
      pm_created := clock (ext w) (tick w), pm_updated := clock (ext w) (tick w)\<rparr>"
    and c: "payment_conflict (payments (tables w)) r = None"
    and t: "tables w' = (tables w)\<lparr>payments := payments (tables w) @ [r]\<rparr>" "ext w' = ext w"
    by (auto simp: create_payment_def stmt_ok Let_def split: option.splits)
  have "pm_id r \<notin> pm_id ` set (payments (tables w))"
    using next_id_not_in [of pm_id "id_gap (ext w) (tick w)" "payments (tables w)"] by (simp add: r)
  with c have "pm_transaction r \<notin> pm_transaction ` set (payments (tables w))"
    by (rule payment_conflict_fresh)
  with r t show ?thesis by blast
qed

lemma create_order_item_run:
  "create_order_item i w = (Inr r, w') \<Longrightarrow> ext w' = ext w \<and>
     (\<exists>k u. r = i\<lparr>oi_id := k, oi_created := u, oi_updated := u\<rparr>) \<and>
     tables w' = (tables w)\<lparr>order_items := order_items (tables w) @ [r]\<rparr>"
  by (auto simp: create_order_item_def stmt_ok Let_def)

lemma delete_cart_items_run:
  "delete_cart_items P w = (Inr r, w') \<Longrightarrow>
     \<exists>cs. tables w' = (tables w)\<lparr>cart_items := cs\<rparr>"
  by (auto simp: delete_cart_items_def stmt_ok Let_def)

lemma case_sum_throw [run_simps]:
  "(case r of Inl a \<Rightarrow> throw (f a) | Inr b \<Rightarrow> throw (g b)) = throw (case r of Inl a \<Rightarrow> f a | Inr b \<Rightarrow> g b)"
  by (cases r) auto

lemma ensureE_ok [run_simps]: "ensureE r w = (Inr x, w') \<longleftrightarrow> r = None \<and> w' = w"
  by (auto simp: ensureE_def ret_def throw_def split: option.splits)

lemma randomText_run: "randomText n w = (r, w') \<Longrightarrow> tables w' = tables w \<and> ext w' = ext w"
  by (auto simp: randomText_def)

lemma newOrderNo_run: "newOrderNo w = (r, w') \<Longrightarrow> tables w' = tables w \<and> ext w' = ext w"
  by (auto simp: newOrderNo_def bindE_def time_now_def split: prod.splits sum.splits dest: randomText_run)

lemma create_activity_order_run:
  "create_activity_order ord w = (Inr r, w') \<Longrightarrow> create_order ord w = (Inr r, w')"
  by (auto simp: create_activity_order_def on_error_ok throw_def)

section \<open>Orders of an activity\<close>

text \<open>Both paths end in the same event: one unit taken, one queued order added.\<close>

lemma place_event:
  assumes inv: "ledger_inv t" and act: "act \<in> set (activities t)" "0 < a_stock act"
    and none: "\<forall>r\<in>set (orders t). \<not> (o_user r = o_user ord \<and> o_activity r = a_id act)"
    and act': "a_id act' = a_id act" "a_stock act' = a_stock act - 1"
    and ord: "o_activity ord = a_id act" "o_status ord = OrderStatusQueued"
      "o_id ord \<notin> o_id ` set (orders t)" "o_order_no ord \<notin> o_order_no ` set (orders t)"
      "o_key ord = None \<or> o_key ord \<notin> o_key ` set (orders t)"
      "o_key ord = NewActivityOrderKey (o_user ord) (o_activity ord)"
    and t': "t' = t\<lparr>activities := put_row a_id act' (activities t), orders := orders t @ [ord]\<rparr>"
  shows "ev t t'"
  unfolding t' by (rule ev_place [OF act(1) ord(1) act(2) act' _ ord(4,3,2,5,6)]) (use none ord in simp)

lemma db_order_effect:
  assumes run: "db_order_body userID input w = (Inr (ord, left), w')" and inv: "ledger_inv (tables w)"
  obtains act u where "act \<in> set (activities (tables w))" "a_id act = co_activity input" "0 < a_stock act"
    "ensureActivityOrderable act (clock (ext w) (Suc (tick w))) = None"
    "left = a_stock act - 1"
    "\<forall>r\<in>set (orders (tables w)). \<not> (o_user r = userID \<and> o_activity r = a_id act)"
    "ord = (new_activity_order (o_order_no ord) (co_request_id input) userID act)
       \<lparr>o_id := o_id ord, o_created := o_created ord, o_updated := o_updated ord\<rparr>"
    "o_id ord \<notin> o_id ` set (orders (tables w))" "o_order_no ord \<notin> o_order_no ` set (orders (tables w))"
    "o_key ord = None \<or> o_key ord \<notin> o_key ` set (orders (tables w))"
    "tables w' = (tables w)\<lparr>activities := put_row a_id (act\<lparr>a_stock := a_stock act - 1, a_updated := u\<rparr>) (activities (tables w)),
       orders := orders (tables w) @ [ord]\<rparr>"
proof -
  from run obtain act w2 act' no w4 where
    act: "find (\<lambda>a. a_id a = co_activity input) (activities (tables w)) = Some act"
    and ens: "ensureActivityOrderable act (clock (ext w) (Suc (tick w))) = None"
    and pos: "0 < a_stock act"
    and none: "\<forall>r\<in>set (orders (tables w)). \<not> (o_user r = userID \<and> o_activity r = co_activity input)"
    and save: "save_activity (act\<lparr>a_stock := wrap64 (a_stock act - 1)\<rparr>) (w\<lparr>tick := Suc (Suc (Suc (tick w)))\<rparr>) = (Inr act', w2)"
    and no: "newOrderNo w2 = (Inr no, w4)"
    and create: "create_activity_order (new_activity_order no (co_request_id input) userID act') w4 = (Inr ord, w')"
    and left: "left = a_stock act'"
    by (auto simp: db_order_body_def run_simps filter_empty_conv)
  from find_SomeD [OF act] have in_act: "act \<in> set (activities (tables w))" "a_id act = co_activity input"
    by auto
  have dec: "wrap64 (a_stock act - 1) = a_stock act - 1"
    using activity_room(2) [OF inv in_act(1) pos] by simp
  from save_activity_run [OF save] obtain u where
    act': "act' = act\<lparr>a_stock := a_stock act - 1, a_updated := u\<rparr>" and
    t2: "tables w2 = (tables w)\<lparr>activities := put_row a_id act' (activities (tables w))\<rparr>"
    using in_act by (auto simp: dec save_row_in)
  note made = create_order_run [OF create_activity_order_run [OF create]] newOrderNo_run [OF no]
  have row: "ord = (new_activity_order (o_order_no ord) (co_request_id input) userID act)
       \<lparr>o_id := o_id ord, o_created := o_created ord, o_updated := o_updated ord\<rparr>"
    using made by (auto simp: new_activity_order_def act')
  show thesis
    by (rule that [OF in_act pos ens _ _ row, of u]) (use made t2 none in_act left in \<open>auto simp: act'\<close>)
qed

lemma db_order_places:
  assumes run: "db_order_body userID input w = (Inr x, w')" and inv: "ledger_inv (tables w)"
  shows "ev (tables w) (tables w')"
proof (cases x)
  case (Pair ord left)
  from run [unfolded Pair] inv show ?thesis
  proof (rule db_order_effect, goal_cases)
    case (1 act u)
    then have "o_activity ord = a_id act" "o_user ord = userID" "o_status ord = OrderStatusQueued"
      "o_key ord = NewActivityOrderKey userID (a_id act)"
      by (metis new_activity_order_def order.select_convs(4,6,7,13) order.update_convs(1,14,15) order.surjective)+
    with 1 show ?case by (intro place_event [OF inv 1(1,3)]) auto
  qed
qed

lemma decrement_one:
  assumes "distinct (map a_id acts)" and "a \<in> set acts" and "stock_row_hit i now a"
  shows "map (\<lambda>x. if stock_row_hit i now x then x\<lparr>a_stock := a_stock x - 1\<rparr> else x) acts =
    put_row a_id (a\<lparr>a_stock := a_stock a - 1\<rparr>) acts"
proof -
  have "stock_row_hit i now x \<longleftrightarrow> x = a" "a_id x = a_id a \<longleftrightarrow> x = a" if "x \<in> set acts" for x
    using that assms distinct_key_unique [OF assms(1) that assms(2)] by (auto simp: stock_row_hit_def)
  then show ?thesis by (simp add: put_row_def)
qed

lemma redis_order_effect:
  assumes run: "redis_order_body userID input act w = (Inr ord, w')" and inv: "ledger_inv (tables w)"
    and id: "a_id act = co_activity input"
  obtains a where "a \<in> set (activities (tables w))" "a_id a = co_activity input" "0 < a_stock a"
    "stock_row_hit (co_activity input) (clock (ext w) (Suc (tick w))) a"
    "\<forall>r\<in>set (orders (tables w)). \<not> (o_user r = userID \<and> o_activity r = a_id act)"
    "ord = (new_activity_order (o_order_no ord) (co_request_id input) userID act)
       \<lparr>o_id := o_id ord, o_created := o_created ord, o_updated := o_updated ord\<rparr>"
    "o_id ord \<notin> o_id ` set (orders (tables w))" "o_order_no ord \<notin> o_order_no ` set (orders (tables w))"
    "o_key ord = None \<or> o_key ord \<notin> o_key ` set (orders (tables w))"
    "tables w' = (tables w)\<lparr>activities := put_row a_id (a\<lparr>a_stock := a_stock a - 1\<rparr>) (activities (tables w)),
       orders := orders (tables w) @ [ord]\<rparr>"
proof -
  from run obtain w2 rows no w4 where
    none: "\<forall>r\<in>set (orders (tables w)). \<not> (o_user r = userID \<and> o_activity r = co_activity input)"
    and dec: "decrement_stock (co_activity input) (clock (ext w) (Suc (tick w))) (w\<lparr>tick := Suc (Suc (tick w))\<rparr>) = (Inr rows, w2)"
    and rows: "rows \<noteq> 0"
    and no: "newOrderNo w2 = (Inr no, w4)"
    and create: "create_activity_order (new_activity_order no (co_request_id input) userID act) w4 = (Inr ord, w')"
    by (auto simp: redis_order_body_def run_simps filter_empty_conv split: if_splits)
  let ?now = "clock (ext w) (Suc (tick w))"
  from dec rows obtain a where a: "a \<in> set (activities (tables w))" "stock_row_hit (co_activity input) ?now a"
    by (auto simp: decrement_stock_def stmt_ok filter_empty_conv)
  have "distinct (map a_id (activities (tables w)))" using inv by (simp add: ledger_inv_def keys_inv_def)
  from decrement_one [OF this a] dec have
    t2: "tables w2 = (tables w)\<lparr>activities := put_row a_id (a\<lparr>a_stock := a_stock a - 1\<rparr>) (activities (tables w))\<rparr>"
    by (auto simp: decrement_stock_def stmt_ok)
  from a have a': "a_id a = co_activity input" "0 < a_stock a" by (auto simp: stock_row_hit_def)
  note made = create_order_run [OF create_activity_order_run [OF create]] newOrderNo_run [OF no]
  have row: "ord = (new_activity_order (o_order_no ord) (co_request_id input) userID act)
       \<lparr>o_id := o_id ord, o_created := o_created ord, o_updated := o_updated ord\<rparr>"
    using made by (auto simp: new_activity_order_def)
  show thesis
    by (rule that [OF a(1) a' a(2) _ row]) (use made t2 none id in auto)
qed

lemma redis_order_places:
  assumes run: "redis_order_body userID input act w = (Inr ord, w')" and inv: "ledger_inv (tables w)"
    and id: "a_id act = co_activity input"
  shows "ev (tables w) (tables w')"
  using run inv id
proof (rule redis_order_effect, goal_cases)
  case (1 a)
  then have "o_activity ord = a_id act" "o_user ord = userID" "o_status ord = OrderStatusQueued"
    "o_key ord = NewActivityOrderKey userID (a_id act)"
    by (metis new_activity_order_def order.select_convs(4,6,7,13) order.update_convs(1,14,15) order.surjective)+
  with 1 id show ?case by (intro place_event [OF inv 1(1,3)]) auto
qed

section \<open>Calls that leave the tables alone\<close>

lemma cache_Release_reads: "reads_only (cache_Release a u)"
  unfolding cache_Release_def by (intro same_tables.tracks_bindE same_tables.tracks_basic)

lemma cache_Reserve_reads: "reads_only (cache_Reserve a u)"
  unfolding cache_Reserve_def
  by (intro same_tables.tracks_bindE same_tables.tracks_basic)
     (auto split: sum.splits intro: same_tables.tracks_basic)

lemma cache_SetStock_reads: "reads_only (cache_SetStock a n e)"
  unfolding cache_SetStock_def by (intro same_tables.tracks_bindE same_tables.tracks_basic)

lemma cache_GetStock_reads: "reads_only (cache_GetStock a)"
  unfolding cache_GetStock_def by (rule same_tables.tracks_redis)

lemma rabbit_Publish_reads: "reads_only (rabbit_Publish no)"
  unfolding rabbit_Publish_def rabbit_PublishRetry_def
  by (auto split: sum.splits intro: same_tables.tracks_basic)

lemmas cache_reads = cache_Release_reads cache_Reserve_reads cache_SetStock_reads cache_GetStock_reads
  rabbit_Publish_reads

section \<open>Returning the items of a cart order\<close>

lemma shifted_put_row:
  assumes "distinct (map p_id ps)" and "p \<in> set ps"
  shows "shifted (\<lambda>k. if k = p_id p then q else 0) ps (put_row p_id (p\<lparr>p_stock := p_stock p + q, p_updated := u\<rparr>) ps)"
proof -
  have "moved (\<lambda>k. if k = p_id p then q else 0) x
      (if p_id x = p_id p then p\<lparr>p_stock := p_stock p + q, p_updated := u\<rparr> else x)" if "x \<in> set ps" for x
    using that assms distinct_key_unique [OF assms(1) that assms(2)] by (auto simp: moved_def)
  then show ?thesis
    unfolding shifted_def put_row_def list_all2_map2 by (intro list.rel_refl_strong) simp
qed

lemma shifted_trans: "shifted d ps ps1 \<Longrightarrow> shifted e ps1 ps2 \<Longrightarrow> shifted (\<lambda>k. d k + e k) ps ps2"
  unfolding shifted_def
  by (rule list_all2_trans [of "moved d" "moved e"]) (auto simp: moved_def)

lemma shifted_refl: "shifted (\<lambda>_. 0) ps ps"
  unfolding shifted_def by (rule list_all2_refl) (simp add: moved_def)

lemma shifted_cong: "(\<And>k. d k = e k) \<Longrightarrow> shifted d ps ps' \<Longrightarrow> shifted e ps ps'"
  by presburger

lemma item_sum_Cons: "item_sum (i # is) p = (if p = oi_product i then oi_quantity i else 0) + item_sum is p"
  by (simp add: item_sum_def)

lemma restore_items_run:
  assumes "restore_items is w = (Inr r, w')" and "distinct (map p_id (products (tables w)))"
    and "\<forall>i\<in>set is. 0 < oi_quantity i"
    and "\<forall>p\<in>set (products (tables w)). 0 \<le> p_stock p \<and> in_i64 (p_stock p + item_sum is (p_id p))"
  shows "\<exists>ps'. tables w' = (tables w)\<lparr>products := ps'\<rparr> \<and> shifted (item_sum is) (products (tables w)) ps'"
  using assms
proof (induction "is" arbitrary: w)
  case Nil
  have "shifted (item_sum []) (products (tables w)) (products (tables w))"
    by (rule shifted_cong [OF _ shifted_refl]) (simp add: item_sum_def)
  with Nil show ?case by (auto simp: run_simps intro!: exI [of _ "products (tables w)"])
next
  case (Cons i js)
  from Cons.prems(1) obtain p p' w2 where
    p: "find (\<lambda>x. p_id x = oi_product i) (products (tables w)) = Some p"
    and save: "save_product (p\<lparr>p_stock := wrap64 (p_stock p + oi_quantity i)\<rparr>) (w\<lparr>tick := Suc (tick w)\<rparr>) = (Inr p', w2)"
    and rest: "restore_items js w2 = (Inr r, w')"
    by (auto simp: run_simps)
  from find_SomeD [OF p] have in_p: "p \<in> set (products (tables w))" "p_id p = oi_product i" by auto
  have pos: "0 \<le> item_sum js k" for k using Cons.prems(3) by (intro item_sum_nonneg) auto
  have "in_i64 (p_stock p + oi_quantity i + item_sum js (p_id p))" "0 \<le> p_stock p" "0 < oi_quantity i"
    using Cons.prems(3,4) in_p by (auto simp: item_sum_Cons add.assoc)
  then have fit: "wrap64 (p_stock p + oi_quantity i) = p_stock p + oi_quantity i"
    using pos [of "p_id p"] by (intro wrap64_id) (simp add: in_i64_def)
  from save_product_run [OF save] obtain u where
    p': "p' = p\<lparr>p_stock := p_stock p + oi_quantity i, p_updated := u\<rparr>" and
    t2: "tables w2 = (tables w)\<lparr>products := put_row p_id p' (products (tables w))\<rparr>"
    using in_p by (auto simp: fit save_row_in)
  let ?d = "\<lambda>k. if k = oi_product i then oi_quantity i else 0"
  have one: "shifted ?d (products (tables w)) (products (tables w2))"
    using shifted_put_row [OF Cons.prems(2) in_p(1), of "oi_quantity i" u] in_p(2) by (simp add: t2 p')
  have "\<forall>x\<in>set (products (tables w2)). 0 \<le> p_stock x \<and> in_i64 (p_stock x + item_sum js (p_id x))"
  proof
    fix x assume "x \<in> set (products (tables w2))"
    from shifted_at [OF one this] obtain y where y: "y \<in> set (products (tables w))" "p_id x = p_id y"
      "p_stock x = p_stock y + ?d (p_id y)" by blast
    with Cons.prems(3,4) show "0 \<le> p_stock x \<and> in_i64 (p_stock x + item_sum js (p_id x))"
      by (auto simp: item_sum_Cons add.assoc)
  qed
  with Cons.IH [OF rest] Cons.prems(2,3) obtain ps' where
    t': "tables w' = (tables w2)\<lparr>products := ps'\<rparr>" and two: "shifted (item_sum js) (products (tables w2)) ps'"
    by (auto simp: t2)
  from shifted_trans [OF one two] have "shifted (item_sum (i # js)) (products (tables w)) ps'"
    by (rule shifted_cong [rotated]) (simp add: item_sum_Cons)
  then show ?case by (auto simp: t' t2)
qed

section \<open>Cancelling and closing\<close>

lemma sum_all_live:
  "ord \<in> set (orders t) \<Longrightarrow> live ord \<Longrightarrow>
   \<forall>i\<in>set (order_items t). oi_order_no i = o_order_no ord \<longrightarrow> live_no (orders t) (oi_order_no i)"
  by (auto simp: live_no_def)

text \<open>Returning the stock and then writing a final status is one return event.\<close>

lemma return_effect:
  assumes run: "restoreStock s ord w = (Inr r, w1)" and save: "save_order (ord\<lparr>o_status := final\<rparr>) w1 = (Inr ord', w')"
    and inv: "ledger_inv (tables w)" and ord: "ord \<in> set (orders (tables w))" "open_order ord"
  obtains (activity) u act v where "ord' = ord\<lparr>o_status := final, o_updated := u\<rparr>" "0 < o_activity ord"
      "act \<in> set (activities (tables w))" "a_id act = o_activity ord"
      "tables w' = (tables w)\<lparr>activities := put_row a_id (act\<lparr>a_stock := a_stock act + 1, a_updated := v\<rparr>) (activities (tables w)),
         orders := put_row o_id ord' (orders (tables w))\<rparr>"
  | (cart) u ps' where "ord' = ord\<lparr>o_status := final, o_updated := u\<rparr>" "o_activity ord = 0"
      "shifted (item_sum (filter (\<lambda>i. oi_order_no i = o_order_no ord) (order_items (tables w)))) (products (tables w)) ps'"
      "tables w' = (tables w)\<lparr>products := ps', orders := put_row o_id ord' (orders (tables w))\<rparr>"
proof -
  let ?t = "tables w"
  from save_order_run [OF save] obtain u where
    ord': "ord' = ord\<lparr>o_status := final, o_updated := u\<rparr>" and
    t': "tables w' = (tables w1)\<lparr>orders := save_row o_id ord' (orders (tables w1))\<rparr>" by auto
  show thesis
  proof (cases "0 < o_activity ord")
    case True
    with run obtain act act' w2 where
      act: "find (\<lambda>a. a_id a = o_activity ord) (activities ?t) = Some act"
      and sv: "save_activity (act\<lparr>a_stock := wrap64 (a_stock act + 1)\<rparr>) (w\<lparr>tick := Suc (tick w)\<rparr>) = (Inr act', w2)"
      and rel: "(if os_cache s then cache_Release (o_activity ord) (o_user ord) else ret ()) w2 = (Inr r, w1)"
      by (auto simp: restoreStock_def run_simps)
    from find_SomeD [OF act] have in_act: "act \<in> set (activities ?t)" "a_id act = o_activity ord" by auto
    have "tables w1 = tables w2"
      using rel by (auto split: if_splits simp: run_simps dest: reads_onlyD [OF cache_Release_reads])
    moreover have "wrap64 (a_stock act + 1) = a_stock act + 1"
      using activity_room(3) [OF inv in_act(1) ord(1) open_live [OF ord(2)]] in_act(2) by simp
    ultimately obtain v where act': "act' = act\<lparr>a_stock := a_stock act + 1, a_updated := v\<rparr>"
      and t1: "tables w1 = ?t\<lparr>activities := put_row a_id act' (activities ?t)\<rparr>"
      using save_activity_run [OF sv] in_act by (auto simp: save_row_in)
    have "tables w' = ?t\<lparr>activities := put_row a_id act' (activities ?t), orders := put_row o_id ord' (orders ?t)\<rparr>"
      using ord(1) by (simp add: t' t1 ord' save_row_in)
    then show thesis by (intro activity [OF ord' True in_act, of v]) (simp add: act')
  next
    case False
    let ?is = "filter (\<lambda>i. oi_order_no i = o_order_no ord) (order_items ?t)"
    from run False have loop: "restore_items ?is (w\<lparr>tick := Suc (tick w)\<rparr>) = (Inr r, w1)"
      by (auto simp: restoreStock_def run_simps)
    have "\<forall>p\<in>set (products ?t). 0 \<le> p_stock p \<and> in_i64 (p_stock p + item_sum ?is (p_id p))"
      using inv product_room(2) [OF inv _ sum_all_live [OF ord(1) open_live [OF ord(2)]]]
      by (auto simp: ledger_inv_def stock_inv_def)
    with inv restore_items_run [OF loop] obtain ps' where
      t1: "tables w1 = ?t\<lparr>products := ps'\<rparr>" and sh: "shifted (item_sum ?is) (products ?t) ps'"
      by (auto simp: ledger_inv_def keys_inv_def refs_inv_def)
    have "tables w' = ?t\<lparr>products := ps', orders := put_row o_id ord' (orders ?t)\<rparr>"
      using ord(1) by (simp add: t' t1 ord' save_row_in)
    with sh False ord' show thesis by (intro cart) simp_all
  qed
qed

lemma return_event:
  assumes run: "restoreStock s ord w = (Inr r, w1)" and save: "save_order (ord\<lparr>o_status := final\<rparr>) w1 = (Inr ord', w')"
    and inv: "ledger_inv (tables w)" and ord: "ord \<in> set (orders (tables w))" "open_order ord"
    and final: "final = OrderStatusCancelled \<or> final = OrderStatusClosed"
  shows "ev (tables w) (tables w') \<and> o_status ord' = final"
  using run save inv ord
proof (cases rule: return_effect)
  case (activity u act v)
  have "ev (tables w) (tables w')" unfolding activity(5)
    by (rule ev_return_activity [OF ord activity(2-4) _ _ final activity(1)]) simp_all
  then show ?thesis by (simp add: activity(1))
next
  case (cart u ps')
  have "ev (tables w) (tables w')" unfolding cart(4)
    by (rule ev_return_cart [OF ord cart(2,3) final cart(1)])
  then show ?thesis by (simp add: cart(1))
qed

lemma cancellable_open: "cancellable ord \<longleftrightarrow> open_order ord"
  by (simp add: cancellable_def open_order_def)

lemma cancel_returns:
  assumes run: "cancel_body s userID orderNo w = (Inr x, w')" and inv: "ledger_inv (tables w)"
  shows "ev (tables w) (tables w') \<and> cr_status x = OrderStatusCancelled"
proof -
  from run obtain ord w1 ord' u where
    ord: "find (\<lambda>r. o_user r = userID \<and> o_order_no r = orderNo) (orders (tables w)) = Some ord" "cancellable ord"
    and r: "restoreStock s ord (w\<lparr>tick := Suc (tick w)\<rparr>) = (Inr u, w1)"
    and sv: "save_order (ord\<lparr>o_status := OrderStatusCancelled\<rparr>) w1 = (Inr ord', w')"
    and x: "cr_status x = o_status ord'"
    by (auto simp: cancel_body_def run_simps)
  from return_event [OF r sv] find_SomeD [OF ord(1)] ord(2) inv x show ?thesis
    by (auto simp: cancellable_open)
qed

lemma expire_returns:
  assumes run: "expire_body s orderNo w = (Inr x, w')" and inv: "ledger_inv (tables w)"
  shows "tables w' = tables w \<or> ev (tables w) (tables w')"
proof -
  from run obtain ord where ord: "find (\<lambda>r. o_order_no r = orderNo) (orders (tables w)) = Some ord"
    and rest: "\<not> cancellable ord \<and> tables w' = tables w \<or> cancellable ord \<and>
      (\<exists>u w1 ord'. restoreStock s ord (w\<lparr>tick := Suc (tick w)\<rparr>) = (Inr u, w1) \<and>
         save_order (ord\<lparr>o_status := OrderStatusClosed\<rparr>) w1 = (Inr ord', w'))"
    by (auto simp: expire_body_def run_simps split: if_splits)
  from rest show ?thesis
  proof (elim disjE conjE exE)
    fix u w1 ord'
    assume "cancellable ord" and r: "restoreStock s ord (w\<lparr>tick := Suc (tick w)\<rparr>) = (Inr u, w1)"
      and sv: "save_order (ord\<lparr>o_status := OrderStatusClosed\<rparr>) w1 = (Inr ord', w')"
    with return_event [OF r sv] find_SomeD [OF ord] inv show ?thesis by (auto simp: cancellable_open)
  qed simp
qed

lemma close_returns:
  assumes run: "close_body s orderNo w = (Inr x, w')" and inv: "ledger_inv (tables w)"
  shows "tables w' = tables w \<and> \<not> x \<or> ev (tables w) (tables w') \<and> x"
proof -
  from run obtain ord where ord: "find (\<lambda>r. o_order_no r = orderNo) (orders (tables w)) = Some ord"
    and rest: "\<not> x \<and> tables w' = tables w \<or> x \<and> o_status ord = OrderStatusWaitPay \<and>
      (\<exists>u w1 ord'. restoreStock s ord (w\<lparr>tick := Suc (tick w)\<rparr>) = (Inr u, w1) \<and>
         save_order (ord\<lparr>o_status := OrderStatusClosed\<rparr>) w1 = (Inr ord', w'))"
    by (auto simp: close_body_def run_simps split: if_splits)
  from rest show ?thesis
  proof (elim disjE conjE exE)
    fix u w1 ord'
    assume "x" "o_status ord = OrderStatusWaitPay" and r: "restoreStock s ord (w\<lparr>tick := Suc (tick w)\<rparr>) = (Inr u, w1)"
      and sv: "save_order (ord\<lparr>o_status := OrderStatusClosed\<rparr>) w1 = (Inr ord', w')"
    with return_event [OF r sv] find_SomeD [OF ord] inv show ?thesis by (auto simp: open_order_def)
  qed simp
qed

section \<open>Payment, processing, touching\<close>

lemma bindE_attempt: "bindE (attempt m) f w = (case m w of (r, w1) \<Rightarrow> f r w1)"
  by (simp add: bindE_def attempt_def split: prod.splits)

lemma first_by_run: "first_by sel P w = (r, w') \<Longrightarrow> w' = w\<lparr>tick := Suc (tick w)\<rparr>"
  by (auto simp: first_by_def stmt_def Let_def split: option.splits sum.splits prod.splits)

text \<open>The three ways a callback can succeed: a known transaction, a recorded failure, a payment.\<close>

lemma payment_body_cases:
  assumes run: "payment_body input w = (Inr x, w')"
  obtains (known) pay where "find (\<lambda>p. pm_transaction p = pi_transaction input) (payments (tables w)) = Some pay"
      "tables w' = tables w" "pr_already x" "pr_order_no x = pm_order_no pay"
  | (noted) ord p w1 where "find (\<lambda>r. o_order_no r = pi_order_no input) (orders (tables w)) = Some ord"
      "pi_status input \<noteq> ''SUCCESS''" "tables w1 = tables w" "create_payment (new_payment input) w1 = (Inr p, w')"
      "\<not> pr_already x" "pr_order_status x = o_status ord"
  | (paid) ord ord' p w1 w2 where "find (\<lambda>r. o_order_no r = pi_order_no input) (orders (tables w)) = Some ord"
      "pi_status input = ''SUCCESS''" "o_status ord = OrderStatusWaitPay" "tables w1 = tables w"
      "save_order (ord\<lparr>o_status := OrderStatusPaid\<rparr>) w1 = (Inr ord', w2)"
      "create_payment (new_payment input) w2 = (Inr p, w')"
      "\<not> pr_already x" "pr_order_status x = o_status ord'"
proof -
  obtain r w1 where r: "first_by payments (\<lambda>p. pm_transaction p = pi_transaction input) w = (r, w1)"
    by (cases "first_by payments (\<lambda>p. pm_transaction p = pi_transaction input) w")
  have w1: "tables w1 = tables w" using first_by_run [OF r] by simp
  show thesis
  proof (cases r)
    case (Inr pay)
    obtain ro w2 where ro: "first_by orders (\<lambda>x. o_order_no x = pm_order_no pay) w1 = (ro, w2)"
      by (cases "first_by orders (\<lambda>x. o_order_no x = pm_order_no pay) w1")
    have "tables w2 = tables w" using first_by_run [OF ro] w1 by simp
    with run r Inr ro show thesis
      by (intro known [of pay]) (auto simp: payment_body_def bindE_attempt first_by_ok run_simps)
  next
    case (Inl e)
    show thesis
    proof (cases "pi_status input = ''SUCCESS''")
      case True
      with run r Inl obtain ord ord' p w2 where
        "find (\<lambda>x. o_order_no x = pi_order_no input) (orders (tables w)) = Some ord" "o_status ord = OrderStatusWaitPay"
        "save_order (ord\<lparr>o_status := OrderStatusPaid\<rparr>) (w1\<lparr>tick := Suc (tick w1)\<rparr>) = (Inr ord', w2)"
        "create_payment (new_payment input) w2 = (Inr p, w')" "\<not> pr_already x" "pr_order_status x = o_status ord'"
        by (auto simp: payment_body_def bindE_attempt run_simps w1)
      with True w1 show thesis by (intro paid [of ord "w1\<lparr>tick := Suc (tick w1)\<rparr>"]) auto
    next
      case False
      with run r Inl obtain ord p where
        "find (\<lambda>x. o_order_no x = pi_order_no input) (orders (tables w)) = Some ord"
        "create_payment (new_payment input) (w1\<lparr>tick := Suc (tick w1)\<rparr>) = (Inr p, w')"
        "\<not> pr_already x" "pr_order_status x = o_status ord"
        by (auto simp: payment_body_def bindE_attempt run_simps w1)
      with False w1 show thesis by (intro noted [of ord "w1\<lparr>tick := Suc (tick w1)\<rparr>"]) auto
    qed
  qed
qed

lemma payment_records:
  assumes run: "payment_body input w = (Inr x, w')"
  shows "tables w' = tables w \<and> pr_already x \<or> ev (tables w) (tables w') \<and> \<not> pr_already x"
  using run
proof (cases rule: payment_body_cases)
  case (noted ord p w1)
  from create_payment_run [OF noted(4)] noted(3) find_SomeD [OF noted(1)] noted(2)
  have "ev (tables w) ((tables w)\<lparr>payments := payments (tables w) @ [p]\<rparr>)"
    by (intro ev_note_payment) (auto simp: new_payment_def intro: rev_image_eqI [of ord])
  with create_payment_run [OF noted(4)] noted show ?thesis by auto
next
  case (paid ord ord' p w1 w2)
  from find_SomeD [OF paid(1)] have ord: "ord \<in> set (orders (tables w))" "o_order_no ord = pi_order_no input" by auto
  from save_order_run [OF paid(5)] ord paid(4) obtain u where
    ord': "ord' = ord\<lparr>o_status := OrderStatusPaid, o_updated := u\<rparr>" and
    t2: "tables w2 = (tables w)\<lparr>orders := put_row o_id ord' (orders (tables w))\<rparr>"
    by (auto simp: save_row_in)
  note p = create_payment_run [OF paid(6)]
  have t': "tables w' = (tables w)\<lparr>orders := put_row o_id ord' (orders (tables w)), payments := payments (tables w) @ [p]\<rparr>"
    using p by (simp add: t2)
  have "ev (tables w) (tables w')" unfolding t'
    by (rule ev_pay [OF ord(1) paid(3) ord']) (use p paid(2) ord(2) t2 in \<open>auto simp: new_payment_def\<close>)
  with paid show ?thesis by simp
qed simp

lemma process_advances:
  assumes run: "process_body orderNo w = (Inr x, w')" and inv: "ledger_inv (tables w)"
  shows "tables w' = tables w \<or> ev (tables w) (tables w')"
proof -
  from run obtain ord where ord: "find (\<lambda>r. o_order_no r = orderNo) (orders (tables w)) = Some ord"
    and rest: "tables w' = tables w \<or> o_status ord = OrderStatusQueued \<and>
      (\<exists>ord'. save_order (ord\<lparr>o_status := OrderStatusWaitPay\<rparr>) (w\<lparr>tick := Suc (tick w)\<rparr>) = (Inr ord', w'))"
    by (auto simp: process_body_def run_simps split: if_splits)
  from find_SomeD [OF ord] have in_ord: "ord \<in> set (orders (tables w))" by simp
  from rest show ?thesis
  proof (elim disjE conjE exE)
    fix ord' assume q: "o_status ord = OrderStatusQueued"
      and sv: "save_order (ord\<lparr>o_status := OrderStatusWaitPay\<rparr>) (w\<lparr>tick := Suc (tick w)\<rparr>) = (Inr ord', w')"
    from save_order_run [OF sv] in_ord obtain u where
      ord': "ord' = ord\<lparr>o_status := OrderStatusWaitPay, o_updated := u\<rparr>" and
      t': "tables w' = (tables w)\<lparr>orders := put_row o_id ord' (orders (tables w))\<rparr>"
      by (auto simp: save_row_in)
    show ?thesis unfolding t' by (rule disjI2, rule ev_advance [OF in_ord q ord'])
  qed simp
qed

lemma touch_touches: "touch_queued no now w = (Inr n, w') \<Longrightarrow> ev (tables w) (tables w')"
  using ev_touch [of "tables w" "\<lambda>r. o_order_no r = no \<and> o_status r = OrderStatusQueued" now]
  by (auto simp: touch_queued_def stmt_ok Let_def)

section \<open>Activities and products\<close>

lemma save_status_event:
  assumes "save_activity (act\<lparr>a_status := s\<rparr>) w = (Inr r, w')" and "act \<in> set (activities (tables w))"
  shows "ev (tables w) (tables w')"
proof -
  from save_activity_run [OF assms(1)] assms(2) obtain u where r: "r = act\<lparr>a_status := s, a_updated := u\<rparr>"
    and t': "tables w' = (tables w)\<lparr>activities := put_row a_id r (activities (tables w))\<rparr>"
    by (auto simp: save_row_in)
  show ?thesis unfolding t' by (rule ev_activity_status [OF assms(2)]) (simp_all add: r)
qed

lemma end_activity_ends:
  assumes run: "end_activity_body i w = (Inr x, w')"
  shows "tables w' = tables w \<and> \<not> x \<or> ev (tables w) (tables w') \<and> x"
proof -
  from run obtain act where act: "find (\<lambda>a. a_id a = i) (activities (tables w)) = Some act"
    and rest: "\<not> x \<and> tables w' = tables w \<or> x \<and>
      (\<exists>r. save_activity (act\<lparr>a_status := ActivityStatusEnded\<rparr>) (w\<lparr>tick := Suc (tick w)\<rparr>) = (Inr r, w'))"
    by (auto simp: end_activity_body_def run_simps split: if_splits)
  then show ?thesis using find_SomeD [OF act] save_status_event by fastforce
qed

section \<open>Checking out a cart\<close>

text \<open>The units of a product a list of cart lines asks for, and their price as the loop adds it up.\<close>

definition cart_need :: "(cart_item \<times> product) list \<Rightarrow> nat \<Rightarrow> int" where
  "cart_need cs p = sum_list (map (\<lambda>(c, _). if ci_product c = p then ci_quantity c else 0) cs)"

lemma cart_need_Cons:
  "cart_need ((c, q) # cs) p = (if p = ci_product c then ci_quantity c else 0) + cart_need cs p"
  by (simp add: cart_need_def)

lemma checkout_loop_run:
  assumes "checkout_loop cs n w = (Inr m, w')" and "distinct (map p_id (products (tables w)))"
    and "\<forall>p\<in>set (products (tables w)). 0 \<le> p_stock p \<and> in_i64 (p_stock p)"
  shows "\<exists>ps'. tables w' = (tables w)\<lparr>products := ps'\<rparr> \<and>
     shifted (\<lambda>p. - cart_need cs p) (products (tables w)) ps' \<and> (\<forall>p\<in>set ps'. 0 \<le> p_stock p) \<and>
     (\<forall>c\<in>set cs. 0 < ci_quantity (fst c) \<and> ci_product (fst c) \<in> p_id ` set (products (tables w)))"
  using assms
proof (induction cs arbitrary: n w)
  case Nil
  have "shifted (\<lambda>p. - cart_need [] p) (products (tables w)) (products (tables w))"
    by (rule shifted_cong [OF _ shifted_refl]) (simp add: cart_need_def)
  with Nil show ?case by (auto simp: run_simps intro!: exI [of _ "products (tables w)"])
next
  case (Cons cp cs)
  obtain c q where cp: "cp = (c, q)" by (cases cp)
  from Cons.prems(1) obtain p p' w2 n' where qty: "0 < ci_quantity c"
    and p: "find (\<lambda>x. p_id x = ci_product c) (products (tables w)) = Some p"
    and le: "ci_quantity c \<le> p_stock p"
    and save: "save_product (p\<lparr>p_stock := wrap64 (p_stock p - ci_quantity c)\<rparr>) (w\<lparr>tick := Suc (tick w)\<rparr>) = (Inr p', w2)"
    and rest: "checkout_loop cs n' w2 = (Inr m, w')"
    by (auto simp: run_simps cp)
  from find_SomeD [OF p] have in_p: "p \<in> set (products (tables w))" "p_id p = ci_product c" by auto
  have fit: "wrap64 (p_stock p - ci_quantity c) = p_stock p - ci_quantity c"
    using Cons.prems(3) in_p qty le by (intro wrap64_id) (auto simp: in_i64_def)
  from save_product_run [OF save] obtain u where
    p': "p' = p\<lparr>p_stock := p_stock p + - ci_quantity c, p_updated := u\<rparr>" and
    t2: "tables w2 = (tables w)\<lparr>products := put_row p_id p' (products (tables w))\<rparr>"
    using in_p by (auto simp: fit save_row_in)
  let ?d = "\<lambda>k. if k = ci_product c then - ci_quantity c else 0"
  have one: "shifted ?d (products (tables w)) (products (tables w2))"
    using shifted_put_row [OF Cons.prems(2) in_p(1), of "- ci_quantity c" u] in_p(2) by (simp add: t2 p')
  have "\<forall>x\<in>set (products (tables w2)). 0 \<le> p_stock x \<and> in_i64 (p_stock x)"
  proof
    fix x assume "x \<in> set (products (tables w2))"
    then have "x = p' \<or> x \<in> set (products (tables w))" by (auto simp: t2 dest: in_put_row)
    with Cons.prems(3) in_p(1) le qty show "0 \<le> p_stock x \<and> in_i64 (p_stock x)"
      by (auto simp: p' in_i64_def)
  qed
  with Cons.IH [OF rest] Cons.prems(2) obtain ps' where
    t': "tables w' = (tables w2)\<lparr>products := ps'\<rparr>" and two: "shifted (\<lambda>p. - cart_need cs p) (products (tables w2)) ps'"
    and nn: "\<forall>p\<in>set ps'. 0 \<le> p_stock p"
    and all: "\<forall>c\<in>set cs. 0 < ci_quantity (fst c) \<and> ci_product (fst c) \<in> p_id ` set (products (tables w2))"
    by (auto simp: t2)
  from shifted_trans [OF one two] have "shifted (\<lambda>p. - cart_need (cp # cs) p) (products (tables w)) ps'"
    by (rule shifted_cong [rotated]) (simp add: cp cart_need_Cons)
  moreover have "ci_product c \<in> p_id ` set (products (tables w))" using in_p by (auto intro: rev_image_eqI)
  ultimately show ?case using nn all qty shifted_key_set [OF one] by (auto simp: t' t2 cp)
qed

lemma checkout_items_run:
  assumes "checkout_items ord cs w = (Inr r, w')"
  shows "\<exists>is. tables w' = (tables w)\<lparr>order_items := order_items (tables w) @ is\<rparr> \<and>
     map (\<lambda>i. (oi_order_no i, oi_product i, oi_quantity i)) is =
     map (\<lambda>(c, _). (o_order_no ord, ci_product c, ci_quantity c)) cs"
  using assms
proof (induction cs arbitrary: w)
  case Nil
  then show ?case by (auto simp: run_simps intro!: exI [of _ "[]"])
next
  case (Cons cp cs)
  obtain c q where cp: "cp = (c, q)" by (cases cp)
  from Cons.prems obtain i w2 where
    mk: "create_order_item \<lparr>oi_id = 0, oi_order = o_id ord, oi_order_no = o_order_no ord, oi_product = ci_product c,
      oi_name = p_name q, oi_price = p_price q, oi_quantity = ci_quantity c, oi_created = 0, oi_updated = 0\<rparr> w = (Inr i, w2)"
    and rest: "checkout_items ord cs w2 = (Inr r, w')"
    by (auto simp: run_simps cp)
  from Cons.IH [OF rest] obtain js where
    "tables w' = (tables w2)\<lparr>order_items := order_items (tables w2) @ js\<rparr>"
    "map (\<lambda>i. (oi_order_no i, oi_product i, oi_quantity i)) js =
     map (\<lambda>(c, _). (o_order_no ord, ci_product c, ci_quantity c)) cs" by blast
  with create_order_item_run [OF mk] show ?case
    by (intro exI [of _ "i # js"]) (auto simp: cp)
qed

lemma items_need:
  assumes "map (\<lambda>i. (oi_order_no i, oi_product i, oi_quantity i)) is =
     map (\<lambda>(c, _). (no, ci_product c, ci_quantity c)) cs"
  shows "item_sum is p = cart_need cs p"
    and "\<forall>c\<in>set cs. 0 < ci_quantity (fst c) \<and> ci_product (fst c) \<in> S \<Longrightarrow>
      \<forall>i\<in>set is. oi_order_no i = no \<and> 0 < oi_quantity i \<and> oi_product i \<in> S"
proof -
  have rel: "list_all2 (\<lambda>i (c, q). oi_order_no i = no \<and> oi_product i = ci_product c \<and> oi_quantity i = ci_quantity c) is cs"
    using assms by (auto simp: list_all2_conv_all_nth list_eq_iff_nth_eq split: prod.splits)
  then show "item_sum is p = cart_need cs p"
    by (induction rule: list_all2_induct) (auto simp: item_sum_def cart_need_def)
  from rel show "\<forall>c\<in>set cs. 0 < ci_quantity (fst c) \<and> ci_product (fst c) \<in> S \<Longrightarrow>
      \<forall>i\<in>set is. oi_order_no i = no \<and> 0 < oi_quantity i \<and> oi_product i \<in> S"
    by (induction rule: list_all2_induct) auto
qed

lemma preload_products_run:
  "preload_products cs w = (Inr r, w') \<Longrightarrow> tables w' = tables w \<and> map fst r = cs"
  by (auto simp: preload_products_def run_simps comp_def split: if_splits)

lemma preload_coupon_run: "preload_coupon uc w = (Inr c, w') \<Longrightarrow> tables w' = tables w"
  by (auto simp: preload_coupon_def run_simps)

lemma applyCoupon_run:
  "applyCoupon userID k n w = (Inr d, w') \<Longrightarrow> \<exists>cs. tables w' = (tables w)\<lparr>user_coupons := cs\<rparr>"
  unfolding applyCoupon_def
  by (auto simp: run_simps dest!: preload_coupon_run save_user_coupon_run split: if_splits)
     (metis tables.surjective tables.update_convs(6))+

text \<open>The stages of a checkout that commits.\<close>

lemma checkout_body_stages:
  assumes run: "checkout_body userID input w = (Inr ord, w')"
  obtains cs w1 orig w2 disc w3 no r w4 w5 x where
    "tables w1 = tables w" "map fst cs = filter (\<lambda>c. ci_user c = userID) (cart_items (tables w))" "cs \<noteq> []"
    "checkout_loop cs 0 w1 = (Inr orig, w2)"
    "applyCoupon userID (cc_user_coupon input) orig w2 = (Inr disc, w3)"
    "tables w4 = tables w3"
    "create_order \<lparr>o_id = 0, o_order_no = no, o_request_id = ''cart_'' @ r, o_user = userID,
        o_product = ci_product (fst (hd cs)), o_activity = 0, o_key = None,
        o_address = cc_address input, o_user_coupon = cc_user_coupon input,
        o_original = orig, o_discount = disc,
        o_amount = (if wrap64 (orig - disc) < 0 then 0 else wrap64 (orig - disc)),
        o_status = OrderStatusWaitPay, o_created = 0, o_updated = 0\<rparr> w4 = (Inr ord, w5)"
    "checkout_items ord cs w5 = (Inr (), x)"
    "delete_cart_items (\<lambda>c. ci_user c = userID) x = (Inr (), w')"
proof -
  from run obtain cs w1 orig w2 disc w3 no w3' r w4 w5 x where
    pre: "preload_products (filter (\<lambda>c. ci_user c = userID) (cart_items (tables w))) (w\<lparr>tick := Suc (Suc (tick w))\<rparr>) = (Inr cs, w1)"
      "cs \<noteq> []"
    and loop: "checkout_loop cs 0 w1 = (Inr orig, w2)"
    and coup: "applyCoupon userID (cc_user_coupon input) orig w2 = (Inr disc, w3)"
    and no: "newOrderNo w3 = (Inr no, w3')" and r: "randomText 8 w3' = (Inr r, w4)"
    and mk: "create_order \<lparr>o_id = 0, o_order_no = no, o_request_id = ''cart_'' @ r, o_user = userID,
        o_product = ci_product (fst (hd cs)), o_activity = 0, o_key = None,
        o_address = cc_address input, o_user_coupon = cc_user_coupon input,
        o_original = orig, o_discount = disc,
        o_amount = (if wrap64 (orig - disc) < 0 then 0 else wrap64 (orig - disc)),
        o_status = OrderStatusWaitPay, o_created = 0, o_updated = 0\<rparr> w4 = (Inr ord, w5)"
    and items: "checkout_items ord cs w5 = (Inr (), x)"
    and del: "delete_cart_items (\<lambda>c. ci_user c = userID) x = (Inr (), w')"
    unfolding checkout_body_def Let_def by (auto simp: run_simps)
  have "tables w1 = tables w" "map fst cs = filter (\<lambda>c. ci_user c = userID) (cart_items (tables w))"
    using preload_products_run [OF pre(1)] by simp_all
  moreover have "tables w4 = tables w3" using newOrderNo_run [OF no] randomText_run [OF r] by simp
  ultimately show thesis using that pre(2) loop coup mk items del by blast
qed

lemma checkout_sells:
  assumes run: "checkout_body userID input w = (Inr ord, w')" and inv: "ledger_inv (tables w)"
  shows "ev (tables w) (tables w')"
  using run
proof (cases rule: checkout_body_stages)
  case (1 cs w1 orig w2 disc w3 no r w4 w5 x)
  let ?t = "tables w"
  have "\<forall>p\<in>set (products ?t). 0 \<le> p_stock p \<and> in_i64 (p_stock p)"
    using inv product_room(1) [OF inv] by (auto simp: ledger_inv_def stock_inv_def)
  with checkout_loop_run [OF 1(4)] 1(1) inv obtain ps' where
    t2: "tables w2 = ?t\<lparr>products := ps'\<rparr>" and sh: "shifted (\<lambda>p. - cart_need cs p) (products ?t) ps'"
    and nn: "\<forall>p\<in>set ps'. 0 \<le> p_stock p"
    and all: "\<forall>c\<in>set cs. 0 < ci_quantity (fst c) \<and> ci_product (fst c) \<in> p_id ` set (products ?t)"
    by (auto simp: ledger_inv_def keys_inv_def)
  from applyCoupon_run [OF 1(5)] obtain uc where t3: "tables w3 = ?t\<lparr>products := ps', user_coupons := uc\<rparr>"
    by (auto simp: t2)
  note mk = create_order_run [OF 1(7)]
  from checkout_items_run [OF 1(8)] obtain "is" where
    tx: "tables x = (tables w5)\<lparr>order_items := order_items (tables w5) @ is\<rparr>" and
    items: "map (\<lambda>i. (oi_order_no i, oi_product i, oi_quantity i)) is =
     map (\<lambda>(c, _). (o_order_no ord, ci_product c, ci_quantity c)) cs" by blast
  from delete_cart_items_run [OF 1(9)] obtain ci where t': "tables w' = (tables x)\<lparr>cart_items := ci\<rparr>" by blast
  have "tables w' = ?t\<lparr>products := ps', orders := orders ?t @ [ord], order_items := order_items ?t @ is,
      cart_items := ci, user_coupons := uc\<rparr>"
    using mk by (simp add: t' tx 1(6) t3)
  moreover have "ev ?t (?t\<lparr>products := ps', orders := orders ?t @ [ord], order_items := order_items ?t @ is,
      cart_items := ci, user_coupons := uc\<rparr>)"
  proof (rule ev_checkout)
    show "\<forall>i\<in>set is. oi_order_no i = o_order_no ord \<and> 0 < oi_quantity i \<and> oi_product i \<in> p_id ` set (products ?t)"
      by (rule items_need(2) [OF items all])
    show "shifted (\<lambda>p. - item_sum is p) (products ?t) ps'"
      using sh by (simp add: items_need(1) [OF items])
  qed (use mk nn in \<open>auto simp: 1(6) t3\<close>)
  ultimately show ?thesis by simp
qed

end
