(* ===== verification/Refinement.thy ===== *)
theory Refinement
  imports Effects
begin

text \<open>
  Every service operation, with its retries, its logging and every error path, relates the tables
  before and after it by events only: \<open>obeys\<close> is reflexive and transitive, so it follows from the
  parts of an operation (locale \<open>table_preorder\<close>) and, for a transaction, from its body.
\<close>

section \<open>Every operation performs only events\<close>

definition obeys :: "tables \<Rightarrow> tables \<Rightarrow> bool" where
  "obeys t t' \<longleftrightarrow> (ledger_inv t \<longrightarrow> evs t t')"

interpretation ledger: table_preorder obeys
proof
  fix t1 t2 t3
  show "obeys t1 t1" by (simp add: obeys_def)
  assume "obeys t1 t2" "obeys t2 t3"
  then show "obeys t1 t3" using evs_ledger unfolding obeys_def by (meson rtranclp_trans)
qed

lemma obeys_ev: "(ledger_inv t \<Longrightarrow> ev t t') \<Longrightarrow> obeys t t'"
  by (auto simp: obeys_def)

lemma obeys_same: "t' = t \<Longrightarrow> obeys t t'"
  by (simp add: obeys_def)

lemma obeys_reads: "reads_only m \<Longrightarrow> tracks obeys m"
  unfolding tracks_def by (auto simp: obeys_def)

lemma obeys_query:
  "tracks obeys (first_by sel P)" "tracks obeys (find_all sel P)" "tracks obeys (find_desc sel P)" "tracks obeys (count_by sel P)"
  by (auto simp: first_by_def find_all_def find_desc_def count_by_def obeys_def
      intro!: ledger.tracks_stmt split: option.splits)

lemma obeys_log: "tracks obeys (log_op a no u r m)"
proof (rule tracksI)
  fix w x w' assume "log_op a no u r m w = (x, w')"
  from log_op_tables [OF this] have "tables w' = (tables w)\<lparr>operation_logs := operation_logs (tables w')\<rparr>" by simp
  then show "obeys (tables w) (tables w')" using ev_log [of "tables w"] by (metis obeys_ev)
qed

lemma obeys_send_task: "tracks obeys (send_task no)"
proof (rule tracksI)
  fix w x w' assume "send_task no w = (x, w')"
  then show "obeys (tables w) (tables w')"
    by (auto simp: send_task_def obeys_same dest: tracksD [OF obeys_log] split: if_splits)
qed

lemmas obeys_parts = ledger.tracks_basic obeys_query obeys_log obeys_send_task
  obeys_reads [OF cache_Release_reads] obeys_reads [OF cache_Reserve_reads]
  obeys_reads [OF cache_SetStock_reads] obeys_reads [OF cache_GetStock_reads] obeys_reads [OF rabbit_Publish_reads]

lemmas obeys_glue = ledger.tracks_bindE ledger.tracks_on_error ledger.tracks_attempt

lemma obeys_randomText: "tracks obeys (randomText n)"
  by (rule tracksI) (auto dest: randomText_run intro: obeys_same)

lemma obeys_case_sum:
  "(\<And>a. tracks obeys (f a)) \<Longrightarrow> (\<And>b. tracks obeys (g b)) \<Longrightarrow> tracks obeys (case r of Inl a \<Rightarrow> f a | Inr b \<Rightarrow> g b)"
  by (cases r) auto

lemma obeys_if: "tracks obeys m \<Longrightarrow> tracks obeys n \<Longrightarrow> tracks obeys (if b then m else n)"
  by simp

lemma obeys_split: "(\<And>a b. tracks obeys (f a b)) \<Longrightarrow> tracks obeys (case p of (a, b) \<Rightarrow> f a b)"
  by (cases p) auto

lemma obeys_ensure: "tracks obeys (ensureE r)"
  unfolding ensureE_def by (auto intro: ledger.tracks_basic split: option.splits)

lemmas obeys_intros = obeys_parts obeys_glue obeys_case_sum obeys_if obeys_split obeys_ensure obeys_randomText

lemma obeys_publish: "tracks obeys (publishOrderTask s no)"
  unfolding publishOrderTask_def by (intro obeys_intros)

lemma obeys_tx_db: "tracks obeys (transaction (db_order_body u i))"
  by (rule ledger.tracks_transaction) (rule obeys_ev, rule db_order_places)

lemma obeys_tx_redis: "a_id act = co_activity i \<Longrightarrow> tracks obeys (transaction (redis_order_body u i act))"
  by (rule ledger.tracks_transaction) (rule obeys_ev, rule redis_order_places)

lemma obeys_createOrderWithDB: "tracks obeys (createOrderWithDB s u i)"
  unfolding createOrderWithDB_def by (intro obeys_intros obeys_tx_db obeys_publish)

text \<open>A value the computation has just read satisfies its query.\<close>

lemma tracks_bind_found:
  assumes "\<And>r. P r \<Longrightarrow> tracks obeys (f r)" and "\<And>e. tracks obeys (h e)" and "\<And>e w. fst (h e w) \<in> range Inl"
  shows "tracks obeys (bindE (on_error (first_by sel P) h) f)"
proof (rule tracksI)
  fix w r w' assume run: "bindE (on_error (first_by sel P) h) f w = (r, w')"
  obtain r1 w1 where m: "on_error (first_by sel P) h w = (r1, w1)" by (cases "on_error (first_by sel P) h w")
  have "obeys (tables w) (tables w1)"
    by (rule tracksD [where R = obeys and m = "on_error (first_by sel P) h" and r = r1])
       (intro obeys_intros assms, rule m)
  moreover have "obeys (tables w1) (tables w')"
  proof (cases r1)
    case (Inl e)
    with m run show ?thesis by (auto simp: bindE_def obeys_same)
  next
    case (Inr x)
    have "\<not> (\<exists>e w2. h e w2 = (Inr x, w1))"
      using assms(3) by (metis fst_conv imageE sum.distinct(1))
    with m Inr have "P x" by (auto simp: on_error_ok first_by_ok dest: find_SomeD)
    with m run Inr assms(1) show ?thesis by (auto simp: bindE_def dest: tracksD)
  qed
  ultimately show "obeys (tables w) (tables w')" by (rule ledger.R_trans)
qed

lemma log_then_throw: "fst (thenE (log_op a no u r m) (throw e) w) \<in> range Inl"
  using log_op_total [of a no u r m w] by (auto simp: bindE_def throw_def)

lemma obeys_createOrderWithRedis: "tracks obeys (createOrderWithRedis s u i)"
  unfolding createOrderWithRedis_def
  by (intro tracks_bind_found obeys_intros obeys_tx_redis obeys_publish log_then_throw)

lemma obeys_CreateOrderContext: "tracks obeys (CreateOrderContext s c u i)"
  unfolding CreateOrderContext_def
  by (auto split: option.splits intro!: obeys_intros obeys_createOrderWithRedis obeys_createOrderWithDB)

lemma obeys_CheckoutCart: "tracks obeys (CheckoutCart u i)"
  unfolding CheckoutCart_def
  by (intro obeys_intros ledger.tracks_transaction obeys_ev checkout_sells)

lemma obeys_CancelOrder: "tracks obeys (CancelOrder s u no)"
  unfolding CancelOrder_def
  by (intro obeys_intros ledger.tracks_transaction obeys_ev) (blast dest: cancel_returns)

lemma obeys_tx_expire: "tracks obeys (transaction (expire_body s no))"
  by (rule ledger.tracks_transaction) (use expire_returns in \<open>fastforce simp: obeys_def\<close>)

lemma obeys_expire_loop: "tracks obeys (expire_loop s os n)"
  by (induction s os n rule: expire_loop.induct) (auto intro!: obeys_intros obeys_tx_expire)

lemma obeys_ExpireOrders: "tracks obeys (ExpireOrders s n)"
  unfolding ExpireOrders_def Let_def by (intro obeys_intros obeys_expire_loop)

lemma obeys_requeue_loop: "tracks obeys (requeue_loop s now os r)"
  by (induction s now os r rule: requeue_loop.induct)
     (auto intro!: obeys_intros obeys_publish ledger.tracks_transaction obeys_ev touch_touches)

lemma obeys_close_loop: "tracks obeys (close_loop s os r)"
proof (induction s os r rule: close_loop.induct)
  case (2 s item rest result)
  have "tracks obeys (transaction (close_body s (o_order_no item)))"
    by (rule ledger.tracks_transaction) (use close_returns in \<open>fastforce simp: obeys_def\<close>)
  with 2 show ?case by (auto intro!: obeys_intros)
qed (auto intro!: obeys_intros)

lemma obeys_end_loop: "tracks obeys (end_loop as r)"
proof (induction as r rule: end_loop.induct)
  case (2 item rest result)
  have "tracks obeys (transaction (end_activity_body (a_id item)))"
    by (rule ledger.tracks_transaction) (use end_activity_ends in \<open>fastforce simp: obeys_def\<close>)
  with 2 show ?case by (auto intro!: obeys_intros)
qed (auto intro!: obeys_intros)

lemma obeys_Compensate: "tracks obeys (Compensate s q p)"
  unfolding Compensate_def Let_def
  by (intro obeys_intros obeys_requeue_loop obeys_close_loop obeys_end_loop)

lemma reconcile_one_reads: "tracks obeys (reconcile_one b a r)"
  unfolding reconcile_one_def Let_def by (intro obeys_intros)

lemma obeys_ReconcileStock: "tracks obeys (ReconcileStock s a b)"
proof -
  have "tracks obeys (reconcile_loop b as r)" for as r
    by (induction b as r rule: reconcile_loop.induct) (auto intro!: obeys_intros reconcile_one_reads)
  then show ?thesis unfolding ReconcileStock_def by (intro obeys_intros)
qed

lemma obeys_PaymentCallback: "tracks obeys (PaymentCallback i)"
proof -
  have "tracks obeys (transaction (payment_body i))"
    by (rule ledger.tracks_transaction) (use payment_records in \<open>fastforce simp: obeys_def\<close>)
  then show ?thesis unfolding PaymentCallback_def by (intro obeys_intros)
qed

lemma obeys_processOrderCreated: "tracks obeys (processOrderCreated d n no)"
proof -
  have "tracks obeys (transaction (process_body no))"
    by (rule ledger.tracks_transaction) (use process_advances in \<open>fastforce simp: obeys_def\<close>)
  then show ?thesis unfolding processOrderCreated_def by (auto split: option.splits intro!: obeys_intros)
qed

lemma next_id_neq: "x \<in> set rs \<Longrightarrow> next_id key g rs = key x \<Longrightarrow> False"
  using next_id_fresh [of x rs key g] by simp

lemma obeys_CreateProduct: "in_i64 (cp_stock i) \<Longrightarrow> tracks obeys (CreateProduct i)"
  unfolding CreateProduct_def create_product_def
  by (auto simp: Let_def next_id_not_in intro!: obeys_intros ledger.tracks_stmt obeys_ev ev_new_product dest: next_id_neq)

lemma obeys_CreateActivity: 
  assumes "in_i64 (ca_stock i)" shows "tracks obeys (CreateActivity c i)"
proof -
  have "tracks obeys (create_activity a)" if "0 < a_stock a" "in_i64 (a_stock a)" for a
    unfolding create_activity_def using that
    by (auto simp: Let_def next_id_not_in intro!: ledger.tracks_stmt obeys_ev ev_new_activity dest: next_id_neq)
  then show ?thesis using assms unfolding CreateActivity_def cache_Prewarm_def
    by (auto simp: Let_def intro!: obeys_intros)
qed

lemma obeys_UpdateActivityStatus: "tracks obeys (UpdateActivityStatus i s)"
proof (rule tracksI)
  fix w r w' assume run: "UpdateActivityStatus i s w = (r, w')"
  show "obeys (tables w) (tables w')"
  proof (cases r)
    case (Inr x)
    with run obtain act where "find (\<lambda>a. a_id a = i) (activities (tables w)) = Some act"
      "save_activity (act\<lparr>a_status := s\<rparr>) (w\<lparr>tick := Suc (tick w)\<rparr>) = (Inr x, w')"
      by (auto simp: UpdateActivityStatus_def run_simps split: if_splits)
    with find_SomeD [OF this(1)] save_status_event show ?thesis by (fastforce intro: obeys_ev)
  next
    case (Inl e)
    with run have "tables w' = tables w"
      by (auto simp: UpdateActivityStatus_def bindE_err on_error_err run_simps save_activity_def
          split: if_splits dest!: stmt_err first_by_run)
    then show ?thesis by (rule obeys_same)
  qed
qed

end
