(* ===== verification/Migration.thy ===== *)
theory Migration
  imports Refinement
begin

text \<open>
  The writes of \<open>database.Open\<close> to a database that is there already.  On consistent tables they are
  events of the ledger, so a server may be started again at any time.  Tables of an earlier version, whose
  activity orders have no key, are made consistent.
\<close>

section \<open>Starting again\<close>

lemma order_key_text: "NewActivityOrderKey u a \<noteq> Some ''''"
  by (simp add: NewActivityOrderKey_def)

lemma backfill_none:
  "\<forall>ord\<in>set os. NewActivityOrderKey (o_user ord) (o_activity ord) = None \<Longrightarrow> backfill_loop os = ret ()"
  by (induction os rule: backfill_loop.induct) simp_all

lemma backfill_keyed:
  assumes "ledger_inv (tables w)" and "backfillActivityOrderKeys w = (r, w')"
  shows "tables w' = tables w"
proof -
  let ?P = "\<lambda>r. 0 < o_activity r \<and> (o_key r = Some '''' \<or> o_key r = None)"
  have "backfill_loop (filter ?P (orders (tables w))) = ret ()"
    using assms(1) order_key_text by (intro backfill_none) (auto simp: ledger_inv_def keyed_inv_def)
  with assms(2) show ?thesis
    by (auto simp: backfillActivityOrderKeys_def find_all_def stmt_def bindE_def ret_def Let_def split: option.splits)
qed

text \<open>A change of single columns of the activities is a sequence of events, row by row.\<close>

lemma evs_activities:
  assumes d: "distinct (map a_id (activities t))"
    and f: "\<And>a. a_id (f a) = a_id a" "\<And>a. a_stock (f a) = a_stock a"
  shows "evs t (t\<lparr>activities := map f (activities t)\<rparr>)"
proof -
  let ?as = "activities t"
  let ?mid = "\<lambda>n. t\<lparr>activities := map f (take n ?as) @ drop n ?as\<rparr>"
  have "evs t (?mid n)" if "n \<le> length ?as" for n
    using that
  proof (induction n)
    case (Suc n)
    let ?a = "?as ! n"
    have split: "?as = take n ?as @ ?a # drop (Suc n) ?as" using Suc.prems by (simp add: id_take_nth_drop)
    have "put_row a_id (f ?a) (map f (take n ?as) @ ?a # drop (Suc n) ?as) =
        map f (take n ?as) @ f ?a # drop (Suc n) ?as"
      using d by (subst (asm) split) (auto simp: put_row_def f intro!: map_idI; metis image_eqI)
    moreover have "drop n ?as = ?a # drop (Suc n) ?as" "take (Suc n) ?as = take n ?as @ [?a]"
      using Suc.prems by (simp_all add: Cons_nth_drop_Suc take_Suc_conv_app_nth)
    ultimately have "ev (?mid n) (?mid (Suc n))"
      using ev_activity_status [of ?a "?mid n" "f ?a"] by (simp add: f)
    with Suc show ?case by (meson Suc_leD rtranclp.rtrancl_into_rtrancl)
  qed simp
  from this [of "length ?as"] show ?thesis by simp
qed

lemma obeys_status: "tracks obeys default_activity_status"
  unfolding default_activity_status_def
  by (rule ledger.tracks_stmt) (auto simp: obeys_def ledger_inv_def keys_inv_def intro!: evs_activities)

lemma ev_users: "ev t (t\<lparr>users := us\<rparr>)"
proof -
  have "t\<lparr>users := us\<rparr> = t\<lparr>users := us, addresses := addresses t, cart_items := cart_items t, coupons := coupons t,
      user_coupons := user_coupons t\<rparr>" by (cases t) simp
  then show ?thesis by (metis ev_side)
qed

lemma obeys_role: "tracks obeys default_user_role"
  unfolding default_user_role_def
  by (rule ledger.tracks_stmt) (auto intro!: obeys_ev ev_users)

lemma obeys_migrations: "tracks obeys open_migrations"
proof -
  have "tracks obeys backfillActivityOrderKeys"
    by (rule tracksI) (auto simp: obeys_def dest: backfill_keyed)
  then show ?thesis unfolding open_migrations_def by (intro obeys_glue obeys_status obeys_role)
qed

section \<open>Tables without keys\<close>

text \<open>What an order of an earlier version may have as its key, and what the migration may change of an order.\<close>

definition legacy_key :: "order \<Rightarrow> bool" where
  "legacy_key x \<longleftrightarrow> o_key x = None \<or> o_key x = NewActivityOrderKey (o_user x) (o_activity x) \<or>
     (o_key x = Some '''' \<and> 0 < o_user x \<and> 0 < o_activity x)"

definition filled :: "order \<Rightarrow> order \<Rightarrow> bool" where
  "filled x y \<longleftrightarrow> y = x \<or> (NewActivityOrderKey (o_user x) (o_activity x) \<noteq> None \<and>
     y = x\<lparr>o_key := NewActivityOrderKey (o_user x) (o_activity x), o_updated := o_updated y\<rparr>)"

definition rightly_keyed :: "order \<Rightarrow> bool" where
  "rightly_keyed x \<longleftrightarrow> o_key x = NewActivityOrderKey (o_user x) (o_activity x)"

definition bare :: "order \<Rightarrow> order" where
  "bare x = x\<lparr>o_key := None, o_updated := 0\<rparr>"

lemma filled_fields:
  assumes "filled x y"
  shows "o_id y = o_id x" "o_order_no y = o_order_no x" "o_user y = o_user x" "o_activity y = o_activity x" "bare y = bare x"
    and "rightly_keyed x \<Longrightarrow> rightly_keyed y" and "y = x \<or> rightly_keyed y"
proof -
  consider "y = x" | u where "y = x\<lparr>o_key := NewActivityOrderKey (o_user x) (o_activity x), o_updated := u\<rparr>"
    using assms unfolding filled_def by blast
  then show "o_id y = o_id x" "o_order_no y = o_order_no x" "o_user y = o_user x" "o_activity y = o_activity x" "bare y = bare x"
    and "rightly_keyed x \<Longrightarrow> rightly_keyed y" and "y = x \<or> rightly_keyed y"
    by (cases; simp add: bare_def rightly_keyed_def)+
qed

lemma filled_self: "list_all2 filled xs xs"
  by (rule list.rel_refl) (simp add: filled_def)

lemma filled_again:
  "filled x y \<Longrightarrow> NewActivityOrderKey (o_user x) (o_activity x) = Some k \<Longrightarrow> filled x (y\<lparr>o_key := Some k, o_updated := u\<rparr>)"
  by (cases x, cases y) (auto simp: filled_def)

lemma list_all2_same_key:
  "list_all2 filled xs ys \<Longrightarrow> map o_id ys = map o_id xs \<and> map bare ys = map bare xs"
  by (induction rule: list_all2_induct) (auto dest: filled_fields)

lemma list_all2_from:
  "list_all2 filled xs ys \<Longrightarrow> y \<in> set ys \<Longrightarrow> \<exists>x\<in>set xs. filled x y"
  by (induction rule: list_all2_induct) auto

lemma set_order_key_run:
  assumes run: "set_order_key (o_id ord) k w = (Inr (), w')" and ys: "list_all2 filled xs (orders (tables w))"
    and d: "distinct (map o_id xs)" and ord: "ord \<in> set xs" "NewActivityOrderKey (o_user ord) (o_activity ord) = Some k"
  shows "\<exists>ys'. tables w' = (tables w)\<lparr>orders := ys'\<rparr> \<and> list_all2 filled xs ys' \<and>
    (\<forall>y\<in>set ys'. o_id y = o_id ord \<longrightarrow> rightly_keyed y) \<and> list_all2 (\<lambda>y y'. rightly_keyed y \<longrightarrow> rightly_keyed y') (orders (tables w)) ys'"
proof -
  let ?ys = "orders (tables w)"
  have same: "map o_id ?ys = map o_id xs" using list_all2_same_key [OF ys] by simp
  have "o_id ord \<in> set (map o_id ?ys)" unfolding same using ord(1) by simp
  then have "find (\<lambda>x. o_id x = o_id ord) ?ys \<noteq> None" by (auto simp: find_None_iff)
  then obtain y where f: "find (\<lambda>x. o_id x = o_id ord) ?ys = Some y" by blast
  note y = f find_SomeD [OF f, THEN conjunct1] find_SomeD [OF f, THEN conjunct2]
  define r where "r = y\<lparr>o_key := Some k, o_updated := clock (ext w) (tick w)\<rparr>"
  have t: "tables w' = (tables w)\<lparr>orders := put_row o_id r ?ys\<rparr>"
    using run y(1) by (auto simp: set_order_key_def stmt_ok Let_def r_def split: option.splits)
  have user: "o_user z = o_user ord \<and> o_activity z = o_activity ord" if "filled x z" "x \<in> set xs" "o_id z = o_id ord" for x z
    using that ord(1) d filled_fields(1,3,4) [OF that(1)] distinct_key_unique [OF d, of x ord] by auto
  have r: "rightly_keyed r" "o_id r = o_id ord"
  proof -
    obtain x where "x \<in> set xs" "filled x y" using list_all2_from [OF ys y(2)] by blast
    then show "rightly_keyed r" "o_id r = o_id ord" using user [of x y] y(3) ord(2) by (simp_all add: r_def rightly_keyed_def)
  qed
  have "filled x (if o_id z = o_id r then r else z)" if "filled x z" "x \<in> set xs" "z \<in> set ?ys" for x z
  proof (cases "o_id z = o_id ord")
    case True
    then have "z = y" using that(3) y d same by (metis distinct_key_unique)
    moreover have "o_user x = o_user ord" "o_activity x = o_activity ord"
      using user [OF that(1,2) True] filled_fields(3,4) [OF that(1)] by simp_all
    ultimately show ?thesis using filled_again [OF that(1)] ord(2) y(3) by (simp add: r_def)
  qed (use that r(2) in simp)
  then have "list_all2 filled xs (put_row o_id r ?ys)"
    using ys by (auto simp: put_row_def list_all2_conv_all_nth)
  moreover have "list_all2 (\<lambda>y y'. rightly_keyed y \<longrightarrow> rightly_keyed y') ?ys (put_row o_id r ?ys)"
    using r(1) by (auto simp: put_row_def list_all2_conv_all_nth)
  moreover have "rightly_keyed z" if "z \<in> set (put_row o_id r ?ys)" "o_id z = o_id ord" for z
    using that in_put_row [of z o_id r ?ys] r by auto
  ultimately show ?thesis using t by blast
qed

lemma backfill_loop_run:
  assumes "backfill_loop os w = (Inr (), w')" and "list_all2 filled xs (orders (tables w))"
    and "distinct (map o_id xs)" and "set os \<subseteq> set xs"
  shows "\<exists>ys'. tables w' = (tables w)\<lparr>orders := ys'\<rparr> \<and> list_all2 filled xs ys' \<and>
    (\<forall>ord\<in>set os. \<forall>y\<in>set ys'. o_id y = o_id ord \<and> NewActivityOrderKey (o_user ord) (o_activity ord) \<noteq> None \<longrightarrow> rightly_keyed y) \<and>
    list_all2 (\<lambda>y y'. rightly_keyed y \<longrightarrow> rightly_keyed y') (orders (tables w)) ys'"
  using assms
proof (induction os arbitrary: w)
  case Nil
  then show ?case by (auto simp: ret_def intro!: exI [of _ "orders (tables w)"] list.rel_refl)
next
  case (Cons ord os)
  show ?case
  proof (cases "NewActivityOrderKey (o_user ord) (o_activity ord)")
    case None
    with Cons show ?thesis by auto
  next
    case (Some k)
    with Cons.prems obtain w1 where s: "set_order_key (o_id ord) k w = (Inr (), w1)" and rest: "backfill_loop os w1 = (Inr (), w')"
      by (auto simp: bindE_ok)
    from set_order_key_run [OF s Cons.prems(2,3) _ Some] Cons.prems(4) obtain ys1 where
      1: "tables w1 = (tables w)\<lparr>orders := ys1\<rparr>" "list_all2 filled xs ys1" "\<forall>y\<in>set ys1. o_id y = o_id ord \<longrightarrow> rightly_keyed y"
        "list_all2 (\<lambda>y y'. rightly_keyed y \<longrightarrow> rightly_keyed y') (orders (tables w)) ys1" by auto
    from Cons.IH [OF rest _ Cons.prems(3)] 1(1,2) Cons.prems(4) obtain ys2 where
      2: "tables w' = (tables w)\<lparr>orders := ys2\<rparr>" "list_all2 filled xs ys2"
        "\<forall>ord\<in>set os. \<forall>y\<in>set ys2. o_id y = o_id ord \<and> NewActivityOrderKey (o_user ord) (o_activity ord) \<noteq> None \<longrightarrow> rightly_keyed y"
        "list_all2 (\<lambda>y y'. rightly_keyed y \<longrightarrow> rightly_keyed y') ys1 ys2" by auto
    have "rightly_keyed y" if y: "y \<in> set ys2" "o_id y = o_id ord" for y
    proof -
      obtain i where i: "i < length ys2" "y = ys2 ! i" using y(1) by (metis in_set_conv_nth)
      have "o_id (ys1 ! i) = o_id (ys2 ! i)" "length ys1 = length ys2"
        using list_all2_same_key [OF 1(2)] list_all2_same_key [OF 2(2)] i(1) by (metis length_map nth_map)+
      with i y(2) 1(3) 2(4) show ?thesis by (auto simp: list_all2_conv_all_nth)
    qed
    moreover have "list_all2 (\<lambda>y y'. rightly_keyed y \<longrightarrow> rightly_keyed y') (orders (tables w)) ys2"
      using list_all2_trans [OF _ 1(4) 2(4), of "\<lambda>y y'. rightly_keyed y \<longrightarrow> rightly_keyed y'"] by blast
    ultimately show ?thesis using 2 by auto
  qed
qed

lemma same_bare:
  assumes "map bare (orders t') = map bare (orders t)" and "t' = t\<lparr>orders := orders t'\<rparr>"
  shows "keys_inv t \<Longrightarrow> keys_inv t'" "refs_inv t \<Longrightarrow> refs_inv t'" "stock_inv t \<Longrightarrow> stock_inv t'"
    "once_inv t \<Longrightarrow> once_inv t'" "paid_inv t \<Longrightarrow> paid_inv t'"
proof -
  have b: "o_id (bare x) = o_id x" "o_order_no (bare x) = o_order_no x" "o_user (bare x) = o_user x"
    "o_activity (bare x) = o_activity x" "o_status (bare x) = o_status x" for x by (simp_all add: bare_def)
  then have live: "live (bare x) = live x" for x by (simp add: live_def)
  let ?n = "\<lambda>t. t\<lparr>orders := map bare (orders t)\<rparr>"
  have n: "?n t' = ?n t" by (subst assms(2)) (simp add: assms(1))
  have k: "keys_inv (?n u) = keys_inv u" for u by (simp add: keys_inv_def comp_def b)
  have r: "refs_inv (?n u) = refs_inv u" for u by (simp add: refs_inv_def image_image b)
  have s: "stock_inv (?n u) = stock_inv u" for u
    by (simp add: stock_inv_def activity_level_def product_level_def live_no_def comp_def b live)
  have o: "once_inv (?n u) = once_inv u" for u by (simp add: once_inv_def b)
  have p: "paid_inv (?n u) = paid_inv u" for u by (simp add: paid_inv_def b)
  show "keys_inv t \<Longrightarrow> keys_inv t'" using n k [of t] k [of t'] by simp
  show "refs_inv t \<Longrightarrow> refs_inv t'" using n r [of t] r [of t'] by simp
  show "stock_inv t \<Longrightarrow> stock_inv t'" using n s [of t] s [of t'] by simp
  show "once_inv t \<Longrightarrow> once_inv t'" using n o [of t] o [of t'] by simp
  show "paid_inv t \<Longrightarrow> paid_inv t'" using n p [of t] p [of t'] by simp
qed

lemma index_of_keyed: "keyed_inv t \<Longrightarrow> once_inv t \<Longrightarrow> index_inv t"
  unfolding index_inv_def keyed_inv_def once_inv_def
  by (metis NewActivityOrderKey_None_iff NewActivityOrderKey_inject gr0I not_Some_eq)

text \<open>Consistent except for the keys.\<close>

definition legacy_inv :: "tables \<Rightarrow> bool" where
  "legacy_inv t \<longleftrightarrow> keys_inv t \<and> refs_inv t \<and> stock_inv t \<and> once_inv t \<and> paid_inv t \<and> (\<forall>x\<in>set (orders t). legacy_key x)"

lemma backfill_restores:
  assumes "backfillActivityOrderKeys w = (Inr (), w')" and inv: "legacy_inv (tables w)"
  shows "ledger_inv (tables w') \<and> tables w' = (tables w)\<lparr>orders := orders (tables w')\<rparr> \<and>
    map bare (orders (tables w')) = map bare (orders (tables w))"
proof -
  let ?P = "\<lambda>r. 0 < o_activity r \<and> (o_key r = Some '''' \<or> o_key r = None)" and ?xs = "orders (tables w)"
  from assms(1) have loop: "backfill_loop (filter ?P ?xs) (w\<lparr>tick := Suc (tick w)\<rparr>) = (Inr (), w')"
    by (auto simp: backfillActivityOrderKeys_def bindE_ok find_all_ok)
  have "\<exists>ys. tables w' = (tables w)\<lparr>orders := ys\<rparr> \<and> list_all2 filled ?xs ys \<and>
    (\<forall>ord\<in>set (filter ?P ?xs). \<forall>y\<in>set ys. o_id y = o_id ord \<and> NewActivityOrderKey (o_user ord) (o_activity ord) \<noteq> None \<longrightarrow> rightly_keyed y)"
    using backfill_loop_run [OF loop, of ?xs] inv filled_self by (auto simp: legacy_inv_def keys_inv_def)
  then obtain ys where ys: "tables w' = (tables w)\<lparr>orders := ys\<rparr>" "list_all2 filled ?xs ys"
    "\<And>ord y. ord \<in> set ?xs \<Longrightarrow> ?P ord \<Longrightarrow> y \<in> set ys \<Longrightarrow> o_id y = o_id ord \<Longrightarrow>
       NewActivityOrderKey (o_user ord) (o_activity ord) \<noteq> None \<Longrightarrow> rightly_keyed y" by auto
  have same: "map bare (orders (tables w')) = map bare ?xs" "tables w' = (tables w)\<lparr>orders := orders (tables w')\<rparr>"
    using list_all2_same_key [OF ys(2)] ys(1) by simp_all
  have "rightly_keyed y" if "y \<in> set ys" for y
  proof -
    obtain x where x: "x \<in> set ?xs" "filled x y" using list_all2_from [OF ys(2) \<open>y \<in> set ys\<close>] by blast
    have "legacy_key x" using inv x(1) by (simp add: legacy_inv_def)
    then consider "rightly_keyed x" | "?P x" "NewActivityOrderKey (o_user x) (o_activity x) \<noteq> None"
      by (cases "NewActivityOrderKey (o_user x) (o_activity x)")
        (auto simp: legacy_key_def rightly_keyed_def NewActivityOrderKey_def split: if_splits)
    then show ?thesis
      using ys(3) [OF x(1) _ \<open>y \<in> set ys\<close>] filled_fields(1,6) [OF x(2)] by cases auto
  qed
  then have "keyed_inv (tables w')" by (simp add: keyed_inv_def rightly_keyed_def ys(1))
  then show ?thesis
    using same_bare [OF same] same inv index_of_keyed by (auto simp: ledger_inv_def legacy_inv_def)
qed

section \<open>The migration succeeds\<close>

lemma set_order_key_ok:
  assumes q: "quiet (ext w)" and inv: "legacy_inv t" and ys: "list_all2 filled (orders t) (orders (tables w))"
    and ord: "ord \<in> set (orders t)" "NewActivityOrderKey (o_user ord) (o_activity ord) = Some k"
  shows "\<exists>w'. set_order_key (o_id ord) k w = (Inr (), w') \<and> ext w' = ext w"
proof -
  let ?ys = "orders (tables w)"
  have d: "distinct (map o_id (orders t))" "distinct (map o_order_no ?ys)" "distinct (map o_id ?ys)"
  proof -
    show "distinct (map o_id (orders t))" using inv by (simp add: legacy_inv_def keys_inv_def)
    then show "distinct (map o_id ?ys)" using list_all2_same_key [OF ys] by simp
    have "map (o_order_no \<circ> bare) ?ys = map (o_order_no \<circ> bare) (orders t)"
      using list_all2_same_key [OF ys] by (metis map_map)
    then show "distinct (map o_order_no ?ys)" using inv by (simp add: legacy_inv_def keys_inv_def bare_def comp_def)
  qed
  have only: "o_id z = o_id ord" if z: "z \<in> set ?ys" "o_key z = Some k" for z
  proof -
    obtain x where x: "x \<in> set (orders t)" "filled x z" using list_all2_from [OF ys z(1)] by blast
    then have "rightly_keyed z \<or> legacy_key z" using inv filled_fields(7) by (auto simp: legacy_inv_def)
    then have "NewActivityOrderKey (o_user z) (o_activity z) = Some k"
      using z(2) ord(2) order_key_text by (auto simp: rightly_keyed_def legacy_key_def)
    from NewActivityOrderKey_inject [OF this ord(2)] have "o_user x = o_user ord \<and> o_activity x = o_activity ord"
      using filled_fields(3,4) [OF x(2)] by simp
    moreover have "0 < o_activity ord" using ord(2) NewActivityOrderKey_None_iff by (metis gr0I option.distinct(1))
    moreover have "once_inv t" using inv by (simp add: legacy_inv_def)
    ultimately have "o_id x = o_id ord" using x(1) ord(1) unfolding once_inv_def by metis
    then show ?thesis using filled_fields(1) [OF x(2)] by simp
  qed
  show ?thesis
  proof (cases "find (\<lambda>x. o_id x = o_id ord) ?ys")
    case None
    with q show ?thesis by (simp add: set_order_key_def quiet_stmt)
  next
    case (Some y)
    let ?r = "y\<lparr>o_key := Some k, o_updated := clock (ext w) (tick w)\<rparr>"
    have "order_conflict ?ys ?r = None"
      using find_SomeD [OF Some] only distinct_key_unique [OF d(2), of _ y] by (fastforce simp: order_conflict_def)
    with Some q show ?thesis by (simp add: set_order_key_def quiet_stmt Let_def)
  qed
qed

lemma backfill_loop_ok:
  assumes "quiet (ext w)" and "legacy_inv t" and "list_all2 filled (orders t) (orders (tables w))" and "set os \<subseteq> set (orders t)"
  shows "\<exists>w'. backfill_loop os w = (Inr (), w') \<and> ext w' = ext w"
  using assms
proof (induction os arbitrary: w)
  case (Cons ord os)
  show ?case
  proof (cases "NewActivityOrderKey (o_user ord) (o_activity ord)")
    case (Some k)
    have ord: "distinct (map o_id (orders t))" "ord \<in> set (orders t)" using Cons.prems(2,4) by (simp_all add: legacy_inv_def keys_inv_def)
    obtain w1 where s: "set_order_key (o_id ord) k w = (Inr (), w1)" "ext w1 = ext w"
      using set_order_key_ok [OF Cons.prems(1-3) ord(2) Some] by blast
    from set_order_key_run [OF s(1) Cons.prems(3) ord Some] have "list_all2 filled (orders t) (orders (tables w1))" by auto
    moreover have "quiet (ext w1)" using Cons.prems(1) s(2) by simp
    ultimately obtain w2 where "backfill_loop os w1 = (Inr (), w2)" "ext w2 = ext w1"
      using Cons.IH [of w1] Cons.prems(2,4) by auto
    then show ?thesis using s Some by (simp add: bindE_def)
  qed (use Cons in auto)
qed (simp add: ret_def)

lemma migrations_ok:
  assumes q: "quiet (ext w)" and inv: "legacy_inv (tables w)"
  shows "\<exists>w'. open_migrations w = (Inr (), w')"
proof -
  let ?P = "\<lambda>r. 0 < o_activity r \<and> (o_key r = Some '''' \<or> o_key r = None)"
  have f: "find_all orders ?P w = (Inr (filter ?P (orders (tables w))), w\<lparr>tick := Suc (tick w)\<rparr>)"
    using q by (simp add: find_all_def quiet_stmt)
  obtain w1 where "backfill_loop (filter ?P (orders (tables w))) (w\<lparr>tick := Suc (tick w)\<rparr>) = (Inr (), w1)" "ext w1 = ext w"
    using backfill_loop_ok [of "w\<lparr>tick := Suc (tick w)\<rparr>" "tables w" "filter ?P (orders (tables w))"] q inv filled_self by auto
  then have "backfillActivityOrderKeys w = (Inr (), w1)" "ext w1 = ext w"
    by (simp_all add: backfillActivityOrderKeys_def bindE_def f)
  with q show ?thesis
    by (simp add: open_migrations_def bindE_def default_activity_status_def default_user_role_def quiet_stmt)
qed

end
