(* ===== verification/Shop.thy ===== *)
theory Shop
  imports OrderCreate
begin

text \<open>
  \<^verbatim>\<open>internal/service/cart.go\<close>, \<^verbatim>\<open>address.go\<close> and \<^verbatim>\<open>coupon.go\<close>: what a customer keeps beside
  the orders.  A read after the write (\<open>_ = db.Preload(..).First(..)\<close>) refreshes the row that is
  returned when it succeeds and is ignored when it fails.  \<open>return row, db.Create(&row).Error\<close> is
  the created row or the error.
\<close>

section \<open>Cart\<close>

record AddCartItemInput =
  ac_product :: nat
  ac_quantity :: int

text \<open>\<open>First(&item, item.ID)\<close> with the product preloaded; the old row when the query fails.\<close>

definition reload_cart_item :: "cart_item \<Rightarrow> (cart_item \<times> product) go" where
  "reload_cart_item item =
     bindE (attempt (first_by cart_items (\<lambda>c. ci_id c = ci_id item))) (\<lambda>r.
       case r of
         Inl _ \<Rightarrow> ret (item, zero_product)
       | Inr item' \<Rightarrow>
           bindE (attempt (preload_products [item'])) (\<lambda>q.
             ret (item', case q of Inr [(_, p)] \<Rightarrow> p | _ \<Rightarrow> zero_product)))"

definition cart_add_body :: "nat \<Rightarrow> AddCartItemInput \<Rightarrow> cart_item go" where
  "cart_add_body userID input =
     bindE (attempt (first_by cart_items (\<lambda>c. ci_user c = userID \<and> ci_product c = ac_product input))) (\<lambda>r.
       case r of
         Inr item \<Rightarrow> save_cart_item (item\<lparr>ci_quantity := wrap64 (ci_quantity item + ac_quantity input)\<rparr>)
       | Inl err \<Rightarrow>
           if err \<noteq> ErrRecordNotFound then throw err
           else create_cart_item \<lparr>ci_id = 0, ci_user = userID, ci_product = ac_product input,
                  ci_quantity = ac_quantity input, ci_created = 0, ci_updated = 0\<rparr>)"

definition cart_AddItem :: "nat \<Rightarrow> AddCartItemInput \<Rightarrow> (cart_item \<times> product) go" where
  "cart_AddItem userID input =
     (if ac_quantity input \<le> 0 then throw (ErrText ''quantity must be positive'')
      else
        bindE (on_error (first_by products (\<lambda>p. p_id p = ac_product input))
                 (\<lambda>_. throw (ErrText ''product not found''))) (\<lambda>product.
        if p_stock product < ac_quantity input
        then throw (ErrText ''product stock is not enough'')
        else bindE (transaction (cart_add_body userID input)) reload_cart_item))"

definition cart_List :: "nat \<Rightarrow> (cart_item \<times> product) list go" where
  "cart_List userID = bindE (find_desc cart_items (\<lambda>c. ci_user c = userID)) preload_products"

definition cart_UpdateQuantity :: "nat \<Rightarrow> nat \<Rightarrow> int \<Rightarrow> (cart_item \<times> product) go" where
  "cart_UpdateQuantity userID itemID quantity =
     (if quantity \<le> 0 then throw (ErrText ''quantity must be positive'')
      else
        bindE (on_error (first_by cart_items (\<lambda>c. ci_id c = itemID \<and> ci_user c = userID))
                 (\<lambda>_. throw (ErrText ''cart item not found''))) (\<lambda>item.
        bindE (save_cart_item (item\<lparr>ci_quantity := quantity\<rparr>)) reload_cart_item))"

definition cart_DeleteItem :: "nat \<Rightarrow> nat \<Rightarrow> unit go" where
  "cart_DeleteItem userID itemID = delete_cart_items (\<lambda>c. ci_id c = itemID \<and> ci_user c = userID)"

section \<open>Addresses\<close>

record CreateAddressInput =
  na_receiver :: string
  na_phone :: string
  na_province :: string
  na_city :: string
  na_detail :: string
  na_default :: bool

definition address_create_body :: "nat \<Rightarrow> CreateAddressInput \<Rightarrow> address go" where
  "address_create_body userID input =
     thenE (if na_default input then clear_default_addresses userID else ret ())
       (create_address \<lparr>ad_id = 0, ad_user = userID, ad_receiver = na_receiver input,
          ad_phone = na_phone input, ad_province = na_province input, ad_city = na_city input,
          ad_detail = na_detail input, ad_default = na_default input, ad_created = 0, ad_updated = 0\<rparr>)"

definition address_Create :: "nat \<Rightarrow> CreateAddressInput \<Rightarrow> address go" where
  "address_Create userID input = transaction (address_create_body userID input)"

text \<open>\<open>Order("is_default desc, id desc")\<close>.\<close>

definition address_List :: "nat \<Rightarrow> address list go" where
  "address_List userID =
     bindE (find_desc addresses (\<lambda>a. ad_user a = userID)) (\<lambda>as.
     ret (filter ad_default as @ filter (\<lambda>a. \<not> ad_default a) as))"

definition set_default_body :: "nat \<Rightarrow> nat \<Rightarrow> address go" where
  "set_default_body userID addressID =
     bindE (on_error (first_by addresses (\<lambda>a. ad_id a = addressID \<and> ad_user a = userID))
              (\<lambda>_. throw (ErrText ''address not found''))) (\<lambda>addr.
     thenE (clear_default_addresses userID)
       (save_address (addr\<lparr>ad_default := True\<rparr>)))"

definition address_SetDefault :: "nat \<Rightarrow> nat \<Rightarrow> address go" where
  "address_SetDefault userID addressID = transaction (set_default_body userID addressID)"

section \<open>Coupons\<close>

record CreateCouponInput =
  nc_title :: string
  nc_threshold :: int
  nc_discount :: int
  nc_stock :: int
  nc_duration :: int

definition coupon_Create :: "CreateCouponInput \<Rightarrow> coupon go" where
  "coupon_Create input =
     (if nc_discount input \<le> 0 \<or> nc_stock input \<le> 0
      then throw (ErrText ''discount and stock must be positive'')
      else
        (let duration = (if nc_duration input \<le> 0 then 7 * 24 * 3600 else nc_duration input) in
         bindE time_now (\<lambda>now.
         create_coupon \<lparr>c_id = 0, c_title = nc_title input, c_threshold = nc_threshold input,
           c_discount = nc_discount input, c_stock = nc_stock input, c_start = now,
           c_end = now + seconds_duration duration, c_created = 0, c_updated = 0\<rparr>)))"

definition coupon_List :: "coupon list go" where
  "coupon_List = find_desc coupons (\<lambda>_. True)"

definition claim_body :: "nat \<Rightarrow> nat \<Rightarrow> user_coupon go" where
  "claim_body userID couponID =
     bindE (on_error (first_by coupons (\<lambda>c. c_id c = couponID))
              (\<lambda>_. throw (ErrText ''coupon not found''))) (\<lambda>coupon.
     bindE time_now (\<lambda>now.
     thenE (guardE (\<not> (time_before now (c_start coupon) \<or> time_after now (c_end coupon)))
              (ErrText ''coupon is not active''))
    (thenE (guardE (0 < c_stock coupon) (ErrText ''coupon sold out''))
    (bindE (count_by user_coupons (\<lambda>u. uc_user u = userID \<and> uc_coupon u = couponID)) (\<lambda>count.
     thenE (guardE (count = 0) (ErrText ''coupon already claimed''))
    (thenE (save_coupon (coupon\<lparr>c_stock := wrap64 (c_stock coupon - 1)\<rparr>))
       (create_user_coupon \<lparr>uc_id = 0, uc_user = userID, uc_coupon = couponID,
          uc_status = UserCouponUnused, uc_created = 0, uc_updated = 0\<rparr>)))))))"

definition coupon_Claim :: "nat \<Rightarrow> nat \<Rightarrow> (user_coupon \<times> coupon) go" where
  "coupon_Claim userID couponID =
     bindE (transaction (claim_body userID couponID)) (\<lambda>uc.
     bindE (attempt (first_by user_coupons (\<lambda>u. uc_id u = uc_id uc))) (\<lambda>r.
       case r of
         Inl _ \<Rightarrow> ret (uc, zero_coupon)
       | Inr uc' \<Rightarrow>
           bindE (attempt (preload_coupon uc')) (\<lambda>q.
             ret (uc', case q of Inr c \<Rightarrow> c | Inl _ \<Rightarrow> zero_coupon))))"

definition preload_coupons :: "user_coupon list \<Rightarrow> (user_coupon \<times> coupon) list go" where
  "preload_coupons ucs =
     (if ucs = [] then ret []
      else stmt (\<lambda>_ _ t. Inr (map (\<lambda>u. (u, case find (\<lambda>c. c_id c = uc_coupon u) (coupons t) of
                                         Some c \<Rightarrow> c | None \<Rightarrow> zero_coupon)) ucs, t)))"

definition coupon_MyCoupons :: "nat \<Rightarrow> (user_coupon \<times> coupon) list go" where
  "coupon_MyCoupons userID =
     bindE (find_desc user_coupons (\<lambda>u. uc_user u = userID)) preload_coupons"

end
