(* ===== verification/Sha256.thy ===== *)
theory Sha256
  imports Prelude "HOL-Library.Word"
begin

text \<open>
  The SHA-256 of Go's \<open>crypto/sha256\<close> (FIPS 180-4) on byte strings, as \<open>hashPassword\<close> uses it:
  32-bit words, padding, message schedule and compression.
\<close>

unbundle bit_operations_syntax

type_synonym w32 = "32 word"

definition round_constants :: "w32 list" where
  "round_constants =
    [1116352408, 1899447441, 3049323471, 3921009573, 961987163, 1508970993, 2453635748, 2870763221,
     3624381080, 310598401, 607225278, 1426881987, 1925078388, 2162078206, 2614888103, 3248222580,
     3835390401, 4022224774, 264347078, 604807628, 770255983, 1249150122, 1555081692, 1996064986,
     2554220882, 2821834349, 2952996808, 3210313671, 3336571891, 3584528711, 113926993, 338241895,
     666307205, 773529912, 1294757372, 1396182291, 1695183700, 1986661051, 2177026350, 2456956037,
     2730485921, 2820302411, 3259730800, 3345764771, 3516065817, 3600352804, 4094571909, 275423344,
     430227734, 506948616, 659060556, 883997877, 958139571, 1322822218, 1537002063, 1747873779,
     1955562222, 2024104815, 2227730452, 2361852424, 2428436474, 2756734187, 3204031479, 3329325298]"

definition initial_hash :: "w32 list" where
  "initial_hash =
    [1779033703, 3144134277, 1013904242, 2773480762, 1359893119, 2600822924, 528734635, 1541459225]"

definition rotr :: "nat \<Rightarrow> w32 \<Rightarrow> w32" where
  "rotr n x = word_rotr n x"

definition big_endian :: "nat \<Rightarrow> nat \<Rightarrow> nat list" where
  "big_endian k n = map (\<lambda>i. n div 256 ^ (k - 1 - i) mod 256) [0..<k]"

definition sha_pad :: "nat list \<Rightarrow> nat list" where
  "sha_pad bs =
     (let l = length bs; z = (119 - l mod 64) mod 64 in
      bs @ [128] @ replicate z 0 @ big_endian 8 (8 * l))"

fun chunks :: "nat \<Rightarrow> 'a list \<Rightarrow> 'a list list" where
  "chunks n [] = []"
| "chunks 0 (x # xs) = []"
| "chunks (Suc n) (x # xs) = take (Suc n) (x # xs) # chunks (Suc n) (drop n xs)"

definition word_of_bytes :: "nat list \<Rightarrow> w32" where
  "word_of_bytes bs = word_of_nat (foldl (\<lambda>a b. 256 * a + b) 0 bs)"

definition schedule_word :: "w32 list \<Rightarrow> w32" where
  "schedule_word ws =
     (let n = length ws; w15 = ws ! (n - 15); w2 = ws ! (n - 2) in
      ws ! (n - 16) + (rotr 7 w15 XOR rotr 18 w15 XOR drop_bit 3 w15) + ws ! (n - 7) +
      (rotr 17 w2 XOR rotr 19 w2 XOR drop_bit 10 w2))"

definition message_schedule :: "w32 list \<Rightarrow> w32 list" where
  "message_schedule block = ((\<lambda>ws. ws @ [schedule_word ws]) ^^ 48) block"

definition sha_round :: "w32 list \<Rightarrow> w32 \<times> w32 \<Rightarrow> w32 list" where
  "sha_round st kw =
     (case st of
        [a, b, c, d, e, f, g, h] \<Rightarrow>
          (let t1 = h + (rotr 6 e XOR rotr 11 e XOR rotr 25 e) + ((e AND f) XOR (NOT e AND g)) + fst kw + snd kw;
               t2 = (rotr 2 a XOR rotr 13 a XOR rotr 22 a) + ((a AND b) XOR (a AND c) XOR (b AND c)) in
           [t1 + t2, a, b, c, d + t1, e, f, g])
      | _ \<Rightarrow> st)"

definition sha_block :: "w32 list \<Rightarrow> w32 list \<Rightarrow> w32 list" where
  "sha_block h block =
     map2 (+) h (foldl sha_round h (zip round_constants (message_schedule block)))"

definition sha256 :: "nat list \<Rightarrow> nat list" where
  "sha256 bs =
     concat (map (\<lambda>w. big_endian 4 (unat w))
       (foldl sha_block initial_hash (map (\<lambda>c. map word_of_bytes (chunks 4 c)) (chunks 64 (sha_pad bs)))))"

lemma sha_round_length: "length st = 8 \<Longrightarrow> length (sha_round st kw) = 8"
  by (auto simp: sha_round_def Let_def split: list.splits)

lemma sha_block_length:
  assumes "length h = 8" shows "length (sha_block h b) = 8"
proof -
  have "length (foldl sha_round st ks) = 8" if "length st = 8" for st ks
    using that by (induction ks arbitrary: st) (simp_all add: sha_round_length)
  with assms show ?thesis by (simp add: sha_block_def)
qed

lemma pad_fill: "m < 64 \<Longrightarrow> m + 9 + (119 - m) mod 64 = (if m \<le> 55 then 64 else (128::nat))"
proof (cases "m \<le> 55")
  case True
  then have "119 - m = (55 - m) + 64" by simp
  then have "(119 - m) mod 64 = (55 - m) mod 64" by (simp only: mod_add_self2)
  moreover have "(55 - m) mod 64 = 55 - m" by (rule mod_less) simp
  ultimately have "(119 - m) mod 64 = 55 - m" by (rule trans)
  with True show ?thesis by (simp only: if_True)
next
  case False
  assume "m < 64"
  moreover from False have "(119 - m) mod 64 = 119 - m" by (intro mod_less) simp
  ultimately show ?thesis using False by simp
qed

lemma sha_pad_blocks: "64 dvd length (sha_pad bs)"
proof -
  let ?m = "length bs mod 64"
  have "length (sha_pad bs) = length bs + 9 + (119 - ?m) mod 64"
    by (simp only: sha_pad_def Let_def big_endian_def length_append length_map length_upt length_replicate list.size)
  also have "\<dots> = 64 * (length bs div 64) + (?m + 9 + (119 - ?m) mod 64)"
    using mult_div_mod_eq [of 64 "length bs"] by linarith
  also have "?m + 9 + (119 - ?m) mod 64 = (if ?m \<le> 55 then 64 else 128)"
    by (rule pad_fill) simp
  finally have "length (sha_pad bs) = 64 * (length bs div 64 + (if ?m \<le> 55 then 1 else 2))" by simp
  then show ?thesis by (rule dvdI)
qed

lemma sha256_length: "length (sha256 bs) = 32"
proof -
  have "length (foldl sha_block h bl) = 8" if "length h = 8" for h bl
    using that by (induction bl arbitrary: h) (simp_all add: sha_block_length)
  then have "length (foldl sha_block initial_hash bl) = 8" for bl
    by (simp add: initial_hash_def)
  then show ?thesis
    by (simp add: sha256_def length_concat comp_def big_endian_def sum_list_triv)
qed

lemma sha256_bytes: "b \<in> set (sha256 bs) \<Longrightarrow> b < 256"
  by (auto simp: sha256_def big_endian_def)

end
