(* ===== verification/Accounts.thy ===== *)
theory Accounts
  imports OrderCreate Sha256
begin

text \<open>
  \<^verbatim>\<open>internal/service/auth.go\<close>: accounts and tokens.  The signing of a JSON web token
  is the package \<^verbatim>\<open>golang-jwt\<close>, a parameter: \<open>sign secret claims\<close> is the text of the token or an
  error.  The times in the claims are those handed to \<open>jwt.NewNumericDate\<close>.
\<close>

record Claims =
  cl_user :: nat
  cl_role :: string
  cl_expires :: instant
  cl_issued :: instant

type_synonym signer = "string \<Rightarrow> Claims \<Rightarrow> goerr + string"

record AuthService =
  as_secret :: string
  as_sign :: signer

definition hashPassword :: "string \<Rightarrow> string" where
  "hashPassword password = hex_text (sha256 (map of_char (''order-lab:'' @ password)))"

definition token_role :: "string \<Rightarrow> string" where
  "token_role role = (if IsValidUserRole role then role else UserRoleUser)"

definition signToken :: "AuthService \<Rightarrow> user \<Rightarrow> string go" where
  "signToken s u =
     bindE time_now (\<lambda>now1.
     bindE time_now (\<lambda>now2.
     case as_sign s (as_secret s)
       \<lparr>cl_user = u_id u, cl_role = token_role (u_role u),
        cl_expires = now1 + 24 * go_hour, cl_issued = now2\<rparr> of
       Inl e \<Rightarrow> throw e
     | Inr token \<Rightarrow> ret token))"

definition new_user :: "string \<Rightarrow> string \<Rightarrow> string \<Rightarrow> user" where
  "new_user username password role =
     \<lparr>u_id = 0, u_username = username, u_password_hash = hashPassword password, u_role = role,
      u_created = 0, u_updated = 0\<rparr>"

definition auth_Register :: "AuthService \<Rightarrow> string \<Rightarrow> string \<Rightarrow> (user \<times> string) go" where
  "auth_Register s username password =
     (if username = '''' \<or> length password < 6
      then throw (ErrText ''username and password length >= 6 are required'')
      else
        bindE (create_user (new_user username password UserRoleUser)) (\<lambda>u.
        bindE (signToken s u) (\<lambda>token. ret (u, token))))"

definition auth_Login :: "AuthService \<Rightarrow> string \<Rightarrow> string \<Rightarrow> (user \<times> string) go" where
  "auth_Login s username password =
     bindE (on_error (first_by users (\<lambda>u. u_username u = username))
              (\<lambda>_. throw (ErrText ''invalid username or password''))) (\<lambda>u.
     thenE (guardE (u_password_hash u = hashPassword password) (ErrText ''invalid username or password''))
    (let u' = (if IsValidUserRole (u_role u) then u else u\<lparr>u_role := UserRoleUser\<rparr>) in
     bindE (signToken s u') (\<lambda>token. ret (u', token))))"

definition auth_EnsureAdmin :: "string \<Rightarrow> string \<Rightarrow> user go" where
  "auth_EnsureAdmin username password =
     (if username = '''' \<or> length password < 6
      then throw (ErrText ''admin username and password length >= 6 are required'')
      else
        bindE (attempt (first_by users (\<lambda>u. u_username u = username))) (\<lambda>r.
          case r of
            Inl err \<Rightarrow>
              if err = ErrRecordNotFound then create_user (new_user username password UserRoleAdmin)
              else throw err
          | Inr u \<Rightarrow> save_user (u\<lparr>u_password_hash := hashPassword password, u_role := UserRoleAdmin\<rparr>)))"

end
