(* ===== verification/Admin.thy ===== *)
theory Admin
  imports Store
begin

text \<open>
  \<^verbatim>\<open>internal/service/admin.go\<close>: the overview and the filtered order list of the administration.
\<close>

record AdminOverview =
  ov_users :: nat
  ov_products :: nat
  ov_activities :: nat
  ov_orders :: nat
  ov_queued :: nat
  ov_wait_pay :: nat
  ov_paid :: nat
  ov_cancelled :: nat
  ov_closed :: nat
  ov_paid_gmv :: int
  ov_product_stock :: int
  ov_activity_stock :: int
  ov_failed_logs :: nat
  ov_recent_failures :: "operation_log list"

record AdminOrderQuery =
  aq_status :: string
  aq_user :: nat
  aq_activity :: nat
  aq_limit :: int

record AdminOrderList =
  al_total :: nat
  al_items :: "order list"

definition countOrdersByStatus :: "string \<Rightarrow> nat go" where
  "countOrdersByStatus status = count_by orders (\<lambda>r. o_status r = status)"

text \<open>\<open>SELECT COALESCE(SUM(col), 0)\<close> read into an \<open>int64\<close>: a sum that does not fit is an error.\<close>

definition sum_by :: "(tables \<Rightarrow> 'r list) \<Rightarrow> ('r \<Rightarrow> bool) \<Rightarrow> ('r \<Rightarrow> int) \<Rightarrow> int go" where
  "sum_by sel P col = stmt (\<lambda>e _ t.
     let s = sum_list (map col (filter P (sel t))) in
     if in_i64 s then Inr (s, t) else Inl (Ext (DriverError ''integer overflow'')))"

definition admin_Overview :: "AdminOverview go" where
  "admin_Overview =
     bindE (count_by users (\<lambda>_. True)) (\<lambda>us.
     bindE (count_by products (\<lambda>_. True)) (\<lambda>ps.
     bindE (count_by activities (\<lambda>_. True)) (\<lambda>as.
     bindE (count_by orders (\<lambda>_. True)) (\<lambda>total.
     bindE (countOrdersByStatus OrderStatusQueued) (\<lambda>queued.
     bindE (countOrdersByStatus OrderStatusWaitPay) (\<lambda>waitPay.
     bindE (countOrdersByStatus OrderStatusPaid) (\<lambda>paid.
     bindE (countOrdersByStatus OrderStatusCancelled) (\<lambda>cancelled.
     bindE (countOrdersByStatus OrderStatusClosed) (\<lambda>closed.
     bindE (sum_by orders (\<lambda>r. o_status r = OrderStatusPaid) o_amount) (\<lambda>gmv.
     bindE (sum_by products (\<lambda>_. True) p_stock) (\<lambda>pstock.
     bindE (sum_by activities (\<lambda>_. True) a_stock) (\<lambda>astock.
     bindE (count_by operation_logs (\<lambda>l. l_result l = ''failed'')) (\<lambda>failed.
     bindE (find_desc operation_logs (\<lambda>l. l_result l = ''failed'')) (\<lambda>recent.
     ret \<lparr>ov_users = us, ov_products = ps, ov_activities = as, ov_orders = total, ov_queued = queued,
          ov_wait_pay = waitPay, ov_paid = paid, ov_cancelled = cancelled, ov_closed = closed,
          ov_paid_gmv = gmv, ov_product_stock = pstock, ov_activity_stock = astock,
          ov_failed_logs = failed, ov_recent_failures = take 5 recent\<rparr>))))))))))))))"

definition admin_limit :: "int \<Rightarrow> int" where
  "admin_limit limit = (if limit \<le> 0 \<or> 100 < limit then 20 else limit)"

definition admin_match :: "AdminOrderQuery \<Rightarrow> order \<Rightarrow> bool" where
  "admin_match q r \<longleftrightarrow> (aq_status q \<noteq> '''' \<longrightarrow> o_status r = aq_status q) \<and>
     (0 < aq_user q \<longrightarrow> o_user r = aq_user q) \<and> (0 < aq_activity q \<longrightarrow> o_activity r = aq_activity q)"

definition admin_ListOrders :: "AdminOrderQuery \<Rightarrow> AdminOrderList go" where
  "admin_ListOrders q =
     bindE (count_by orders (admin_match q)) (\<lambda>total.
     bindE (find_desc orders (admin_match q)) (\<lambda>rows.
     ret \<lparr>al_total = total, al_items = take (nat (admin_limit (aq_limit q))) rows\<rparr>))"

end
