(* ===== verification/Workers.thy ===== *)
theory Workers
  imports OrderLife
begin

text \<open>
  The background goroutines of \<^verbatim>\<open>internal/service/order.go\<close>: the consumers of the RabbitMQ
  queue, the workers of the in-process channel and the compensation worker.  Each is a loop; the
  theory holds one turn of each loop.  A delivery is settled by \<open>Ack\<close> or \<open>Nack\<close>; the reply of that
  call is dropped by the code, and when the call is lost the broker delivers the message again.
  \<open>done\<close> is the error of a context that has ended.
\<close>

section \<open>Consumers of the queue\<close>

datatype verdict = Ack | NackDrop | NackRequeue

definition context_error :: "goerr \<Rightarrow> bool" where
  "context_error err \<longleftrightarrow> err = Ext CtxCanceled \<or> err = Ext CtxDeadlineExceeded"

definition handleRabbitOrderFailure :: "OrderService \<Rightarrow> RabbitOrderMessage \<Rightarrow> goerr \<Rightarrow> bool go" where
  "handleRabbitOrderFailure s msg processErr =
     (if rm_retry msg < os_max_retries s then
        (let next = msg\<lparr>rm_retry := wrap64 (rm_retry msg + 1)\<rparr> in
         bindE (attempt (rabbit_PublishRetry next)) (\<lambda>r.
           case r of
             Inl err \<Rightarrow>
               thenE (log_op ''order_task_retry_failed'' (rm_order_no msg) 0 ''failed'' (err_text err)) (ret False)
           | Inr _ \<Rightarrow>
               thenE (log_op ''order_task_retry'' (rm_order_no msg) 0 ''success''
                        (''retry='' @ itoa (rm_retry next) @ '' reason='' @ err_text processErr)) (ret True)))
      else
        bindE (attempt (rabbit_PublishDeadLetter msg (err_text processErr))) (\<lambda>r.
          case r of
            Inl err \<Rightarrow>
              thenE (log_op ''order_task_dead_letter_failed'' (rm_order_no msg) 0 ''failed'' (err_text err)) (ret False)
          | Inr _ \<Rightarrow>
              thenE (log_op ''order_task_dead_letter'' (rm_order_no msg) 0 ''failed''
                       (''retry='' @ itoa (rm_retry msg) @ '' reason='' @ err_text processErr)) (ret True)))"

text \<open>The value says how the delivery is settled and whether the goroutine goes on.\<close>

definition process_delivery ::
  "OrderService \<Rightarrow> ext_error option \<Rightarrow> nat \<Rightarrow> string \<Rightarrow> (verdict \<times> bool) go" where
  "process_delivery s done workerID body =
     (case decodeRabbitOrderMessage body of
        Inl err \<Rightarrow>
          thenE (log_op ''order_task_decode_failed'' '''' 0 ''failed'' (err_text err)) (ret (NackDrop, True))
      | Inr msg \<Rightarrow>
          bindE (attempt (processOrderCreated done workerID (rm_order_no msg))) (\<lambda>r.
            case r of
              Inr _ \<Rightarrow> ret (Ack, True)
            | Inl err \<Rightarrow>
                if context_error err then ret (NackRequeue, False)
                else bindE (handleRabbitOrderFailure s msg err) (\<lambda>handled.
                       ret (if handled then Ack else NackRequeue, True))))"

definition settle :: "string \<Rightarrow> verdict \<Rightarrow> unit go" where
  "settle body v = (\<lambda>w.
     let lost = (fault (ext w) (tick w) \<noteq> None \<and> \<not> landed (ext w) (tick w)); w' = w\<lparr>tick := Suc (tick w)\<rparr> in
     (Inr (), if lost \<or> v = NackRequeue then w'\<lparr>mq := body # mq w'\<rparr> else w'))"

text \<open>
  One turn of a consumer.  \<open>select\<close> picks any ready case: with \<open>stop\<close> it picks the ended context
  (\<open>done\<close>), and it has no other choice when no delivery is there.
\<close>

definition rabbit_worker_turn :: "OrderService \<Rightarrow> bool \<Rightarrow> ext_error option \<Rightarrow> nat \<Rightarrow> bool go" where
  "rabbit_worker_turn s stop done workerID = (\<lambda>w.
     case (if stop \<or> mq w = [] then done else None) of
       Some e \<Rightarrow> thenE (log_op ''rabbitmq_worker_stopped'' '''' 0 ''success''
         (''worker='' @ utoa workerID @ '' reason='' @ err_text (Ext e))) (ret False) w
     | None \<Rightarrow>
         (case mq w of
            [] \<Rightarrow> (Inr True, w)
          | body # rest \<Rightarrow>
              bindE (process_delivery s done workerID body) (\<lambda>(v, on).
                thenE (settle body v) (ret on)) (w\<lparr>mq := rest\<rparr>)))"

section \<open>Workers of the channel\<close>

definition worker_turn :: "bool \<Rightarrow> ext_error option \<Rightarrow> nat \<Rightarrow> bool go" where
  "worker_turn stop done workerID = (\<lambda>w.
     case (if stop \<or> tasks w = [] then done else None) of
       Some e \<Rightarrow> thenE (log_op ''order_worker_stopped'' '''' 0 ''success''
         (''worker='' @ utoa workerID @ '' reason='' @ err_text (Ext e))) (ret False) w
     | None \<Rightarrow>
         (case tasks w of
            [] \<Rightarrow> (Inr True, w)
          | orderNo # rest \<Rightarrow>
              bindE (attempt (processOrderCreated done workerID orderNo)) (\<lambda>r.
                ret (case r of Inl err \<Rightarrow> \<not> context_error err | Inr _ \<Rightarrow> True)) (w\<lparr>tasks := rest\<rparr>)))"

section \<open>The compensation worker\<close>

record CompensationWorkerConfig =
  wc_enabled :: bool
  wc_interval :: int
  wc_queued_timeout :: int
  wc_pay_timeout :: int

definition worker_config :: "CompensationWorkerConfig \<Rightarrow> CompensationWorkerConfig" where
  "worker_config cfg = cfg\<lparr>
     wc_interval := (if wc_interval cfg \<le> 0 then 60 else wc_interval cfg),
     wc_queued_timeout := (if wc_queued_timeout cfg < 0 then 0 else wc_queued_timeout cfg),
     wc_pay_timeout := (if wc_pay_timeout cfg < 0 then 0 else wc_pay_timeout cfg)\<rparr>"

definition StartCompensationWorkerContext :: "CompensationWorkerConfig \<Rightarrow> CompensationWorkerConfig option go" where
  "StartCompensationWorkerContext cfg0 =
     (if \<not> wc_enabled cfg0 then ret None
      else
        (let cfg = worker_config cfg0 in
         thenE (log_op ''compensation_worker_started'' '''' 0 ''success''
                  (''interval='' @ itoa (wc_interval cfg) @ ''s queued_timeout='' @ itoa (wc_queued_timeout cfg) @
                   ''s pay_timeout='' @ itoa (wc_pay_timeout cfg) @ ''s''))
           (ret (Some cfg))))"

text \<open>
  One turn of the compensation worker, which runs when the ticker has fired or the context has ended.
  When both are the case \<open>select\<close> may take either: \<open>stop\<close> says it takes the ended context.
\<close>

definition compensation_turn :: "OrderService \<Rightarrow> bool \<Rightarrow> CompensationWorkerConfig \<Rightarrow> ext_error option \<Rightarrow> bool go" where
  "compensation_turn s stop cfg done =
     (case (if stop then done else None) of
        Some e \<Rightarrow>
          thenE (log_op ''compensation_worker_stopped'' '''' 0 ''success'' (err_text (Ext e))) (ret False)
      | None \<Rightarrow>
          bindE (attempt (Compensate s (wc_queued_timeout cfg) (wc_pay_timeout cfg))) (\<lambda>r.
            case r of
              Inl err \<Rightarrow> thenE (log_op ''compensation_worker'' '''' 0 ''failed'' (err_text err)) (ret True)
            | Inr result \<Rightarrow>
                thenE (log_op ''compensation_worker'' '''' 0 ''success''
                         (''requeued='' @ itoa (cm_requeued result) @ '' closed='' @ itoa (cm_closed result) @
                          '' ended='' @ itoa (cm_ended result) @ '' failed='' @ itoa (cm_failed result))) (ret True)))"

end
