(* ===== verification/System.thy ===== *)
theory System
  imports Migration Shop Accounts Admin Workers
begin

text \<open>
  The whole service as a transition system: any operation of any service, any turn of a worker, in
  any order, with any inputs and any outcome of the outside calls.  The operations on carts,
  addresses, coupons and accounts stay within their own tables; with the refinement of the order
  operations every reachable state satisfies the invariant of the ledger.
\<close>

section \<open>Operations on the tables of a customer\<close>

definition sides :: "tables \<Rightarrow> tables \<Rightarrow> bool" where
  "sides t t' \<longleftrightarrow> t' = t\<lparr>users := users t', addresses := addresses t', cart_items := cart_items t',
     coupons := coupons t', user_coupons := user_coupons t'\<rparr>"

interpretation side: table_preorder sides
proof
  fix t1 t2 t3
  show "sides t1 t1" by (simp add: sides_def)
  assume "sides t1 t2" "sides t2 t3"
  then show "sides t1 t3" by (cases t1, cases t2, cases t3) (simp add: sides_def)
qed

lemma obeys_sides: "tracks sides m \<Longrightarrow> tracks obeys m"
  unfolding tracks_def sides_def by (metis obeys_ev ev_side)

lemma side_statements:
  "tracks sides (first_by sel P)" "tracks sides (find_all sel' P')" "tracks sides (find_desc sel'' P'')"
  "tracks sides (count_by sel3 P3)"
  "tracks sides (create_user u)" "tracks sides (save_user u)" "tracks sides (create_address a)"
  "tracks sides (save_address a)" "tracks sides (clear_default_addresses n)"
  "tracks sides (create_cart_item c)" "tracks sides (save_cart_item c)" "tracks sides (delete_cart_items Q)"
  "tracks sides (create_coupon k)" "tracks sides (save_coupon k)"
  "tracks sides (create_user_coupon x)" "tracks sides (save_user_coupon x)"
  "tracks sides (preload_products items)" "tracks sides (preload_coupon x)" "tracks sides (preload_coupons xs)"
  by (auto simp: first_by_def find_all_def find_desc_def count_by_def create_user_def save_user_def
      create_address_def save_address_def clear_default_addresses_def create_cart_item_def
      save_cart_item_def delete_cart_items_def create_coupon_def save_coupon_def create_user_coupon_def
      save_user_coupon_def preload_products_def preload_coupon_def preload_coupons_def sides_def Let_def
      split: option.splits intro!: side.tracks_stmt side.tracks_ret)

lemma side_transaction: "tracks sides m \<Longrightarrow> tracks sides (transaction m)"
  by (rule side.tracks_transaction) (rule tracksD)

lemma side_case_sum:
  "(\<And>a. tracks sides (f a)) \<Longrightarrow> (\<And>b. tracks sides (g b)) \<Longrightarrow> tracks sides (case r of Inl a \<Rightarrow> f a | Inr b \<Rightarrow> g b)"
  by (cases r) auto

lemma side_if: "tracks sides m \<Longrightarrow> tracks sides n \<Longrightarrow> tracks sides (if b then m else n)"
  by simp

lemmas side_intros = side.tracks_basic side_statements side.tracks_bindE side.tracks_on_error side.tracks_attempt
  side_transaction side_case_sum side_if

lemma side_reload: "tracks sides (reload_cart_item i)"
  unfolding reload_cart_item_def by (intro side_intros)

lemma side_sign: "tracks sides (signToken s u)"
  unfolding signToken_def by (intro side_intros)

lemmas customer_defs = cart_AddItem_def cart_add_body_def cart_List_def cart_UpdateQuantity_def cart_DeleteItem_def
  address_Create_def address_create_body_def address_List_def address_SetDefault_def set_default_body_def
  coupon_Create_def coupon_List_def coupon_Claim_def claim_body_def coupon_MyCoupons_def
  auth_Register_def auth_Login_def auth_EnsureAdmin_def Let_def

lemma customer_sides:
  "tracks sides (cart_AddItem u i)" "tracks sides (cart_List u)" "tracks sides (cart_UpdateQuantity u k q)"
  "tracks sides (cart_DeleteItem u k)" "tracks sides (address_Create u a)" "tracks sides (address_List u)"
  "tracks sides (address_SetDefault u k)" "tracks sides (coupon_Create c)" "tracks sides coupon_List"
  "tracks sides (coupon_Claim u k)" "tracks sides (coupon_MyCoupons u)"
  "tracks sides (auth_Register s n p)" "tracks sides (auth_Login s n p)" "tracks sides (auth_EnsureAdmin n p)"
  unfolding customer_defs by (intro side_intros side_reload side_sign)+

section \<open>Turns of the workers\<close>

lemma obeys_failure: "tracks obeys (handleRabbitOrderFailure s msg err)"
  unfolding handleRabbitOrderFailure_def rabbit_PublishRetry_def Let_def
proof (intro obeys_intros)
  show "tracks obeys (rabbit_PublishDeadLetter msg x)" for x
    unfolding rabbit_PublishDeadLetter_def
    by (rule ledger.tracks_bindE [OF ledger.tracks_time_now], rule tracksI)
       (auto dest!: tracksD [OF ledger.tracks_broker])
qed

lemma obeys_settle: "tracks obeys (settle b v)"
  by (rule tracksI) (auto simp: settle_def Let_def obeys_same split: if_splits)

lemma obeys_delivery: "tracks obeys (process_delivery s d n b)"
  unfolding process_delivery_def
  by (auto split: sum.splits intro!: obeys_intros obeys_processOrderCreated obeys_failure)

lemma obeys_queue_turn:
  assumes "\<And>x w. tables (f x w) = tables w" and "\<And>b. tracks obeys (k b)"
    and "\<And>e. tracks obeys (stopped e)"
  shows "tracks obeys (\<lambda>w. case (if p w then d else None) of Some e \<Rightarrow> stopped e w
     | None \<Rightarrow> (case q w of [] \<Rightarrow> (Inr True, w) | b # rest \<Rightarrow> k b (f rest w)))"
proof (rule tracksI)
  fix w r w'
  assume "(case (if p w then d else None) of Some e \<Rightarrow> stopped e w
     | None \<Rightarrow> (case q w of [] \<Rightarrow> (Inr True, w) | b # rest \<Rightarrow> k b (f rest w))) = (r, w')"
  then show "obeys (tables w) (tables w')"
    using assms by (auto simp: obeys_same split: option.splits list.splits if_splits dest: tracksD)
      (metis tracksD)+
qed

lemma obeys_rabbit_turn: "tracks obeys (rabbit_worker_turn s st d n)"
  unfolding rabbit_worker_turn_def
  by (rule obeys_queue_turn [where f = "\<lambda>rest w. w\<lparr>mq := rest\<rparr>"])
     (auto intro!: obeys_intros obeys_delivery obeys_settle)

lemma obeys_worker_turn: "tracks obeys (worker_turn st d n)"
  unfolding worker_turn_def
  by (rule obeys_queue_turn [where f = "\<lambda>rest w. w\<lparr>tasks := rest\<rparr>"])
     (auto intro!: obeys_intros obeys_processOrderCreated)

lemma obeys_compensation_turn: "tracks obeys (compensation_turn s stop cfg d)"
  unfolding compensation_turn_def
  by (auto split: option.splits intro!: obeys_intros obeys_Compensate)

section \<open>The system\<close>

record deployment =
  dp_orders :: OrderService
  dp_auth :: AuthService

inductive svc_step :: "deployment \<Rightarrow> world \<Rightarrow> world \<Rightarrow> bool" for d :: deployment where
  s_create: "CreateOrderContext (dp_orders d) c u i w = (r, w') \<Longrightarrow> svc_step d w w'"
| s_checkout: "CheckoutCart u k w = (r, w') \<Longrightarrow> svc_step d w w'"
| s_cancel: "CancelOrder (dp_orders d) u no w = (r, w') \<Longrightarrow> svc_step d w w'"
| s_expire: "ExpireOrders (dp_orders d) n w = (r, w') \<Longrightarrow> svc_step d w w'"
| s_compensate: "Compensate (dp_orders d) q p w = (r, w') \<Longrightarrow> svc_step d w w'"
| s_reconcile: "ReconcileStock (dp_orders d) a b w = (r, w') \<Longrightarrow> svc_step d w w'"
| s_payment: "PaymentCallback pay w = (r, w') \<Longrightarrow> svc_step d w w'"
| s_product: "in_i64 (cp_stock pi) \<Longrightarrow> CreateProduct pi w = (r, w') \<Longrightarrow> svc_step d w w'"
| s_activity: "in_i64 (ca_stock ai) \<Longrightarrow> CreateActivity (os_cache (dp_orders d)) ai w = (r, w') \<Longrightarrow> svc_step d w w'"
| s_status: "UpdateActivityStatus a st w = (r, w') \<Longrightarrow> svc_step d w w'"
| s_cart_add: "cart_AddItem u ci w = (r, w') \<Longrightarrow> svc_step d w w'"
| s_cart_update: "cart_UpdateQuantity u k q w = (r, w') \<Longrightarrow> svc_step d w w'"
| s_cart_delete: "cart_DeleteItem u k w = (r, w') \<Longrightarrow> svc_step d w w'"
| s_address: "address_Create u ad w = (r, w') \<Longrightarrow> svc_step d w w'"
| s_default: "address_SetDefault u k w = (r, w') \<Longrightarrow> svc_step d w w'"
| s_coupon: "coupon_Create co w = (r, w') \<Longrightarrow> svc_step d w w'"
| s_claim: "coupon_Claim u k w = (r, w') \<Longrightarrow> svc_step d w w'"
| s_register: "auth_Register (dp_auth d) name pw w = (r, w') \<Longrightarrow> svc_step d w w'"
| s_login: "auth_Login (dp_auth d) name pw w = (r, w') \<Longrightarrow> svc_step d w w'"
| s_admin: "auth_EnsureAdmin name pw w = (r, w') \<Longrightarrow> svc_step d w w'"
| s_rabbit: "rabbit_worker_turn (dp_orders d) stop done n w = (r, w') \<Longrightarrow> svc_step d w w'"
| s_worker: "worker_turn stop done n w = (r, w') \<Longrightarrow> svc_step d w w'"
| s_compensation: "compensation_turn (dp_orders d) stop cfg done w = (r, w') \<Longrightarrow> svc_step d w w'"
| s_restart: "open_migrations w = (r, w') \<Longrightarrow> svc_step d w (w'\<lparr>tasks := []\<rparr>)"

lemma svc_step_obeys: "svc_step d w w' \<Longrightarrow> obeys (tables w) (tables w')"
proof (induction rule: svc_step.induct)
  case (s_product pi w r w')
  then show ?case by (blast dest: obeys_CreateProduct tracksD)
next
  case (s_activity ai w r w')
  then show ?case by (blast dest: obeys_CreateActivity tracksD)
next
  case (s_restart w r w')
  then show ?case by (auto dest: tracksD [OF obeys_migrations])
qed (blast dest: tracksD [OF obeys_CreateOrderContext] tracksD [OF obeys_CheckoutCart] tracksD [OF obeys_CancelOrder]
      tracksD [OF obeys_ExpireOrders] tracksD [OF obeys_Compensate] tracksD [OF obeys_ReconcileStock]
      tracksD [OF obeys_PaymentCallback] tracksD [OF obeys_UpdateActivityStatus]
      tracksD [OF obeys_rabbit_turn] tracksD [OF obeys_worker_turn] tracksD [OF obeys_compensation_turn]
      customer_sides [THEN obeys_sides, THEN tracksD])+

definition reachable :: "deployment \<Rightarrow> world \<Rightarrow> bool" where
  "reachable d w \<longleftrightarrow> (\<exists>w0. tables w0 = empty_tables \<and> (svc_step d)\<^sup>*\<^sup>* w0 w)"

lemma steps_obey: "(svc_step d)\<^sup>*\<^sup>* w w' \<Longrightarrow> obeys (tables w) (tables w')"
  by (induction rule: rtranclp_induct) (auto intro: ledger.R_refl ledger.R_trans dest: svc_step_obeys)

lemma reachable_ledger: "reachable d w \<Longrightarrow> ledger_inv (tables w)"
  using steps_obey ledger_inv_empty evs_ledger unfolding reachable_def obeys_def by metis

end
