(* ===== verification/Scenario.thy ===== *)
theory Scenario
  imports System
begin

text \<open>
  A concrete shop for the witnesses: an outside that never fails, small tables that satisfy the
  invariant, and the bundle \<open>run_eval\<close> that evaluates a computation on them by \<open>simp\<close>.
\<close>

definition calm :: outside where
  "calm = \<lparr>fault = (\<lambda>_. None), landed = (\<lambda>_. False), clock = (\<lambda>_. 100), entropy = (\<lambda>_. Some (\<lambda>_. 0)),
     stamp14 = (\<lambda>_. ''20260101000000''), stamp_utc = (\<lambda>_. ''''), id_gap = (\<lambda>_. 0), uniq_msg = (\<lambda>i. i)\<rparr>"

definition fresh_world :: world where
  "fresh_world = \<lparr>ext = calm, tick = 0, tables = empty_tables, redis = (\<lambda>_. None), mq = [], dlq = [], tasks = []\<rparr>"

definition plain :: deployment where
  "plain = \<lparr>dp_orders = NewOrderService False False, dp_auth = \<lparr>as_secret = ''k'', as_sign = (\<lambda>_ _. Inr ''t'')\<rparr>\<rparr>"

definition demo_product :: product where
  "demo_product = \<lparr>p_id = 1, p_name = ''p'', p_price = 10, p_stock = 5, p_created = 0, p_updated = 0\<rparr>"

definition demo_activity :: activity where
  "demo_activity = \<lparr>a_id = 1, a_product = 1, a_name = ''a'', a_price = 7, a_stock = 1,
     a_status = ActivityStatusPublished, a_start = 0, a_end = 1000, a_created = 0, a_updated = 0\<rparr>"

definition demo_order :: "nat \<Rightarrow> string \<Rightarrow> nat \<Rightarrow> nat \<Rightarrow> string \<Rightarrow> order" where
  "demo_order i no u a st = \<lparr>o_id = i, o_order_no = no, o_request_id = '''', o_user = u, o_product = 1,
     o_activity = a, o_key = NewActivityOrderKey u a, o_address = 0, o_user_coupon = 0, o_original = 7,
     o_discount = 0, o_amount = 7, o_status = st, o_created = 0, o_updated = 0\<rparr>"

definition demo_item :: order_item where
  "demo_item = \<lparr>oi_id = 1, oi_order = 3, oi_order_no = ''C1'', oi_product = 1, oi_name = ''p'', oi_price = 10,
     oi_quantity = 2, oi_created = 0, oi_updated = 0\<rparr>"

definition demo_coupon :: coupon where
  "demo_coupon = \<lparr>c_id = 1, c_title = ''c'', c_threshold = 5, c_discount = 3, c_stock = 4, c_start = 0,
     c_end = 1000, c_created = 0, c_updated = 0\<rparr>"

definition demo_tables :: tables where
  "demo_tables = empty_tables\<lparr>
     products := [demo_product],
     addresses := [\<lparr>ad_id = 1, ad_user = 1, ad_receiver = ''r'', ad_phone = ''1'', ad_province = '''', ad_city = '''',
                    ad_detail = ''d'', ad_default = True, ad_created = 0, ad_updated = 0\<rparr>],
     cart_items := [\<lparr>ci_id = 1, ci_user = 1, ci_product = 1, ci_quantity = 2, ci_created = 0, ci_updated = 0\<rparr>],
     coupons := [demo_coupon],
     user_coupons := [\<lparr>uc_id = 1, uc_user = 1, uc_coupon = 1, uc_status = UserCouponUnused, uc_created = 0, uc_updated = 0\<rparr>],
     activities := [demo_activity],
     orders := [demo_order 1 ''A1'' 1 1 OrderStatusQueued, demo_order 2 ''A2'' 2 1 OrderStatusWaitPay,
                demo_order 3 ''C1'' 1 0 OrderStatusWaitPay],
     order_items := [demo_item]\<rparr>"

definition demo :: world where
  "demo = fresh_world\<lparr>tables := demo_tables\<rparr>"

lemmas demo_defs = demo_def fresh_world_def demo_tables_def empty_tables_def demo_product_def demo_activity_def
  demo_order_def demo_item_def demo_coupon_def plain_def calm_def NewOrderService_def

lemmas run_eval = bindE_def ret_def throw_def on_error_def attempt_def guardE_def time_now_def stmt_def
  transaction_def redis_call_def broker_call_def first_by_def find_all_def find_desc_def count_by_def
  log_op_def create_log_def Let_def next_id_def save_row_def put_row_def in_i64_def wrap64_def
  order_status_defs activity_status_defs user_coupon_defs user_role_defs

lemmas write_eval = create_order_def save_order_def create_payment_def save_activity_def save_product_def
  create_order_item_def delete_cart_items_def save_user_coupon_def order_conflict_def payment_conflict_def
  user_coupon_conflict_def

lemmas text_eval = utoa.simps digit_char_def itoa_def NewActivityOrderKey_def hex_text_def hex_char_def
  randomText_def newOrderNo_def upt_conv_Cons

lemmas order_eval = CreateOrderContext_def createOrderWithDB_def db_order_body_def ensureE_def
  ensureActivityOrderable_def time_before_def time_after_def create_activity_order_def new_activity_order_def
  publishOrderTask_def send_task_def tasks_capacity_def

lemma demo_ledger: "ledger_inv demo_tables"
  unfolding ledger_inv_def
  by (simp add: keys_inv_def refs_inv_def stock_inv_def once_inv_def paid_inv_def index_inv_def keyed_inv_def NewActivityOrderKey_def utoa.simps digit_char_def demo_defs order_status_defs
      activity_level_def product_level_def item_sum_def live_def live_no_def success_payments_def in_i64_def)

lemma demo_world [simp]: "tables demo = demo_tables" "ext demo = calm" "tick demo = 0"
  by (simp_all add: demo_def fresh_world_def)

text \<open>A reachable world with an activity and an order, for the statements on the whole system.\<close>

definition demo_run :: world where
  "demo_run =
     (let w1 = snd (CreateProduct \<lparr>cp_name = ''p'', cp_price = 10, cp_stock = 5\<rparr> fresh_world);
          w2 = snd (CreateActivity False \<lparr>ca_product = 1, ca_name = ''a'', ca_price = 7, ca_stock = 2, ca_duration = 60\<rparr> w1);
          w3 = snd (CreateOrderContext (dp_orders plain) None 1 \<lparr>co_activity = 1, co_request_id = ''r''\<rparr> w2) in
      w3)"

lemma demo_run_reachable: "reachable plain demo_run"
proof -
  define w1 where "w1 = snd (CreateProduct \<lparr>cp_name = ''p'', cp_price = 10, cp_stock = 5\<rparr> fresh_world)"
  define w2 where "w2 = snd (CreateActivity (os_cache (dp_orders plain))
    \<lparr>ca_product = 1, ca_name = ''a'', ca_price = 7, ca_stock = 2, ca_duration = 60\<rparr> w1)"
  have "svc_step plain fresh_world w1"
    unfolding w1_def by (rule s_product [OF _ prod.collapse [symmetric]]) (simp add: in_i64_def)
  moreover have "svc_step plain w1 w2"
    unfolding w2_def by (rule s_activity [OF _ prod.collapse [symmetric]]) (simp add: in_i64_def)
  moreover have "svc_step plain w2 demo_run"
    unfolding demo_run_def Let_def w2_def w1_def plain_def NewOrderService_def
    by (simp only: OrderService.simps deployment.simps) (rule s_create [OF prod.collapse [symmetric], of "\<lparr>dp_orders = _, dp_auth = _\<rparr>", simplified])
  ultimately have "(svc_step plain)\<^sup>*\<^sup>* fresh_world demo_run" by (meson converse_rtranclp_into_rtranclp rtranclp.rtrancl_refl)
  then show ?thesis unfolding reachable_def by (intro exI [of _ fresh_world]) (simp add: fresh_world_def)
qed

lemma demo_run_tables:
  "activities (tables demo_run) = [\<lparr>a_id = 1, a_product = 1, a_name = ''a'', a_price = 7, a_stock = 1,
     a_status = ActivityStatusPublished, a_start = 100, a_end = 60000000100, a_created = 100, a_updated = 100\<rparr>]"
  "orders (tables demo_run) = [\<lparr>o_id = 1, o_order_no = ''ORD2026010100000000000000'', o_request_id = ''r'', o_user = 1,
     o_product = 1, o_activity = 1, o_key = Some ''1:1'', o_address = 0, o_user_coupon = 0, o_original = 7,
     o_discount = 0, o_amount = 7, o_status = OrderStatusQueued, o_created = 100, o_updated = 100\<rparr>]"
  "products (tables demo_run) = [\<lparr>p_id = 1, p_name = ''p'', p_price = 10, p_stock = 5, p_created = 100, p_updated = 100\<rparr>]"
  "payments (tables demo_run) = []" "order_items (tables demo_run) = []"
  by (simp_all add: demo_run_def demo_defs run_eval write_eval text_eval order_eval CreateProduct_def
      create_product_def CreateActivity_def create_activity_def seconds_duration_def go_second_def)

end
