(* ===== verification/Runs.thy ===== *)
theory Runs
  imports OrderCreate
begin

text \<open>
  Runs that neither go back in time nor touch what the outside decides: most computations leave Redis
  alone as well (\<open>keeps\<close>), and what is left of a call when an order is taken is such a run.  The
  instants at which an order was checked can so be placed inside the call.
\<close>

section \<open>Computations that leave Redis alone\<close>

definition keeps :: "'a go \<Rightarrow> bool" where
  "keeps m \<longleftrightarrow> (\<forall>w r w'. m w = (r, w') \<longrightarrow> ext w' = ext w \<and> redis w' = redis w \<and> tick w \<le> tick w')"

lemma keepsD: "keeps m \<Longrightarrow> m w = (r, w') \<Longrightarrow> ext w' = ext w \<and> redis w' = redis w \<and> tick w \<le> tick w'"
  unfolding keeps_def by blast

lemma keeps_basic: "keeps (ret x)" "keeps (throw e)" "keeps time_now" "keeps (guardE b e)" "keeps (ensureE r)" "keeps (stmt q)"
  by (auto simp: keeps_def ret_def throw_def time_now_def guardE_def ensureE_def stmt_def Let_def
      split: option.splits sum.splits prod.splits)

lemma keeps_bindE: "keeps m \<Longrightarrow> (\<And>x. keeps (f x)) \<Longrightarrow> keeps (bindE m f)"
  unfolding keeps_def bindE_def by (auto split: prod.splits sum.splits) (metis order_trans)+

lemma keeps_on_error: "keeps m \<Longrightarrow> (\<And>e. keeps (h e)) \<Longrightarrow> keeps (on_error m h)"
  unfolding keeps_def on_error_def by (auto split: prod.splits sum.splits) (metis order_trans)+

lemma keeps_attempt: "keeps m \<Longrightarrow> keeps (attempt m)"
  unfolding keeps_def attempt_def by (auto split: prod.splits)

lemma keeps_transaction:
  assumes "keeps m" shows "keeps (transaction m)"
  unfolding keeps_def
proof (intro allI impI)
  fix w r w'
  let ?s = "stmt (\<lambda>_ _ t. Inr ((), t)) :: unit go"
  assume run: "transaction m w = (r, w')"
  obtain r0 w0 where s0: "?s w = (r0, w0)" by fastforce
  obtain r1 w1 where m: "m w0 = (r1, w1)" by fastforce
  obtain r2 w2 where s2: "?s w1 = (r2, w2)" by fastforce
  have "w' = w0 \<or> w' = w1\<lparr>tables := tables w\<rparr> \<or> w' = w2\<lparr>tables := tables w\<rparr> \<or> w' = w2"
    using run s0 m s2 unfolding transaction_def by (auto split: sum.splits)
  then show "ext w' = ext w \<and> redis w' = redis w \<and> tick w \<le> tick w'"
    using keepsD [OF keeps_basic(6) s0] keepsD [OF assms m] keepsD [OF keeps_basic(6) s2] by auto
qed

lemma keeps_case_sum: "(\<And>a. keeps (f a)) \<Longrightarrow> (\<And>b. keeps (g b)) \<Longrightarrow> keeps (case r of Inl a \<Rightarrow> f a | Inr b \<Rightarrow> g b)"
  by (cases r) auto

lemma keeps_if: "keeps m \<Longrightarrow> keeps n \<Longrightarrow> keeps (if b then m else n)"
  by simp

lemma keeps_log: "keeps (log_op a no u r m)"
  unfolding log_op_def create_log_def by (intro keeps_bindE keeps_attempt keeps_basic)

lemma keeps_send: "keeps (send_task no)"
  using keepsD [OF keeps_log] unfolding keeps_def send_task_def by (auto split: if_splits)

lemma keeps_publish: "keeps (publishOrderTask s no)"
proof -
  have "keeps (broker_call d b)" for d b
    by (auto simp: keeps_def broker_call_def broker_put_def Let_def split: option.splits if_splits)
  then show ?thesis
    unfolding publishOrderTask_def rabbit_Publish_def rabbit_PublishRetry_def
    by (intro keeps_if keeps_bindE keeps_attempt keeps_case_sum keeps_log keeps_send keeps_basic)
qed

lemma keeps_random: "keeps (randomText n)"
  by (simp add: keeps_def randomText_def)

lemma keeps_order_no: "keeps newOrderNo"
  unfolding newOrderNo_def by (intro keeps_bindE keeps_basic keeps_random) (simp add: keeps_def)

lemmas keeps_intros = keeps_basic keeps_bindE keeps_on_error keeps_attempt keeps_transaction keeps_case_sum keeps_if
  keeps_log keeps_publish keeps_random keeps_order_no

lemma keeps_redis_body: "keeps (redis_order_body u i act)"
  unfolding redis_order_body_def count_by_def first_by_def decrement_stock_def create_activity_order_def create_order_def
  by (intro keeps_intros)

section \<open>The readings of the clock while an order is taken\<close>

lemma keeps_checks: "keeps (first_by sel P)" "keeps (count_by sel' Q)" "keeps (save_activity act)" "keeps (create_activity_order ord)"
  unfolding first_by_def count_by_def save_activity_def create_activity_order_def create_order_def by (intro keeps_intros)+

lemma keeps_db_body: "keeps (db_order_body u i)"
  unfolding db_order_body_def by (intro keeps_intros keeps_checks)

text \<open>Both bodies read the clock once, after their first statement.\<close>

lemma second_reading:
  assumes "bindE m (\<lambda>x. bindE time_now (f x)) w = (Inr y, w')" and "\<And>x now. keeps (f x now)"
    and "\<And>x w1. m w = (Inr x, w1) \<Longrightarrow> ext w1 = ext w \<and> tick w1 = Suc (tick w)"
  shows "ext w' = ext w \<and> Suc (tick w) < tick w'"
proof -
  from assms(1) obtain x w1 where m: "m w = (Inr x, w1)"
    and "bindE time_now (f x) w1 = (Inr y, w')" unfolding bindE_ok by blast
  then have rest: "f x (clock (ext w1) (tick w1)) (w1\<lparr>tick := Suc (tick w1)\<rparr>) = (Inr y, w')"
    by (simp add: bindE_def time_now_def)
  from keepsD [OF assms(2) rest] assms(3) [OF m] show ?thesis by simp
qed

lemma db_body_clock:
  assumes "db_order_body u i w = (Inr x, w')"
  shows "ext w' = ext w \<and> Suc (tick w) < tick w'"
  by (rule second_reading [OF assms [unfolded db_order_body_def]])
     (auto intro!: keeps_intros keeps_checks simp: run_simps)

lemma redis_body_clock:
  assumes "redis_order_body u i act w = (Inr x, w')"
  shows "ext w' = ext w \<and> Suc (tick w) < tick w'"
proof -
  let ?count = "count_by orders (\<lambda>r. o_user r = u \<and> o_activity r = co_activity i)"
  let ?k = "\<lambda>now. bindE (decrement_stock (co_activity i) now) (\<lambda>rows.
      if rows = 0 then
        bindE (attempt (first_by activities (\<lambda>a. a_id a = co_activity i))) (\<lambda>r.
          case r of
            Inr current \<Rightarrow> throw (if a_stock current \<le> 0 then ErrSoldOut else ErrActivityNotAvailable)
          | Inl _ \<Rightarrow> throw ErrActivityNotAvailable)
      else bindE newOrderNo (\<lambda>no. create_activity_order (new_activity_order no (co_request_id i) u act)))"
  from assms obtain n where n: "?count w = (Inr n, w\<lparr>tick := Suc (tick w)\<rparr>)"
    and rest: "?k (clock (ext w) (Suc (tick w))) (w\<lparr>tick := Suc (Suc (tick w))\<rparr>) = (Inr x, w')"
    unfolding redis_order_body_def bindE_ok [of ?count] bindE_ok [of "guardE _ _"] bindE_ok [of time_now]
    by (auto simp: guardE_ok time_now_ok count_by_def stmt_ok)
  have "keeps (?k now)" for now
    unfolding decrement_stock_def by (intro keeps_intros keeps_checks)
  from keepsD [OF this rest] show ?thesis by simp
qed

lemma reserve_clock:
  "cache_Reserve act u w = (r, w') \<Longrightarrow> ext w' = ext w \<and> tick w \<le> tick w'"
  by (auto simp: cache_Reserve_def bindE_def time_now_def redis_call_def Let_def throw_def ret_def
      split: sum.splits prod.splits option.splits if_splits)

end
