(* ===== verification/OrderProps.thy ===== *)
theory OrderProps
  imports Scenario Runs
begin

text \<open>
  What the order operations do, branch by branch: what a successful call has changed, that a failed
  call has changed nothing but the log, and that callbacks and deliveries may be repeated.
\<close>

section \<open>Up to the log\<close>

definition same_but_logs :: "tables \<Rightarrow> tables \<Rightarrow> bool" where
  "same_but_logs t t' \<longleftrightarrow> t' = t\<lparr>operation_logs := operation_logs t'\<rparr>"

interpretation logs: table_preorder same_but_logs
proof
  fix t1 t2 t3
  show "same_but_logs t1 t1" by (simp add: same_but_logs_def)
  assume "same_but_logs t1 t2" "same_but_logs t2 t3"
  then show "same_but_logs t1 t3" by (cases t1, cases t2, cases t3) (simp add: same_but_logs_def)
qed

lemma logs_log: "tracks same_but_logs (log_op a no u r m)"
  by (rule tracksI) (drule log_op_tables, simp add: same_but_logs_def)

lemma logs_fields:
  assumes "same_but_logs t t'"
  shows "users t' = users t" "products t' = products t" "addresses t' = addresses t" "cart_items t' = cart_items t"
    "coupons t' = coupons t" "user_coupons t' = user_coupons t" "activities t' = activities t"
    "orders t' = orders t" "order_items t' = order_items t" "payments t' = payments t"
proof -
  from assms have "t' = t\<lparr>operation_logs := operation_logs t'\<rparr>" by (simp add: same_but_logs_def)
  then obtain ls where "t' = t\<lparr>operation_logs := ls\<rparr>" by blast
  then show "users t' = users t" "products t' = products t" "addresses t' = addresses t" "cart_items t' = cart_items t"
    "coupons t' = coupons t" "user_coupons t' = user_coupons t" "activities t' = activities t"
    "orders t' = orders t" "order_items t' = order_items t" "payments t' = payments t" by simp_all
qed

lemma logs_reads: "reads_only m \<Longrightarrow> tracks same_but_logs m"
  unfolding tracks_def by (auto simp: logs.R_refl)

lemma logs_send: "tracks same_but_logs (send_task no)"
  by (rule tracksI) (auto simp: send_task_def logs.R_refl dest: tracksD [OF logs_log] split: if_splits)

lemma logs_case_sum:
  "(\<And>a. tracks same_but_logs (f a)) \<Longrightarrow> (\<And>b. tracks same_but_logs (g b)) \<Longrightarrow>
   tracks same_but_logs (case r of Inl a \<Rightarrow> f a | Inr b \<Rightarrow> g b)"
  by (cases r) auto

lemma logs_if: "tracks same_but_logs m \<Longrightarrow> tracks same_but_logs n \<Longrightarrow> tracks same_but_logs (if b then m else n)"
  by simp

lemma logs_query: "tracks same_but_logs (first_by sel P)"
  by (auto simp: first_by_def logs.R_refl intro!: logs.tracks_stmt split: option.splits)

lemmas logs_intros = logs.tracks_basic logs_log logs_send logs_query logs_reads [OF cache_Release_reads]
  logs_reads [OF cache_Reserve_reads] logs_reads [OF rabbit_Publish_reads]
  logs.tracks_bindE logs.tracks_on_error logs.tracks_attempt logs_case_sum logs_if

lemma logs_publish: "tracks same_but_logs (publishOrderTask s no)"
  unfolding publishOrderTask_def by (intro logs_intros)

text \<open>A transaction whose error is logged and handed on, followed by logging and publishing only.\<close>

lemma logged_transaction:
  assumes run: "bindE (on_error (transaction m) h) f w = (r, w')"
    and h: "\<And>e. tracks same_but_logs (h e)" and f: "\<And>x. tracks same_but_logs (f x)"
    and herr: "\<And>e w. fst (h e w) \<in> range Inl"
  shows "same_but_logs (tables w) (tables w') \<or>
    (\<exists>x w1. m (w\<lparr>tick := Suc (tick w)\<rparr>) = (Inr x, w1) \<and> same_but_logs (tables w1) (tables w') \<and>
       f x (w1\<lparr>tick := Suc (tick w1)\<rparr>) = (r, w'))"
proof -
  obtain rt wt where tx: "transaction m w = (rt, wt)" by (cases "transaction m w")
  show ?thesis
  proof (cases rt)
    case (Inl e)
    obtain rh wh where hr: "h e wt = (rh, wh)" by (cases "h e wt")
    obtain e' where rh: "rh = Inl e'" using herr [of e wt] hr by auto
    from run tx Inl hr rh have w': "w' = wh" by (simp add: bindE_def on_error_def)
    have "tables wt = tables w" using tx Inl transaction_err by blast
    moreover have "same_but_logs (tables wt) (tables wh)" using tracksD [OF h hr] .
    ultimately show ?thesis by (simp add: w')
  next
    case (Inr x)
    with tx obtain w1 where w1: "m (w\<lparr>tick := Suc (tick w)\<rparr>) = (Inr x, w1)" "wt = w1\<lparr>tick := Suc (tick w1)\<rparr>"
      by (auto simp: transaction_ok)
    from run tx Inr have "f x wt = (r, w')" by (simp add: bindE_def on_error_def)
    with w1 tracksD [OF f this] show ?thesis by auto
  qed
qed

lemma rethrow: "fst (throw e w) \<in> range Inl"
  by (simp add: throw_def)

section \<open>Payment callbacks\<close>

lemma callback_run:
  assumes "PaymentCallback input w = (r, w')"
  shows "(\<exists>e. r = Inl e) \<and> same_but_logs (tables w) (tables w') \<or>
    (\<exists>x w1. r = Inr x \<and> payment_body input (w\<lparr>tick := Suc (tick w)\<rparr>) = (Inr x, w1) \<and> same_but_logs (tables w1) (tables w'))"
proof -
  let ?f = "\<lambda>result. thenE (log_op ''payment_callback'' (pr_order_no result) 0 ''success'' (pr_message result)) (ret result)"
  have tot: "\<exists>w2. ?f x w1 = (Inr x, w2)" for x w1
    using log_op_total by (auto simp: bindE_def ret_def split: prod.splits sum.splits) (metis log_op_total prod.inject sum.distinct(1))
  obtain rt wt where tx: "transaction (payment_body input) w = (rt, wt)" by (cases "transaction (payment_body input) w")
  show ?thesis
  proof (cases rt)
    case (Inl e)
    with tx have same: "tables wt = tables w" using transaction_err by blast
    from assms tx Inl obtain r1 where lg: "thenE (log_op ''payment_callback_failed'' (pi_order_no input) 0 ''failed'' (err_text e)) (throw e) wt = (r1, w')"
      and r: "\<exists>e'. r = Inl e'"
      using log_then_throw [of _ _ _ _ _ e wt]
      by (fastforce simp: PaymentCallback_def bindE_def on_error_def throw_def split: prod.splits sum.splits)
    have "tracks same_but_logs (thenE (log_op ''payment_callback_failed'' (pi_order_no input) 0 ''failed'' (err_text e)) (throw e))"
      by (intro logs_intros)
    from tracksD [OF this lg] have "same_but_logs (tables wt) (tables w')" .
    with same r show ?thesis by simp
  next
    case (Inr x)
    with tx obtain w1 where w1: "payment_body input (w\<lparr>tick := Suc (tick w)\<rparr>) = (Inr x, w1)" "wt = w1\<lparr>tick := Suc (tick w1)\<rparr>"
      by (auto simp: transaction_ok)
    from assms tx Inr have fx: "?f x wt = (r, w')" by (simp add: PaymentCallback_def bindE_def on_error_def)
    with tot [of x wt] have "r = Inr x" by simp
    moreover have "tracks same_but_logs (?f x)" by (intro logs_intros)
    from tracksD [OF this fx] have "same_but_logs (tables wt) (tables w')" .
    ultimately show ?thesis using w1 by auto
  qed
qed

text \<open>
  C6: a payment callback is idempotent in its transaction number.  When the number is known, the
  call leaves every table but the log as it was, whatever order and status it names and whatever
  fails; a call that succeeds reports the stored payment as already processed.
\<close>

theorem callback_idempotent:
  assumes "pm_transaction pay = pi_transaction input" and "pay \<in> set (payments (tables w))"
    and "PaymentCallback input w = (r, w')"
  shows "same_but_logs (tables w) (tables w') \<and>
    (\<forall>res. r = Inr res \<longrightarrow> pr_already res \<and>
       (\<exists>p\<in>set (payments (tables w)). pm_transaction p = pi_transaction input \<and> pr_order_no res = pm_order_no p))"
  using callback_run [OF assms(3)]
proof (elim disjE exE conjE)
  fix x w1
  assume r: "r = Inr x" and body: "payment_body input (w\<lparr>tick := Suc (tick w)\<rparr>) = (Inr x, w1)"
    and same: "same_but_logs (tables w1) (tables w')"
  have seen: "pi_transaction input \<in> pm_transaction ` set (payments (tables w))"
    using assms(1,2) by (metis imageI)
  from body show ?thesis
  proof (cases rule: payment_body_cases)
    case (known pay')
    with same r find_SomeD [OF known(1)] show ?thesis by auto
  next
    case (noted ord p wn)
    with create_payment_run [OF noted(4)] seen show ?thesis by (auto simp: new_payment_def)
  next
    case (paid ord ord' p wn w2)
    with create_payment_run [OF paid(6)] save_order_run [OF paid(5)] seen show ?thesis
      by (auto simp: new_payment_def)
  qed
qed (simp add: logs.R_refl)

definition paid_demo :: world where
  "paid_demo = demo\<lparr>tables := demo_tables\<lparr>payments := [\<lparr>pm_id = 1, pm_transaction = ''T1'', pm_order_no = ''C1'',
     pm_status = ''FAIL'', pm_created = 0, pm_updated = 0\<rparr>]\<rparr>\<rparr>"

theorem callback_idempotent_witness:
  "payments (tables (snd (PaymentCallback \<lparr>pi_order_no = ''A2'', pi_transaction = ''T1'', pi_status = ''SUCCESS''\<rparr> paid_demo))) =
   payments (tables paid_demo)"
proof -
  let ?i = "\<lparr>pi_order_no = ''A2'', pi_transaction = ''T1'', pi_status = ''SUCCESS''\<rparr>"
  have "same_but_logs (tables paid_demo) (tables (snd (PaymentCallback ?i paid_demo)))"
    by (rule callback_idempotent [THEN conjunct1, of "hd (payments (tables paid_demo))", OF _ _ prod.collapse [symmetric]])
      (simp_all add: paid_demo_def)
  then show ?thesis by (rule logs_fields(10))
qed

text \<open>
  C7: what a successful payment does.  A callback with status SUCCESS that is not a repetition was
  sent for an order that was waiting for payment; that order is now PAID, one payment row with the
  transaction number was added, and no other table than the log has changed.
\<close>

theorem callback_pays:
  assumes "PaymentCallback input w = (Inr res, w')" and "pi_status input = ''SUCCESS''" and "\<not> pr_already res"
  shows "\<exists>ord u p. ord \<in> set (orders (tables w)) \<and> o_order_no ord = pi_order_no input \<and>
    o_status ord = OrderStatusWaitPay \<and> pr_order_status res = OrderStatusPaid \<and>
    pm_order_no p = pi_order_no input \<and> pm_transaction p = pi_transaction input \<and> pm_status p = ''SUCCESS'' \<and>
    pi_transaction input \<notin> pm_transaction ` set (payments (tables w)) \<and>
    same_but_logs ((tables w)\<lparr>orders := put_row o_id (ord\<lparr>o_status := OrderStatusPaid, o_updated := u\<rparr>) (orders (tables w)),
      payments := payments (tables w) @ [p]\<rparr>) (tables w')"
proof -
  from callback_run [OF assms(1)] obtain w1 where
    body: "payment_body input (w\<lparr>tick := Suc (tick w)\<rparr>) = (Inr res, w1)" and same: "same_but_logs (tables w1) (tables w')"
    by auto
  from body show ?thesis
  proof (cases rule: payment_body_cases)
    case (paid ord ord' p wn w2)
    from find_SomeD [OF paid(1)] have ord: "ord \<in> set (orders (tables w))" "o_order_no ord = pi_order_no input" by auto
    from save_order_run [OF paid(5)] ord(1) paid(4) obtain u where
      ord': "ord' = ord\<lparr>o_status := OrderStatusPaid, o_updated := u\<rparr>" and
      t2: "tables w2 = (tables w)\<lparr>orders := put_row o_id ord' (orders (tables w))\<rparr>"
      by (auto simp: save_row_in)
    note p = create_payment_run [OF paid(6)]
    have row: "pm_order_no p = pi_order_no input" "pm_transaction p = pi_transaction input" "pm_status p = ''SUCCESS''"
      using p assms(2) by (auto simp: new_payment_def)
    have "tables w1 = (tables w)\<lparr>orders := put_row o_id ord' (orders (tables w)), payments := payments (tables w) @ [p]\<rparr>"
      using p by (simp add: t2)
    with same p row ord paid(3,8) show ?thesis
      by (intro exI [of _ ord] exI [of _ u] exI [of _ p]) (simp add: t2 ord')
  qed (use assms in auto)
qed

theorem callback_pays_witness:
  "\<exists>ord\<in>set (orders demo_tables). o_order_no ord = ''C1'' \<and> o_status ord = OrderStatusWaitPay"
proof -
  let ?i = "\<lparr>pi_order_no = ''C1'', pi_transaction = ''T9'', pi_status = ''SUCCESS''\<rparr>"
  have "\<exists>res. fst (PaymentCallback ?i demo) = Inr res \<and> \<not> pr_already res"
    by (simp add: PaymentCallback_def payment_body_def demo_defs run_eval write_eval text_eval new_payment_def)
  then obtain res where "PaymentCallback ?i demo = (Inr res, snd (PaymentCallback ?i demo))" "\<not> pr_already res"
    by (metis prod.collapse)
  from callback_pays [OF this(1) _ this(2)] show ?thesis by auto
qed

section \<open>A failed operation changes nothing but the log\<close>

definition returns :: "'a go \<Rightarrow> bool" where
  "returns m \<longleftrightarrow> (\<forall>w. \<exists>x w'. m w = (Inr x, w'))"

lemma returns_ret: "returns (ret x)"
  by (simp add: returns_def ret_def)

lemma returns_log: "returns (log_op a no u r m)"
  unfolding returns_def using log_op_total by blast

lemma returns_attempt: "returns (attempt m)"
  by (auto simp: returns_def attempt_def split: prod.splits)

lemma returns_bindE: "returns m \<Longrightarrow> (\<And>x. returns (f x)) \<Longrightarrow> returns (bindE m f)"
  unfolding returns_def bindE_def by (metis (mono_tags, lifting) old.prod.case sum.case(2))

lemma returns_send: "returns (send_task no)"
  unfolding returns_def send_task_def using log_op_total by (auto simp: fun_eq_iff)

lemma returns_case_sum:
  "(\<And>a. returns (f a)) \<Longrightarrow> (\<And>b. returns (g b)) \<Longrightarrow> returns (case r of Inl a \<Rightarrow> f a | Inr b \<Rightarrow> g b)"
  by (cases r) auto

lemma returns_publish: "returns (publishOrderTask s no)"
  unfolding publishOrderTask_def
  by (auto intro!: returns_bindE returns_attempt returns_case_sum returns_log returns_send)

lemmas returns_intros = returns_bindE returns_ret returns_log returns_publish

definition fails_clean :: "'a go \<Rightarrow> bool" where
  "fails_clean m \<longleftrightarrow> (\<forall>w e w'. m w = (Inl e, w') \<longrightarrow> same_but_logs (tables w) (tables w'))"

lemma fails_cleanD: "fails_clean m \<Longrightarrow> m w = (Inl e, w') \<Longrightarrow> same_but_logs (tables w) (tables w')"
  unfolding fails_clean_def by blast

lemma fails_clean_tx: "fails_clean (transaction m)"
  using transaction_err logs.R_refl unfolding fails_clean_def by metis

lemma fails_clean_tracks: "tracks same_but_logs m \<Longrightarrow> fails_clean m"
  unfolding fails_clean_def by (blast dest: tracksD)

lemma fails_clean_then: "tracks same_but_logs m \<Longrightarrow> (\<And>x. fails_clean (f x)) \<Longrightarrow> fails_clean (bindE m f)"
  unfolding fails_clean_def bindE_err by (blast dest: tracksD intro: logs.R_trans)

lemma fails_clean_first: "fails_clean m \<Longrightarrow> (\<And>x. returns (f x)) \<Longrightarrow> fails_clean (bindE m f)"
  unfolding fails_clean_def bindE_err returns_def by (metis prod.inject sum.distinct(1))

lemma fails_clean_on_error: "fails_clean m \<Longrightarrow> (\<And>e. tracks same_but_logs (h e)) \<Longrightarrow> fails_clean (on_error m h)"
  unfolding fails_clean_def on_error_err by (blast dest: tracksD intro: logs.R_trans)

lemma fails_clean_throw: "fails_clean (throw e)"
  by (rule fails_clean_tracks) (rule logs.tracks_throw)

lemma logs_ensure: "tracks same_but_logs (ensureE r)"
  unfolding ensureE_def by (auto intro: logs.tracks_basic split: option.splits)

lemma clean_createOrderWithDB: "fails_clean (createOrderWithDB s u i)"
  unfolding createOrderWithDB_def
  by (auto intro!: fails_clean_first fails_clean_on_error fails_clean_tx logs_intros returns_intros)

lemma clean_createOrderWithRedis: "fails_clean (createOrderWithRedis s u i)"
proof -
  have tail: "fails_clean (bindE (on_error (transaction m) h) f)"
    if "\<And>e. tracks same_but_logs (h e)" "\<And>x. returns (f x)" for m :: "order go" and h f
    using that by (intro fails_clean_first fails_clean_on_error fails_clean_tx)
  show ?thesis unfolding createOrderWithRedis_def
    by (rule fails_clean_then, intro logs_intros, rule fails_clean_then, intro logs_intros,
        rule fails_clean_then, intro logs_intros logs_ensure, rule fails_clean_then, intro logs_intros,
        rule tail) (intro logs_intros returns_intros)+
qed

lemma clean_CreateOrderContext: "fails_clean (CreateOrderContext s c u i)"
proof (cases c)
  case None
  have "tracks same_but_logs (if co_request_id i = '''' then bindE (randomText 8) (\<lambda>r. ret (i\<lparr>co_request_id := ''req_'' @ r\<rparr>)) else ret i)"
    by (auto intro!: logs_intros tracksI dest!: randomText_run simp: logs.R_refl run_simps bindE_def ret_def split: prod.splits sum.splits)
  then show ?thesis unfolding CreateOrderContext_def None option.case
    by (rule fails_clean_then) (simp add: clean_createOrderWithDB clean_createOrderWithRedis)
qed (simp add: CreateOrderContext_def fails_clean_throw)

lemma clean_CheckoutCart: "fails_clean (CheckoutCart u k)"
  unfolding CheckoutCart_def
  by (auto intro!: fails_clean_first fails_clean_on_error fails_clean_tx logs_intros returns_intros)

lemma clean_CancelOrder: "fails_clean (CancelOrder s u no)"
  unfolding CancelOrder_def
  by (auto intro!: fails_clean_first fails_clean_on_error fails_clean_tx logs_intros returns_intros)

lemma clean_PaymentCallback: "fails_clean (PaymentCallback p)"
  unfolding PaymentCallback_def
  by (auto intro!: fails_clean_first fails_clean_on_error fails_clean_tx logs_intros returns_intros)

text \<open>
  C8: an order operation that returns an error has changed no table but the log, wherever it
  failed: creating an order on either path, checking out a cart, cancelling, a payment callback.
  In particular a checkout refused because its coupon is out of date leaves the coupon unmarked.
\<close>

theorem failures_change_nothing:
  assumes "CreateOrderContext s c u i w = (Inl e, w') \<or> CheckoutCart u k w = (Inl e, w') \<or>
    CancelOrder s u no w = (Inl e, w') \<or> PaymentCallback p w = (Inl e, w')"
  shows "same_but_logs (tables w) (tables w')"
  using assms
  by (auto dest: clean_CreateOrderContext [THEN fails_cleanD] clean_CheckoutCart [THEN fails_cleanD]
      clean_CancelOrder [THEN fails_cleanD] clean_PaymentCallback [THEN fails_cleanD])

theorem failures_change_nothing_witness:
  "\<exists>w'. CancelOrder (dp_orders plain) 1 ''A2'' demo = (Inl ErrOrderNotFound, w') \<and> same_but_logs (tables demo) (tables w')"
proof -
  have "\<exists>w'. CancelOrder (dp_orders plain) 1 ''A2'' demo = (Inl ErrOrderNotFound, w')"
    by (simp add: CancelOrder_def cancel_body_def demo_defs run_eval text_eval)
  then show ?thesis using failures_change_nothing by blast
qed

section \<open>Placing an order\<close>

lemma same_logs_tail:
  assumes "thenE (publishOrderTask s no) (thenE (log_op a n u r m) (ret y)) w = (Inr x, w')"
  shows "x = y \<and> same_but_logs (tables w) (tables w')"
proof
  show "x = y" using assms by (auto simp: run_simps)
  have "tracks same_but_logs (thenE (publishOrderTask s no) (thenE (log_op a n u r m) (ret y)))"
    by (intro logs_intros logs_publish)
  from tracksD [OF this assms] show "same_but_logs (tables w) (tables w')" .
qed

lemma log_never_throws: "thenE (log_op a n u r m) (throw e) w \<noteq> (Inr x, w')"
  by (auto simp: run_simps)

lemma create_db_run:
  assumes "createOrderWithDB s u i w = (Inr (ord, left), w')"
  obtains w1 where "db_order_body u i (w\<lparr>tick := Suc (tick w)\<rparr>) = (Inr (ord, left), w1)"
    "same_but_logs (tables w1) (tables w')" "tick w1 \<le> tick w'"
proof -
  from assms obtain o1 l1 w1 where
    body: "db_order_body u i (w\<lparr>tick := Suc (tick w)\<rparr>) = (Inr (o1, l1), w1)" and
    tail: "thenE (publishOrderTask s (o_order_no o1)) (thenE (log_op ''stock_reserved'' (o_order_no o1) u ''success'' (''stock_left='' @ itoa l1)) (ret (o1, l1))) (w1\<lparr>tick := Suc (tick w1)\<rparr>) = (Inr (ord, left), w')"
    unfolding createOrderWithDB_def
    by (auto simp: bindE_ok on_error_ok transaction_ok log_never_throws run_simps)
  have "keeps (thenE (publishOrderTask s (o_order_no o1)) (thenE (log_op ''stock_reserved'' (o_order_no o1) u ''success'' (''stock_left='' @ itoa l1)) (ret (o1, l1))))"
    by (intro keeps_intros)
  from keepsD [OF this tail] same_logs_tail [OF tail] body show thesis by (auto intro: that)
qed

lemma create_redis_run:
  assumes "createOrderWithRedis s u i w = (Inr (ord, left), w')"
  obtains act w0 w1 where "act \<in> set (activities (tables w))" "a_id act = co_activity i" "tables w0 = tables w"
    "redis_order_body u i act w0 = (Inr ord, w1)" "same_but_logs (tables w1) (tables w')"
    "ensureActivityOrderable act (clock (ext w) (Suc (tick w))) = None"
    "ext w0 = ext w" "Suc (tick w) < tick w0" "tick w1 \<le> tick w'"
proof -
  from assms obtain act w0 o1 w1 where
    act: "find (\<lambda>a. a_id a = co_activity i) (activities (tables w)) = Some act" and
    ens: "ensureActivityOrderable act (clock (ext w) (Suc (tick w))) = None" and
    res: "cache_Reserve act u (w\<lparr>tick := Suc (Suc (tick w))\<rparr>) = (Inr left, w0)" and
    body: "redis_order_body u i act (w0\<lparr>tick := Suc (tick w0)\<rparr>) = (Inr o1, w1)" and
    tail: "thenE (publishOrderTask s (o_order_no o1)) (thenE (log_op ''stock_reserved_redis'' (o_order_no o1) u ''success'' (''stock_left='' @ itoa left)) (ret (o1, left))) (w1\<lparr>tick := Suc (tick w1)\<rparr>) = (Inr (ord, left), w')"
    unfolding createOrderWithRedis_def
    by (auto simp: bindE_ok on_error_ok transaction_ok run_simps)
  have "keeps (thenE (publishOrderTask s (o_order_no o1)) (thenE (log_op ''stock_reserved_redis'' (o_order_no o1) u ''success'' (''stock_left='' @ itoa left)) (ret (o1, left))))"
    by (intro keeps_intros)
  note end_clock = keepsD [OF this tail]
  from reads_onlyD [OF cache_Reserve_reads res] have "tables w0 = tables w" by simp
  with same_logs_tail [OF tail] body find_SomeD [OF act] ens end_clock reserve_clock [OF res] show thesis
    by (intro that [of act "w0\<lparr>tick := Suc (tick w0)\<rparr>" w1]) auto
qed

lemma placed_fields:
  "ord = (new_activity_order no rid u act)\<lparr>o_id := x, o_created := y, o_updated := z\<rparr> \<Longrightarrow>
   o_user ord = u \<and> o_activity ord = a_id act \<and> o_status ord = OrderStatusQueued \<and>
   o_original ord = a_price act \<and> o_amount ord = a_price act"
  by (simp add: new_activity_order_def)

text \<open>What is said of an accepted order: \<open>k\<close> and \<open>k'\<close> are the readings of the clock at which it was checked.\<close>

abbreviation (input) places :: "nat \<Rightarrow> nat \<Rightarrow> world \<Rightarrow> world \<Rightarrow> order \<Rightarrow> activity \<Rightarrow> activity \<Rightarrow> nat \<Rightarrow> nat \<Rightarrow> bool" where
  "places u a w w' ord act act' k k' \<equiv> act \<in> set (activities (tables w)) \<and> a_id act = a \<and> 0 < a_stock act \<and>
    (a_status act = ActivityStatusPublished \<or> a_status act = '''') \<and>
    tick w \<le> k \<and> k \<le> k' \<and> k' < tick w' \<and>
    a_start act \<le> clock (ext w) k \<and> clock (ext w) k \<le> a_end act \<and>
    a_start act \<le> clock (ext w) k' \<and> clock (ext w) k' \<le> a_end act \<and>
    (\<forall>r\<in>set (orders (tables w)). \<not> (o_user r = u \<and> o_activity r = a_id act)) \<and>
    o_user ord = u \<and> o_activity ord = a_id act \<and> o_status ord = OrderStatusQueued \<and>
    o_original ord = a_price act \<and> o_amount ord = a_price act \<and>
    a_id act' = a_id act \<and> a_stock act' = a_stock act - 1 \<and>
    same_but_logs ((tables w)\<lparr>activities := put_row a_id act' (activities (tables w)), orders := orders (tables w) @ [ord]\<rparr>) (tables w')"

lemma orderable_open:
  "ensureActivityOrderable act now = None \<Longrightarrow>
     (a_status act = ActivityStatusPublished \<or> a_status act = '''') \<and> a_start act \<le> now \<and> now \<le> a_end act"
  by (auto simp: ensureActivityOrderable_def time_before_def time_after_def Let_def split: if_splits)

lemma redis_run_places:
  assumes run: "createOrderWithRedis s u i w = (Inr (ord, left), w')" and inv: "ledger_inv (tables w)"
  shows "\<exists>act act' k k'. places u (co_activity i) w w' ord act act' k k' \<and> k < k'"
  using run
proof (cases rule: create_redis_run)
  case (1 act wa w1)
  have "ledger_inv (tables wa)" using inv 1(3) by simp
  from 1(4) this 1(2) show ?thesis
  proof (cases rule: redis_order_effect)
    case r: (1 a)
    have "a = act"
      using distinct_key_unique [OF keysD(1) r(1), of act] r(2) 1(1-3) inv by (auto simp: ledger_inv_def)
    then have a: "a_stock a = a_stock act" "0 < a_stock act" "a_start act \<le> clock (ext w) (Suc (tick wa))"
      "clock (ext w) (Suc (tick wa)) \<le> a_end act"
      using r(3,4) 1(7) by (simp_all add: stock_row_hit_def)
    have "same_but_logs ((tables w)\<lparr>activities := put_row a_id (act\<lparr>a_stock := a_stock act - 1\<rparr>) (activities (tables w)),
        orders := orders (tables w) @ [ord]\<rparr>) (tables w')"
      using 1(5) r(10) \<open>a = act\<close> 1(3) by simp
    moreover have "Suc (tick w) < Suc (tick wa)" "Suc (tick wa) < tick w'"
      using 1(8,9) redis_body_clock [OF 1(4)] by simp_all
    ultimately show ?thesis
      using placed_fields [OF r(6)] 1(1,2,3) r(5) orderable_open [OF 1(6)] a
      by (intro exI [of _ act] exI [of _ "act\<lparr>a_stock := a_stock act - 1\<rparr>"] exI [of _ "Suc (tick w)"]
          exI [of _ "Suc (tick wa)"] conjI) simp_all
  qed
qed

lemma db_run_places:
  assumes run: "createOrderWithDB s u i w = (Inr (ord, left), w')" and inv: "ledger_inv (tables w)"
  shows "\<exists>act act' k k'. places u (co_activity i) w w' ord act act' k k' \<and> left = a_stock act - 1"
  using run
proof (cases rule: create_db_run)
  case (1 w1)
  let ?k = "Suc (Suc (tick w))"
  have "ledger_inv (tables (w\<lparr>tick := Suc (tick w)\<rparr>))" using inv by simp
  from 1(1) this show ?thesis
  proof (cases rule: db_order_effect)
    case r: (1 act v)
    have "same_but_logs ((tables w)\<lparr>activities := put_row a_id (act\<lparr>a_stock := a_stock act - 1, a_updated := v\<rparr>) (activities (tables w)),
        orders := orders (tables w) @ [ord]\<rparr>) (tables w')"
      using 1(2) r(11) by simp
    moreover have "?k < tick w'" using 1(3) db_body_clock [OF 1(1)] by simp
    ultimately show ?thesis
      using placed_fields [OF r(7)] r(1,2,3,5,6) orderable_open [OF r(4)]
      by (intro exI [of _ act] exI [of _ "act\<lparr>a_stock := a_stock act - 1, a_updated := v\<rparr>"] exI [of _ ?k] conjI) simp_all
  qed
qed

lemma create_order_places:
  assumes "CreateOrderContext s c u i w = (Inr (ord, left), w')" and "ledger_inv (tables w)"
  shows "\<exists>act act' k k'. places u (co_activity i) w w' ord act act' k k' \<and>
    (if os_cache s then k < k' else left = a_stock act - 1)"
proof -
  let ?fill = "if co_request_id i = '''' then bindE (randomText 8) (\<lambda>r. ret (i\<lparr>co_request_id := ''req_'' @ r\<rparr>)) else ret i"
  from assms(1) obtain j w0 where fill: "?fill w = (Inr j, w0)"
    and run: "(if os_cache s then createOrderWithRedis s u j else createOrderWithDB s u j) w0 = (Inr (ord, left), w')"
    unfolding CreateOrderContext_def by (cases c) (auto simp only: bindE_ok throw_run option.case sum.distinct)
  have t0: "tables w0 = tables w" and j: "co_activity j = co_activity i"
    using fill by (auto simp: run_simps split: if_splits dest: randomText_run)
  have "keeps ?fill" by (intro keeps_intros)
  from keepsD [OF this fill] have e0: "ext w0 = ext w" and k0: "tick w \<le> tick w0" by simp_all
  have inv: "ledger_inv (tables w0)" using assms(2) by (simp add: t0)
  obtain act act' k k' where "places u (co_activity j) w0 w' ord act act' k k'"
    and "if os_cache s then k < k' else left = a_stock act - 1"
  proof (cases "os_cache s")
    case True
    with run redis_run_places [OF _ inv, of s u j ord left w'] that show thesis by auto
  next
    case False
    with run db_run_places [OF _ inv, of s u j ord left w'] that show thesis by auto
  qed
  then show ?thesis
    unfolding t0 j e0 by (elim conjE) (intro exI [of _ act] exI [of _ act'] exI [of _ k] exI [of _ k'] conjI order_trans [OF k0]; assumption)
qed

text \<open>
  C9: an accepted activity order took exactly one unit.  Whichever path ran, the activity named in
  the request existed with stock left and was open for orders: its status was PUBLISHED (or empty) and a reading
  of the clock during the call lay between its start and its end, on the path with Redis twice, at the check
  and again at the conditional update.  The user held no order of it; the order that was added is queued, carries
  the user, the activity and its price, and stock went down by one; no other table than the log has
  changed.  Without Redis the reported stock is the stock that is left.
\<close>

theorem accepted_order:
  assumes "CreateOrderContext s c u i w = (Inr (ord, left), w')" and "ledger_inv (tables w)"
  shows "\<exists>act act' k k'. act \<in> set (activities (tables w)) \<and> a_id act = co_activity i \<and> 0 < a_stock act \<and>
    (a_status act = ActivityStatusPublished \<or> a_status act = '''') \<and>
    tick w \<le> k \<and> k \<le> k' \<and> k' < tick w' \<and> (os_cache s \<longrightarrow> k < k') \<and>
    a_start act \<le> clock (ext w) k \<and> clock (ext w) k \<le> a_end act \<and>
    a_start act \<le> clock (ext w) k' \<and> clock (ext w) k' \<le> a_end act \<and>
    (\<forall>r\<in>set (orders (tables w)). \<not> (o_user r = u \<and> o_activity r = a_id act)) \<and>
    o_user ord = u \<and> o_activity ord = a_id act \<and> o_status ord = OrderStatusQueued \<and>
    o_original ord = a_price act \<and> o_amount ord = a_price act \<and> (\<not> os_cache s \<longrightarrow> left = a_stock act - 1) \<and>
    a_id act' = a_id act \<and> a_stock act' = a_stock act - 1 \<and>
    same_but_logs ((tables w)\<lparr>activities := put_row a_id act' (activities (tables w)), orders := orders (tables w) @ [ord]\<rparr>) (tables w')"
proof -
  from create_order_places [OF assms] obtain act act' k k' where p: "places u (co_activity i) w w' ord act act' k k'"
    and "if os_cache s then k < k' else left = a_stock act - 1" by blast
  then have "os_cache s \<longrightarrow> k < k'" "\<not> os_cache s \<longrightarrow> left = a_stock act - 1" by simp_all
  with p show ?thesis
    by (elim conjE) (intro exI [of _ act] exI [of _ act'] exI [of _ k] exI [of _ k'] conjI; assumption)
qed

theorem accepted_order_witness:
  "\<exists>ord left w'. CreateOrderContext (dp_orders plain) None 7 \<lparr>co_activity = 1, co_request_id = ''r''\<rparr> demo = (Inr (ord, left), w') \<and>
     o_status ord = OrderStatusQueued \<and> o_amount ord = 7 \<and> left = 0"
proof -
  have "\<exists>ord left w'. CreateOrderContext (dp_orders plain) None 7 \<lparr>co_activity = 1, co_request_id = ''r''\<rparr> demo = (Inr (ord, left), w')"
    by (simp add: demo_defs run_eval write_eval text_eval order_eval)
  then obtain ord left w' where run: "CreateOrderContext (dp_orders plain) None 7 \<lparr>co_activity = 1, co_request_id = ''r''\<rparr> demo = (Inr (ord, left), w')"
    by blast
  have inv: "ledger_inv (tables demo)" by (simp add: demo_ledger)
  from accepted_order [OF run inv] have "o_status ord = OrderStatusQueued \<and> o_amount ord = 7 \<and> left = 0"
    by (auto simp: demo_tables_def empty_tables_def demo_activity_def plain_def NewOrderService_def)
  with run show ?thesis by blast
qed

section \<open>Cancelling\<close>

lemma cancel_run:
  assumes "CancelOrder s u no w = (Inr res, w')"
  obtains w1 where "cancel_body s u no (w\<lparr>tick := Suc (tick w)\<rparr>) = (Inr res, w1)" "same_but_logs (tables w1) (tables w')"
proof -
  from assms obtain r1 w1 where body: "cancel_body s u no (w\<lparr>tick := Suc (tick w)\<rparr>) = (Inr r1, w1)"
    and tail: "thenE (log_op ''cancel_order'' no u ''success'' ''order cancelled and stock returned'') (ret r1) (w1\<lparr>tick := Suc (tick w1)\<rparr>) = (Inr res, w')"
    unfolding CancelOrder_def by (auto simp: bindE_ok on_error_ok transaction_ok run_simps)
  have "tracks same_but_logs (thenE (log_op ''cancel_order'' no u ''success'' ''order cancelled and stock returned'') (ret r1))"
    by (intro logs_intros)
  from tracksD [OF this tail] have "same_but_logs (tables w1) (tables w')" by simp
  moreover have "r1 = res" using tail by (auto simp: run_simps)
  ultimately show thesis using body that by simp
qed

text \<open>
  C10: a successful cancellation.  The order belongs to the caller and was queued or waiting for
  payment; it is now CANCELLED and otherwise unchanged.  An activity order returned exactly one
  unit to its activity, a cart order returned to every product the quantities of its lines.
\<close>

theorem cancel_returns_stock:
  assumes "CancelOrder s u no w = (Inr res, w')" and "ledger_inv (tables w)"
  shows "cr_status res = OrderStatusCancelled \<and>
    (\<exists>ord v. ord \<in> set (orders (tables w)) \<and> o_user ord = u \<and> o_order_no ord = no \<and>
      (o_status ord = OrderStatusQueued \<or> o_status ord = OrderStatusWaitPay) \<and>
      orders (tables w') = put_row o_id (ord\<lparr>o_status := OrderStatusCancelled, o_updated := v\<rparr>) (orders (tables w)) \<and>
      (if 0 < o_activity ord
       then products (tables w') = products (tables w) \<and>
         (\<exists>act act'. act \<in> set (activities (tables w)) \<and> a_id act = o_activity ord \<and> a_id act' = a_id act \<and>
            a_stock act' = a_stock act + 1 \<and> activities (tables w') = put_row a_id act' (activities (tables w)))
       else activities (tables w') = activities (tables w) \<and>
         shifted (item_sum (filter (\<lambda>i. oi_order_no i = no) (order_items (tables w)))) (products (tables w)) (products (tables w'))))"
  using assms(1)
proof (cases rule: cancel_run)
  case (1 w1)
  from 1(1) obtain ord wr ord' x where
    ord: "find (\<lambda>r. o_user r = u \<and> o_order_no r = no) (orders (tables w)) = Some ord" "cancellable ord"
    and r: "restoreStock s ord (w\<lparr>tick := Suc (Suc (tick w))\<rparr>) = (Inr x, wr)"
    and sv: "save_order (ord\<lparr>o_status := OrderStatusCancelled\<rparr>) wr = (Inr ord', w1)"
    and res: "cr_status res = o_status ord'"
    by (auto simp: cancel_body_def run_simps)
  note same = logs_fields [OF 1(2)]
  from find_SomeD [OF ord(1)] have o: "ord \<in> set (orders (tables w))" "o_user ord = u" "o_order_no ord = no" by auto
  have st: "o_status ord = OrderStatusQueued \<or> o_status ord = OrderStatusWaitPay" using ord(2) by (simp add: cancellable_def)
  have inv: "ledger_inv (tables (w\<lparr>tick := Suc (Suc (tick w))\<rparr>))" and mem: "ord \<in> set (orders (tables (w\<lparr>tick := Suc (Suc (tick w))\<rparr>)))"
    and op: "open_order ord"
    using assms(2) o ord(2) by (simp_all add: cancellable_open)
  from r sv inv mem op show ?thesis
  proof (cases rule: return_effect)
    case (activity v act q)
    then have "\<exists>act act'. act \<in> set (activities (tables w)) \<and> a_id act = o_activity ord \<and> a_id act' = a_id act \<and>
        a_stock act' = a_stock act + 1 \<and> activities (tables w') = put_row a_id act' (activities (tables w))"
      by (intro exI [of _ act] exI [of _ "act\<lparr>a_stock := a_stock act + 1, a_updated := q\<rparr>"]) (simp add: same)
    with activity show ?thesis using o st res
      by (intro conjI exI [of _ ord] exI [of _ v]) (simp_all add: same)
  next
    case (cart v ps')
    then show ?thesis using o st res
      by (intro conjI exI [of _ ord] exI [of _ v]) (simp_all add: same)
  qed
qed

theorem cancel_returns_stock_witness:
  "\<exists>res w'. CancelOrder (dp_orders plain) 1 ''C1'' demo = (Inr res, w') \<and> cr_status res = OrderStatusCancelled"
proof -
  have "\<exists>res w'. CancelOrder (dp_orders plain) 1 ''C1'' demo = (Inr res, w')"
    by (simp add: CancelOrder_def cancel_body_def cancellable_def restoreStock_def demo_defs run_eval write_eval text_eval)
  then obtain res w' where run: "CancelOrder (dp_orders plain) 1 ''C1'' demo = (Inr res, w')" by blast
  have "ledger_inv (tables demo)" by (simp add: demo_ledger)
  from cancel_returns_stock [OF run this] run show ?thesis by blast
qed

section \<open>Checking out\<close>

definition unit_price :: "product list \<Rightarrow> nat \<Rightarrow> int" where
  "unit_price ps k = (case find (\<lambda>p. p_id p = k) ps of Some p \<Rightarrow> p_price p | None \<Rightarrow> 0)"

definition cart_cost :: "product list \<Rightarrow> cart_item list \<Rightarrow> int" where
  "cart_cost ps cs = sum_list (map (\<lambda>c. unit_price ps (ci_product c) * ci_quantity c) cs)"

lemma wrap64_add [simp]: "wrap64 (wrap64 a + b) = wrap64 (a + b)" "wrap64 (a + wrap64 b) = wrap64 (a + b)"
  by (simp_all add: wrap64_def mod_simps algebra_simps)

lemma unit_price_put_row:
  assumes "p \<in> set ps" and "p_id p' = p_id p" and "p_price p' = p_price p" and "distinct (map p_id ps)"
  shows "unit_price (put_row p_id p' ps) k = unit_price ps k"
proof (cases "k = p_id p'")
  case True
  with assms show ?thesis
    using find_put_row_same [OF assms(1), of p_id p'] find_key_unique [OF assms(4,1)] by (simp add: unit_price_def)
next
  case False
  then show ?thesis by (simp add: unit_price_def find_put_row_other)
qed

lemma checkout_loop_cost:
  assumes "checkout_loop cs n w = (Inr m, w')" and "distinct (map p_id (products (tables w)))" and "in_i64 n"
  shows "m = wrap64 (n + cart_cost (products (tables w)) (map fst cs))"
  using assms
proof (induction cs arbitrary: n w)
  case (Cons cp cs)
  obtain c q where cp: "cp = (c, q)" by (cases cp)
  from Cons.prems(1) obtain p p' w2 where
    p: "find (\<lambda>x. p_id x = ci_product c) (products (tables w)) = Some p"
    and save: "save_product (p\<lparr>p_stock := wrap64 (p_stock p - ci_quantity c)\<rparr>) (w\<lparr>tick := Suc (tick w)\<rparr>) = (Inr p', w2)"
    and rest: "checkout_loop cs (wrap64 (n + wrap64 (p_price p' * ci_quantity c))) w2 = (Inr m, w')"
    by (auto simp: run_simps cp)
  from find_SomeD [OF p] have in_p: "p \<in> set (products (tables w))" "p_id p = ci_product c" by auto
  from save_product_run [OF save] in_p(1) have
    p': "p_id p' = p_id p" "p_price p' = p_price p" and t2: "products (tables w2) = put_row p_id p' (products (tables w))"
    by (auto simp: save_row_in)
  have price: "unit_price (products (tables w)) (ci_product c) = p_price p" using p by (simp add: unit_price_def)
  have same: "unit_price (products (tables w2)) k = unit_price (products (tables w)) k" for k
    unfolding t2 by (rule unit_price_put_row [OF in_p(1) p' Cons.prems(2)])
  from Cons.IH [OF rest] Cons.prems(2)
  have "m = wrap64 (wrap64 (n + wrap64 (p_price p' * ci_quantity c)) + cart_cost (products (tables w2)) (map fst cs))"
    by (simp add: t2)
  also have "cart_cost (products (tables w2)) (map fst cs) = cart_cost (products (tables w)) (map fst cs)"
    by (simp add: cart_cost_def same)
  finally show ?case by (simp add: cp cart_cost_def price p' add.assoc)
qed (simp add: run_simps cart_cost_def)

definition coupon_of :: "tables \<Rightarrow> user_coupon \<Rightarrow> coupon" where
  "coupon_of t uc = (case find (\<lambda>c. c_id c = uc_coupon uc) (coupons t) of Some c \<Rightarrow> c | None \<Rightarrow> zero_coupon)"

lemma applyCoupon_value:
  assumes "applyCoupon u k n w = (Inr d, w')"
  shows "if k = 0 then d = 0 else (\<exists>uc\<in>set (user_coupons (tables w)). uc_id uc = k \<and> uc_user uc = u \<and>
    uc_status uc = UserCouponUnused \<and> d = c_discount (coupon_of (tables w) uc) \<and> c_threshold (coupon_of (tables w) uc) \<le> n)"
proof (cases "k = 0")
  case True
  with assms show ?thesis by (simp add: applyCoupon_def run_simps)
next
  case False
  with assms obtain uc where "find (\<lambda>u'. uc_id u' = k \<and> uc_user u' = u) (user_coupons (tables w)) = Some uc"
    "uc_status uc = UserCouponUnused" "d = c_discount (coupon_of (tables w) uc)" "c_threshold (coupon_of (tables w) uc) \<le> n"
    by (auto simp: applyCoupon_def run_simps preload_coupon_def coupon_of_def split: if_splits)
  with False find_SomeD [OF this(1)] show ?thesis by auto
qed

lemma checkout_run:
  assumes "CheckoutCart u k w = (Inr ord, w')"
  obtains w1 where "checkout_body u k (w\<lparr>tick := Suc (tick w)\<rparr>) = (Inr ord, w1)" "same_but_logs (tables w1) (tables w')"
proof -
  let ?f = "\<lambda>ord. thenE (log_op ''checkout_cart'' (o_order_no ord) u ''success''
              (''amount='' @ itoa (o_amount ord) @ '' discount='' @ itoa (o_discount ord))) (ret ord)"
  from assms obtain o1 w1 where body: "checkout_body u k (w\<lparr>tick := Suc (tick w)\<rparr>) = (Inr o1, w1)"
    and tail: "?f o1 (w1\<lparr>tick := Suc (tick w1)\<rparr>) = (Inr ord, w')"
    unfolding CheckoutCart_def by (auto simp: bindE_ok on_error_ok transaction_ok run_simps)
  have "tracks same_but_logs (?f o1)" by (intro logs_intros)
  from tracksD [OF this tail] have "same_but_logs (tables w1) (tables w')" by simp
  moreover have "o1 = ord" using tail by (auto simp: run_simps)
  ultimately show thesis using body that by simp
qed

lemma checkout_goods:
  assumes loop: "checkout_loop cs 0 w1 = (Inr orig, w2)" and same: "tables w1 = t" and inv: "ledger_inv t"
  obtains ps' where "tables w2 = t\<lparr>products := ps'\<rparr>" "\<forall>p\<in>set ps'. 0 \<le> p_stock p"
    "orig = wrap64 (cart_cost (products t) (map fst cs))"
    "shifted (\<lambda>p. - sum_list (map (\<lambda>c. if ci_product c = p then ci_quantity c else 0) (map fst cs))) (products t) ps'"
proof -
  have keys: "distinct (map p_id (products (tables w1)))" using inv same by (simp add: ledger_inv_def keys_inv_def)
  have "\<forall>p\<in>set (products (tables w1)). 0 \<le> p_stock p \<and> in_i64 (p_stock p)"
    using inv product_room(1) [OF inv] same by (auto simp: ledger_inv_def stock_inv_def)
  from checkout_loop_run [OF loop keys this] obtain ps' where
    "tables w2 = t\<lparr>products := ps'\<rparr>" "shifted (\<lambda>p. - cart_need cs p) (products t) ps'" "\<forall>p\<in>set ps'. 0 \<le> p_stock p"
    by (auto simp: same)
  moreover have "(\<lambda>p. - cart_need cs p) = (\<lambda>p. - sum_list (map (\<lambda>c. if ci_product c = p then ci_quantity c else 0) (map fst cs)))"
    by (simp add: cart_need_def comp_def split_def)
  ultimately show thesis
    using that [of ps'] checkout_loop_cost [OF loop keys] same by (simp add: in_i64_def)
qed

text \<open>
  C11: what a successful checkout charges and takes.  The cart was not empty; the order is the
  caller's and waits for payment; the original amount is the cost of the cart lines at the stored
  prices (in 64-bit arithmetic), the discount comes from an unused coupon of the caller whose
  threshold is reached, and the amount to pay is their difference, never negative.  The order was
  added, the caller's cart is empty, and each product lost exactly the quantities of the cart
  without going negative.
\<close>

theorem checkout_charges:
  assumes "CheckoutCart u k w = (Inr ord, w')" and "ledger_inv (tables w)"
  shows "filter (\<lambda>c. ci_user c = u) (cart_items (tables w)) \<noteq> [] \<and>
    o_user ord = u \<and> o_activity ord = 0 \<and> o_status ord = OrderStatusWaitPay \<and>
    o_original ord = wrap64 (cart_cost (products (tables w)) (filter (\<lambda>c. ci_user c = u) (cart_items (tables w)))) \<and>
    (if cc_user_coupon k = 0 then o_discount ord = 0
     else (\<exists>uc\<in>set (user_coupons (tables w)). uc_id uc = cc_user_coupon k \<and> uc_user uc = u \<and>
       uc_status uc = UserCouponUnused \<and> o_discount ord = c_discount (coupon_of (tables w) uc) \<and>
       c_threshold (coupon_of (tables w) uc) \<le> o_original ord)) \<and>
    o_amount ord = max 0 (wrap64 (o_original ord - o_discount ord)) \<and>
    orders (tables w') = orders (tables w) @ [ord] \<and>
    filter (\<lambda>c. ci_user c = u) (cart_items (tables w')) = [] \<and>
    shifted (\<lambda>p. - sum_list (map (\<lambda>c. if ci_product c = p then ci_quantity c else 0)
        (filter (\<lambda>c. ci_user c = u) (cart_items (tables w))))) (products (tables w)) (products (tables w')) \<and>
    (\<forall>p\<in>set (products (tables w')). 0 \<le> p_stock p)"
  using assms(1)
proof (cases rule: checkout_run)
  case (1 wc)
  let ?cart = "filter (\<lambda>c. ci_user c = u) (cart_items (tables w))"
  note same = logs_fields [OF 1(2)]
  from 1(1) show ?thesis
  proof (cases rule: checkout_body_stages)
    case s: (1 cs w1 orig w2 disc w3 no r w4 w5 x)
    have t1: "tables w1 = tables w" and cart: "map fst cs = ?cart" using s(1,2) by simp_all
    from checkout_goods [OF s(4) t1 assms(2), unfolded cart] obtain ps' where
      t2: "tables w2 = (tables w)\<lparr>products := ps'\<rparr>" and nn: "\<forall>p\<in>set ps'. 0 \<le> p_stock p"
      and orig: "orig = wrap64 (cart_cost (products (tables w)) ?cart)"
      and sh: "shifted (\<lambda>p. - sum_list (map (\<lambda>c. if ci_product c = p then ci_quantity c else 0) ?cart)) (products (tables w)) ps'" .
    have tt: "coupon_of (tables w2) = coupon_of (tables w)" "user_coupons (tables w2) = user_coupons (tables w)"
      by (auto simp: coupon_of_def t2)
    from applyCoupon_value [OF s(5), unfolded tt] have disc: "if cc_user_coupon k = 0 then disc = 0 else
       (\<exists>uc\<in>set (user_coupons (tables w)). uc_id uc = cc_user_coupon k \<and> uc_user uc = u \<and>
       uc_status uc = UserCouponUnused \<and> disc = c_discount (coupon_of (tables w) uc) \<and> c_threshold (coupon_of (tables w) uc) \<le> orig)" .
    from applyCoupon_run [OF s(5)] obtain uc where t3: "tables w3 = (tables w)\<lparr>products := ps', user_coupons := uc\<rparr>"
      by (auto simp: t2)
    note mk = create_order_run [OF s(7)]
    have row: "o_user ord = u" "o_activity ord = 0" "o_status ord = OrderStatusWaitPay" "o_original ord = orig"
      "o_discount ord = disc" "o_amount ord = max 0 (wrap64 (orig - disc))"
      using mk by (auto simp: max_def)
    from checkout_items_run [OF s(8)] obtain "is" where
      tx: "tables x = (tables w5)\<lparr>order_items := order_items (tables w5) @ is\<rparr>" by blast
    have t': "tables wc = (tables x)\<lparr>cart_items := filter (\<lambda>c. ci_user c \<noteq> u) (cart_items (tables x))\<rparr>"
      using s(9) by (auto simp: delete_cart_items_def stmt_ok)
    have final: "orders (tables wc) = orders (tables w) @ [ord]" "products (tables wc) = ps'"
      "filter (\<lambda>c. ci_user c = u) (cart_items (tables wc)) = []"
      using mk by (auto simp: t' tx s(6) t3 filter_empty_conv)
    have "?cart \<noteq> []" using s(3) cart by (metis map_is_Nil_conv)
    then show ?thesis
      using row orig disc [unfolded orig] final nn sh
      by (cases "cc_user_coupon k = 0") (simp_all add: same)
  qed
qed

theorem checkout_charges_witness:
  "\<exists>ord w'. CheckoutCart 1 \<lparr>cc_address = 1, cc_user_coupon = 1\<rparr> demo = (Inr ord, w') \<and>
     o_original ord = 20 \<and> o_discount ord = 3 \<and> o_amount ord = 17"
proof -
  have "\<exists>ord w'. CheckoutCart 1 \<lparr>cc_address = 1, cc_user_coupon = 1\<rparr> demo = (Inr ord, w')"
    by (simp add: CheckoutCart_def checkout_body_def preload_products_def applyCoupon_def preload_coupon_def
        time_before_def time_after_def demo_defs run_eval write_eval text_eval)
  then obtain ord w' where run: "CheckoutCart 1 \<lparr>cc_address = 1, cc_user_coupon = 1\<rparr> demo = (Inr ord, w')" by blast
  have inv: "ledger_inv (tables demo)" by (simp add: demo_ledger)
  from checkout_charges [OF run inv] have "o_original ord = 20 \<and> o_discount ord = 3 \<and> o_amount ord = 17"
    by (simp add: demo_tables_def empty_tables_def demo_product_def cart_cost_def unit_price_def coupon_of_def demo_coupon_def
        wrap64_def UserCouponUnused_def)
  with run show ?thesis by blast
qed

section \<open>Processing a queued order\<close>

lemma process_run:
  assumes "processOrderCreated done n no w = (Inr x, w')"
  obtains w1 where "process_body no (w\<lparr>tick := Suc (tick w)\<rparr>) = (Inr (), w1)" "same_but_logs (tables w1) (tables w')" "done = None"
proof -
  let ?l = "log_op ''order_created_async'' no 0 ''success'' (''worker='' @ utoa n @ '' moved order to WAIT_PAY'')"
  from assms obtain w1 where d: "done = None" and body: "process_body no (w\<lparr>tick := Suc (tick w)\<rparr>) = (Inr (), w1)"
    and tail: "?l (w1\<lparr>tick := Suc (tick w1)\<rparr>) = (Inr x, w')"
    unfolding processOrderCreated_def by (auto simp: bindE_ok on_error_ok transaction_ok run_simps split: option.splits)
  from tracksD [OF logs_log tail] body d that show thesis by simp
qed

lemma process_body_effect:
  assumes body: "process_body no wa = (Inr (), wb)" and t: "tables wa = t"
  shows "\<exists>ord v. find (\<lambda>r. o_order_no r = no) (orders t) = Some ord \<and>
      tables wb = (if o_status ord = OrderStatusQueued
        then t\<lparr>orders := put_row o_id (ord\<lparr>o_status := OrderStatusWaitPay, o_updated := v\<rparr>) (orders t)\<rparr> else t)"
proof -
  from body t obtain ord where ord: "find (\<lambda>r. o_order_no r = no) (orders t) = Some ord"
    and rest: "o_status ord \<noteq> OrderStatusQueued \<and> tables wb = t \<or> o_status ord = OrderStatusQueued \<and>
      (\<exists>ord'. save_order (ord\<lparr>o_status := OrderStatusWaitPay\<rparr>) (wa\<lparr>tick := Suc (tick wa)\<rparr>) = (Inr ord', wb))"
    by (auto simp: process_body_def run_simps split: if_splits)
  from rest show ?thesis
  proof (elim disjE conjE exE)
    fix ord' assume q: "o_status ord = OrderStatusQueued"
      and sv: "save_order (ord\<lparr>o_status := OrderStatusWaitPay\<rparr>) (wa\<lparr>tick := Suc (tick wa)\<rparr>) = (Inr ord', wb)"
    from save_order_run [OF sv] find_SomeD [OF ord] t obtain v where
      "tables wb = t\<lparr>orders := put_row o_id (ord\<lparr>o_status := OrderStatusWaitPay, o_updated := v\<rparr>) (orders t)\<rparr>"
      by (auto simp: save_row_in)
    with q ord show ?thesis by auto
  next
    assume "o_status ord \<noteq> OrderStatusQueued" "tables wb = t"
    with ord show ?thesis by simp
  qed
qed

lemma process_body_settles:
  assumes run: "process_body no wa = (Inr (), wb)" and t: "tables wa = t" and inv: "ledger_inv t"
  obtains ord v where "ord \<in> set (orders t)" "o_order_no ord = no"
    "tables wb = (if o_status ord = OrderStatusQueued
       then t\<lparr>orders := put_row o_id (ord\<lparr>o_status := OrderStatusWaitPay, o_updated := v\<rparr>) (orders t)\<rparr> else t)"
    "\<forall>x\<in>set (orders (tables wb)). o_order_no x = no \<longrightarrow> o_status x \<noteq> OrderStatusQueued"
    "\<forall>x\<in>set (orders (tables wb)). o_status x = OrderStatusQueued \<longrightarrow> x \<in> set (orders t)"
    "o_order_no ` set (orders (tables wb)) = o_order_no ` set (orders t)"
proof -
  have d: "distinct (map o_order_no (orders t))" "distinct (map o_id (orders t))"
    using inv by (simp_all add: ledger_inv_def keys_inv_def)
  from process_body_effect [OF run t] obtain ord v where
    f: "find (\<lambda>r. o_order_no r = no) (orders t) = Some ord" and
    tb: "tables wb = (if o_status ord = OrderStatusQueued
      then t\<lparr>orders := put_row o_id (ord\<lparr>o_status := OrderStatusWaitPay, o_updated := v\<rparr>) (orders t)\<rparr> else t)"
    by blast
  from find_SomeD [OF f] have o: "ord \<in> set (orders t)" "o_order_no ord = no" by auto
  have only: "x = ord" if "x \<in> set (orders t)" "o_order_no x = no" for x
    using distinct_key_unique [OF d(1) that(1) o(1)] that(2) o(2) by simp
  let ?o = "ord\<lparr>o_status := OrderStatusWaitPay, o_updated := v\<rparr>"
  have rest: "(o_order_no x = no \<longrightarrow> o_status x \<noteq> OrderStatusQueued) \<and> (o_status x = OrderStatusQueued \<longrightarrow> x \<in> set (orders t))"
    if x: "x \<in> set (orders (tables wb))" for x
  proof (cases "o_status ord = OrderStatusQueued")
    case True
    with tb x have "x \<in> set (put_row o_id ?o (orders t))" by simp
    from in_put_row [OF this] have "x = ?o \<or> x \<in> set (orders t) \<and> x \<noteq> ord" by auto
    then show ?thesis using only by (auto simp: order_status_defs)
  qed (use tb x only in auto)
  have "map o_order_no (orders (tables wb)) = map o_order_no (orders t)"
    using tb put_row_map_other [OF d(2) o(1), of ?o o_order_no] by simp
  then have "o_order_no ` set (orders (tables wb)) = o_order_no ` set (orders t)" by (metis set_map)
  with rest show thesis by (intro that [OF o tb]) simp_all
qed

text \<open>
  C12: a worker's delivery is idempotent.  A successful processing leaves everything but the log
  unchanged unless the order was queued, and then moves exactly that order to WAIT_PAY;
  processing the same order number again changes nothing more.
\<close>

theorem processing_idempotent:
  assumes "processOrderCreated done n no w = (Inr x, w1)" and "processOrderCreated done' n' no w1 = (Inr y, w2)"
    and "ledger_inv (tables w)"
  shows "(\<exists>ord v. ord \<in> set (orders (tables w)) \<and> o_order_no ord = no \<and>
      orders (tables w1) = (if o_status ord = OrderStatusQueued
        then put_row o_id (ord\<lparr>o_status := OrderStatusWaitPay, o_updated := v\<rparr>) (orders (tables w)) else orders (tables w))) \<and>
    same_but_logs ((tables w)\<lparr>orders := orders (tables w1)\<rparr>) (tables w1) \<and>
    same_but_logs (tables w1) (tables w2)"
proof -
  from assms(1) obtain wa where a: "process_body no (w\<lparr>tick := Suc (tick w)\<rparr>) = (Inr (), wa)" "same_but_logs (tables wa) (tables w1)"
    by (rule process_run)
  from assms(2) obtain wb where b: "process_body no (w1\<lparr>tick := Suc (tick w1)\<rparr>) = (Inr (), wb)" "same_but_logs (tables wb) (tables w2)"
    by (rule process_run)
  have "tables (w\<lparr>tick := Suc (tick w)\<rparr>) = tables w" by simp
  from process_body_settles [OF a(1) this assms(3)] obtain ord v where ord: "ord \<in> set (orders (tables w))" "o_order_no ord = no"
    and ta: "tables wa = (if o_status ord = OrderStatusQueued
        then (tables w)\<lparr>orders := put_row o_id (ord\<lparr>o_status := OrderStatusWaitPay, o_updated := v\<rparr>) (orders (tables w))\<rparr> else tables w)"
    and over: "\<forall>x\<in>set (orders (tables wa)). o_order_no x = no \<longrightarrow> o_status x \<noteq> OrderStatusQueued"
    by metis
  note os1 = logs_fields(8) [OF a(2)]
  from process_body_effect [OF b(1), of "tables w1"] obtain ord2 v2 where
    ord2: "find (\<lambda>r. o_order_no r = no) (orders (tables w1)) = Some ord2"
    and tb: "tables wb = (if o_status ord2 = OrderStatusQueued
        then (tables w1)\<lparr>orders := put_row o_id (ord2\<lparr>o_status := OrderStatusWaitPay, o_updated := v2\<rparr>) (orders (tables w1))\<rparr> else tables w1)"
    by auto
  have "o_status ord2 \<noteq> OrderStatusQueued" using find_SomeD [OF ord2] over os1 by auto
  with tb b(2) have "same_but_logs (tables w1) (tables w2)" by simp
  moreover have "same_but_logs ((tables w)\<lparr>orders := orders (tables w1)\<rparr>) (tables w1)"
    using a(2) ta os1 by (cases "o_status ord = OrderStatusQueued") simp_all
  moreover have "orders (tables w1) = (if o_status ord = OrderStatusQueued
        then put_row o_id (ord\<lparr>o_status := OrderStatusWaitPay, o_updated := v\<rparr>) (orders (tables w)) else orders (tables w))"
    using os1 ta by simp
  ultimately show ?thesis using ord by blast
qed

theorem processing_idempotent_witness:
  "\<exists>w1 w2. processOrderCreated None 1 ''A1'' demo = (Inr (), w1) \<and> processOrderCreated None 2 ''A1'' w1 = (Inr (), w2) \<and>
     orders (tables w2) = orders (tables w1)"
proof -
  have "\<exists>w1 w2. processOrderCreated None 1 ''A1'' demo = (Inr (), w1) \<and> processOrderCreated None 2 ''A1'' w1 = (Inr (), w2)"
    by (simp add: processOrderCreated_def process_body_def demo_defs run_eval write_eval text_eval)
  then obtain w1 w2 where run: "processOrderCreated None 1 ''A1'' demo = (Inr (), w1)" "processOrderCreated None 2 ''A1'' w1 = (Inr (), w2)"
    by blast
  have inv: "ledger_inv (tables demo)" by (simp add: demo_ledger)
  from processing_idempotent [OF run inv] run show ?thesis by (blast dest: logs_fields(8))
qed

end
