(* ===== verification/Liveness.thy ===== *)
theory Liveness
  imports OrderProps
begin

text \<open>
  What is sure to happen when no outside call fails: statements on a world whose \<open>fault\<close> is
  \<open>None\<close> throughout.  A sweep for timed-out orders then closes every one of them and no other, and
  a message that can never be processed ends in the dead-letter queue after the configured number
  of retries.
\<close>

section \<open>Quiet runs\<close>

lemma quiet_find: "quiet (ext w) \<Longrightarrow> find P (sel (tables w)) = Some r \<Longrightarrow>
   first_by sel P w = (Inr r, w\<lparr>tick := Suc (tick w)\<rparr>)"
  by (simp add: first_by_ok quiet_def)

lemma quiet_transaction:
  assumes "quiet (ext w)" and "m (w\<lparr>tick := Suc (tick w)\<rparr>) = (Inr x, w1)" and "ext w1 = ext w"
  shows "transaction m w = (Inr x, w1\<lparr>tick := Suc (tick w1)\<rparr>)"
  using assms by (simp add: transaction_ok quiet_def)

lemma log_run: "\<exists>w'. log_op a no u r m w = (Inr (), w') \<and> ext w' = ext w \<and> same_but_logs (tables w) (tables w') \<and>
   redis w' = redis w \<and> mq w' = mq w \<and> dlq w' = dlq w \<and> tasks w' = tasks w"
proof -
  obtain w' where l: "log_op a no u r m w = (Inr (), w')" using log_op_total by blast
  from log_op_tables [OF l] tracksD [OF logs_log l] l show ?thesis by blast
qed

section \<open>Closing an order cannot fail\<close>

lemma save_no_conflict:
  assumes "ledger_inv t" and "ord \<in> set (orders t)"
  shows "order_conflict (orders t) (ord\<lparr>o_status := s, o_updated := u\<rparr>) = None"
proof -
  have "distinct (map o_order_no (orders t))" and idx: "index_inv t"
    using assms(1) by (simp_all add: ledger_inv_def keys_inv_def)
  then have "x \<in> set (orders t) \<Longrightarrow> o_order_no x = o_order_no ord \<Longrightarrow> o_id x = o_id ord" for x
    using distinct_key_unique assms(2) by metis
  moreover have "x \<in> set (orders t) \<Longrightarrow> o_key ord \<noteq> None \<Longrightarrow> o_key x = o_key ord \<Longrightarrow> o_id x = o_id ord" for x
    using idx assms(2) unfolding index_inv_def by metis
  ultimately show ?thesis unfolding order_conflict_def by auto
qed

lemma restore_items_returns:
  assumes "quiet (ext w)" and "\<forall>i\<in>set is. oi_product i \<in> p_id ` set (products (tables w))"
  shows "\<exists>w'. restore_items is w = (Inr (), w') \<and> ext w' = ext w \<and> orders (tables w') = orders (tables w)"
  using assms
proof (induction "is" arbitrary: w)
  case Nil
  then show ?case by (simp add: ret_def)
next
  case (Cons i js)
  from Cons.prems(2) obtain p where p: "find (\<lambda>x. p_id x = oi_product i) (products (tables w)) = Some p"
    by (cases "find (\<lambda>x. p_id x = oi_product i) (products (tables w))") (auto dest: find_NoneD)
  let ?p = "p\<lparr>p_stock := wrap64 (p_stock p + oi_quantity i)\<rparr>"
  obtain p' w2 where save: "save_product ?p (w\<lparr>tick := Suc (tick w)\<rparr>) = (Inr p', w2)"
    using Cons.prems(1) by (simp add: save_product_def quiet_stmt Let_def)
  from save_product_run [OF save] obtain t2: "tables w2 = (tables w)\<lparr>products := save_row p_id p' (products (tables w))\<rparr>"
    "ext w2 = ext w" "p_id p' = p_id p" by auto
  have "p_id ` set (products (tables w2)) = p_id ` set (products (tables w))"
  proof -
    have "save_row p_id p' (products (tables w)) = put_row p_id p' (products (tables w))"
      using find_SomeD [OF p] t2(3) by (intro save_row_in [of p]) auto
    then show ?thesis by (simp add: t2(1) image_put_row)
  qed
  with Cons.prems t2 Cons.IH [of w2] obtain w' where
    "restore_items js w2 = (Inr (), w')" "ext w' = ext w2" "orders (tables w') = orders (tables w2)" by auto
  moreover have "first_by products (\<lambda>x. p_id x = oi_product i) w = (Inr p, w\<lparr>tick := Suc (tick w)\<rparr>)"
    using quiet_find [where sel = products, OF Cons.prems(1) p] .
  ultimately show ?case using save t2 by (intro exI [of _ w']) (simp add: bindE_def)
qed

lemma restoreStock_returns:
  assumes "quiet (ext w)" and inv: "ledger_inv (tables w)" and ord: "ord \<in> set (orders (tables w))" and "\<not> os_cache s"
  shows "\<exists>w'. restoreStock s ord w = (Inr (), w') \<and> ext w' = ext w \<and> orders (tables w') = orders (tables w)"
proof (cases "0 < o_activity ord")
  case True
  with inv ord have "o_activity ord \<in> a_id ` set (activities (tables w))"
    unfolding ledger_inv_def refs_inv_def by blast
  then obtain act where act: "find (\<lambda>a. a_id a = o_activity ord) (activities (tables w)) = Some act"
    by (cases "find (\<lambda>a. a_id a = o_activity ord) (activities (tables w))") (auto dest: find_NoneD)
  show ?thesis
    using True assms(1,4) act
    by (simp add: restoreStock_def bindE_def quiet_find save_activity_def quiet_stmt Let_def ret_def)
next
  case False
  let ?is = "filter (\<lambda>i. oi_order_no i = o_order_no ord) (order_items (tables w))"
  have "\<forall>i\<in>set ?is. oi_product i \<in> p_id ` set (products (tables (w\<lparr>tick := Suc (tick w)\<rparr>)))"
    using inv by (auto simp: ledger_inv_def refs_inv_def)
  from restore_items_returns [OF _ this] assms(1) obtain w' where
    "restore_items ?is (w\<lparr>tick := Suc (tick w)\<rparr>) = (Inr (), w')" "ext w' = ext w" "orders (tables w') = orders (tables w)"
    by auto
  with False assms(1) show ?thesis
    by (simp add: restoreStock_def bindE_def find_all_def quiet_stmt)
qed

lemma expire_body_closes:
  assumes "quiet (ext w)" and inv: "ledger_inv (tables w)" and ord: "ord \<in> set (orders (tables w))" "cancellable ord" and "\<not> os_cache s"
  shows "\<exists>w' u. expire_body s (o_order_no ord) w = (Inr (), w') \<and> ext w' = ext w \<and>
     orders (tables w') = put_row o_id (ord\<lparr>o_status := OrderStatusClosed, o_updated := u\<rparr>) (orders (tables w))"
proof -
  let ?w = "w\<lparr>tick := Suc (tick w)\<rparr>"
  have "distinct (map o_order_no (orders (tables w)))" using inv by (simp add: ledger_inv_def keys_inv_def)
  from find_key_unique [OF this ord(1)] have fnd: "find (\<lambda>r. o_order_no r = o_order_no ord) (orders (tables w)) = Some ord" .
  obtain w1 where r: "restoreStock s ord ?w = (Inr (), w1)" "ext w1 = ext w" "orders (tables w1) = orders (tables w)"
    using restoreStock_returns [of ?w ord s] assms by auto
  have q: "quiet (ext w1)" using assms(1) r(2) by simp
  have sv: "save_order (ord\<lparr>o_status := OrderStatusClosed\<rparr>) w1 =
    (Inr (ord\<lparr>o_status := OrderStatusClosed, o_updated := clock (ext w1) (tick w1)\<rparr>),
     w1\<lparr>tick := Suc (tick w1), tables := (tables w1)\<lparr>orders := put_row o_id (ord\<lparr>o_status := OrderStatusClosed, o_updated := clock (ext w1) (tick w1)\<rparr>) (orders (tables w))\<rparr>\<rparr>)"
    using q ord(1) save_no_conflict [OF inv ord(1), where s = OrderStatusClosed and u = "clock (ext w1) (tick w1)"] r(3)
    by (simp add: save_order_def quiet_stmt Let_def save_row_in)
  have "expire_body s (o_order_no ord) w = (Inr (), w1\<lparr>tick := Suc (tick w1), tables := (tables w1)\<lparr>orders :=
      put_row o_id (ord\<lparr>o_status := OrderStatusClosed, o_updated := clock (ext w1) (tick w1)\<rparr>) (orders (tables w))\<rparr>\<rparr>)"
    using quiet_find [where sel = orders and w = w and P = "\<lambda>r. o_order_no r = o_order_no ord", OF assms(1) fnd] ord(2) r(1) sv
    by (simp add: expire_body_def bindE_def ret_def)
  then show ?thesis using r(2) by auto
qed

section \<open>A sweep closes every order that is due\<close>

lemma expire_step:
  assumes "quiet (ext w)" and inv: "ledger_inv (tables w)" and ord: "ord \<in> set (orders (tables w))" "cancellable ord" and "\<not> os_cache s"
  obtains w' u where "expire_loop s (ord # rest) n w = expire_loop s rest (wrap64 (n + 1)) w'" "ext w' = ext w"
    "ledger_inv (tables w')"
    "orders (tables w') = put_row o_id (ord\<lparr>o_status := OrderStatusClosed, o_updated := u\<rparr>) (orders (tables w))"
proof -
  let ?w = "w\<lparr>tick := Suc (tick w)\<rparr>"
  obtain w1 u where b: "expire_body s (o_order_no ord) ?w = (Inr (), w1)" "ext w1 = ext w"
    "orders (tables w1) = put_row o_id (ord\<lparr>o_status := OrderStatusClosed, o_updated := u\<rparr>) (orders (tables w))"
    using expire_body_closes [of ?w ord s] assms by auto
  have "ledger_inv (tables w1)"
    using expire_returns [OF b(1)] inv ev_ledger by auto
  from quiet_transaction [where m = "expire_body s (o_order_no ord)" and w = w, OF assms(1) b(1,2)] have
    tx: "transaction (expire_body s (o_order_no ord)) w = (Inr (), w1\<lparr>tick := Suc (tick w1)\<rparr>)" .
  obtain w2 where l: "log_op ''expire_order'' (o_order_no ord) (o_user ord) ''success''
      ''order timeout closed and stock returned'' (w1\<lparr>tick := Suc (tick w1)\<rparr>) = (Inr (), w2)"
    "ext w2 = ext w1" "same_but_logs (tables w1) (tables w2)"
    using log_run [of "''expire_order''" "o_order_no ord" "o_user ord" "''success''" "''order timeout closed and stock returned''" "w1\<lparr>tick := Suc (tick w1)\<rparr>"]
    by auto
  have "ledger_inv (tables w2)"
    using l(3) \<open>ledger_inv (tables w1)\<close> ev_log [of "tables w1" "operation_logs (tables w2)"] ev_ledger
    unfolding same_but_logs_def by metis
  moreover have "expire_loop s (ord # rest) n w = expire_loop s rest (wrap64 (n + 1)) w2"
    using tx l(1) by (simp add: bindE_attempt) (simp add: bindE_def)
  ultimately show thesis using that [of w2 u] l b by (simp add: logs_fields(8) [OF l(3)])
qed

lemma expire_loop_closes:
  assumes "quiet (ext w)" and "ledger_inv (tables w)" and "\<not> os_cache s"
    and "\<forall>x\<in>set due. x \<in> set (orders (tables w)) \<and> cancellable x" and "distinct (map o_id due)"
  shows "\<exists>w'. expire_loop s due n w = (Inr (if due = [] then n else wrap64 (n + int (length due))), w') \<and>
    (\<forall>x\<in>set (orders (tables w)). \<exists>y\<in>set (orders (tables w')). if x \<in> set due
       then y = x\<lparr>o_status := OrderStatusClosed, o_updated := o_updated y\<rparr> else y = x)"
  using assms
proof (induction due arbitrary: n w)
  case Nil
  then show ?case by (auto simp: ret_def)
next
  case (Cons ord rest)
  let ?c = "\<lambda>u. ord\<lparr>o_status := OrderStatusClosed, o_updated := u\<rparr>"
  from Cons.prems have ord: "ord \<in> set (orders (tables w))" "cancellable ord" by auto
  obtain w1 u where st: "expire_loop s (ord # rest) n w = expire_loop s rest (wrap64 (n + 1)) w1" "ext w1 = ext w"
    "ledger_inv (tables w1)" "orders (tables w1) = put_row o_id (?c u) (orders (tables w))"
    using expire_step [OF Cons.prems(1,2) ord Cons.prems(3)] by metis
  have ids: "distinct (map o_id (orders (tables w)))" using Cons.prems(2) by (simp add: ledger_inv_def keys_inv_def)
  have rest_in: "x \<in> set (orders (tables w1)) \<and> cancellable x" if "x \<in> set rest" for x
  proof -
    from Cons.prems(5) have "o_id ord \<notin> o_id ` set rest" by simp
    with that have "o_id x \<noteq> o_id ord" by (metis imageI)
    with that Cons.prems(4) show ?thesis by (simp add: st(4) set_put_row)
  qed
  from Cons.IH [of w1 "wrap64 (n + 1)"] Cons.prems st rest_in obtain w' where
    run: "expire_loop s rest (wrap64 (n + 1)) w1 = (Inr (if rest = [] then wrap64 (n + 1) else wrap64 (wrap64 (n + 1) + int (length rest))), w')"
    and rows: "\<forall>x\<in>set (orders (tables w1)). \<exists>y\<in>set (orders (tables w')). if x \<in> set rest
       then y = x\<lparr>o_status := OrderStatusClosed, o_updated := o_updated y\<rparr> else y = x" by auto
  have "\<exists>y\<in>set (orders (tables w')). if x \<in> set (ord # rest)
       then y = x\<lparr>o_status := OrderStatusClosed, o_updated := o_updated y\<rparr> else y = x"
    if x: "x \<in> set (orders (tables w))" for x
  proof (cases "x = ord")
    case True
    have "?c u \<in> set (orders (tables w1))" using ord(1) by (auto simp: st(4) set_put_row)
    moreover have "?c u \<notin> set rest" using rest_in [of "?c u"] by (auto simp: cancellable_def)
    ultimately have "?c u \<in> set (orders (tables w'))" using rows by force
    then show ?thesis by (intro bexI [where x = "?c u"]) (simp_all add: True)
  next
    case False
    with x ord(1) ids have "o_id x \<noteq> o_id ord" by (metis distinct_key_unique)
    with x have "x \<in> set (orders (tables w1))" by (simp add: st(4) set_put_row)
    with rows False show ?thesis by simp
  qed
  then show ?case using run st(1) by (auto simp: algebra_simps)
qed

text \<open>
  C13: an expiry sweep is complete and exact.  Without Redis and when no statement fails, it
  returns the number of orders it found, every order that was still open and created no later
  than the cutoff is CLOSED afterwards, and every other order row is exactly as it was.
\<close>

theorem sweep_closes_due_orders:
  assumes "quiet (ext w)" and "ledger_inv (tables w)" and "\<not> os_cache s"
  shows "\<exists>w' due. due = filter (\<lambda>r. cancellable r \<and> o_created r \<le> cutoff_before (clock (ext w) (tick w)) (max 0 n)) (orders (tables w)) \<and>
    ExpireOrders s n w = (Inr (wrap64 (int (length due))), w') \<and>
    (\<forall>x\<in>set (orders (tables w)). \<exists>y\<in>set (orders (tables w')). if x \<in> set due
       then y = x\<lparr>o_status := OrderStatusClosed, o_updated := o_updated y\<rparr> else y = x)"
proof -
  let ?due = "filter (\<lambda>r. cancellable r \<and> o_created r \<le> cutoff_before (clock (ext w) (tick w)) (max 0 n)) (orders (tables w))"
  let ?w = "w\<lparr>tick := Suc (Suc (tick w))\<rparr>"
  have "distinct (map o_id ?due)" using assms(2) by (simp add: ledger_inv_def keys_inv_def distinct_map_filter)
  with expire_loop_closes [of ?w s ?due 0] assms obtain w' where
    run: "expire_loop s ?due 0 ?w = (Inr (if ?due = [] then 0 else wrap64 (0 + int (length ?due))), w')" and
    rows: "\<forall>x\<in>set (orders (tables w)). \<exists>y\<in>set (orders (tables w')). if x \<in> set ?due
       then y = x\<lparr>o_status := OrderStatusClosed, o_updated := o_updated y\<rparr> else y = x" by auto
  have "(if n < 0 then 0 else n) = max 0 n" by simp
  then have "ExpireOrders s n w = expire_loop s ?due 0 ?w"
    using assms(1) by (simp add: ExpireOrders_def Let_def bindE_def time_now_def find_all_def quiet_stmt)
  moreover have "(if ?due = [] then 0 else wrap64 (0 + int (length ?due))) = wrap64 (int (length ?due))" by (simp add: in_i64_def)
  ultimately show ?thesis using run rows by (intro exI [of _ w'] exI [of _ ?due]) simp
qed

theorem sweep_closes_due_orders_witness:
  "\<exists>w'. ExpireOrders (dp_orders plain) 0 demo = (Inr 3, w')"
proof -
  have pre: "quiet (ext demo)" "ledger_inv (tables demo)" "\<not> os_cache (dp_orders plain)"
    by (simp_all add: quiet_def calm_def demo_ledger plain_def NewOrderService_def)
  from sweep_closes_due_orders [OF pre, of 0] obtain w' due where
    due: "due = filter (\<lambda>r. cancellable r \<and> o_created r \<le> cutoff_before (clock (ext demo) (tick demo)) (max 0 0)) (orders (tables demo))"
    and run: "ExpireOrders (dp_orders plain) 0 demo = (Inr (wrap64 (int (length due))), w')" by blast
  have "length due = 3"
    unfolding due by (simp add: demo_tables_def demo_order_def cancellable_def cutoff_before_def calm_def wrap64_def go_second_def)
  with run show ?thesis by (simp add: in_i64_def)
qed

end
