(* ===== verification/Delivery.thy ===== *)
theory Delivery
  imports Liveness
begin

text \<open>
  What becomes of a message of the order queue: a delivery that is acknowledged is never lost, and
  when no outside call fails the consumers empty the queue, every message either processed or in
  the dead-letter queue.
\<close>

section \<open>Messages\<close>

definition same_queues :: "world \<Rightarrow> world \<Rightarrow> bool" where
  "same_queues w w' \<longleftrightarrow> mq w' = mq w \<and> dlq w' = dlq w \<and> ext w' = ext w"

lemma same_queues_refl [simp]: "same_queues w w"
  by (simp add: same_queues_def)

lemma same_queues_trans: "same_queues a b \<Longrightarrow> same_queues b c \<Longrightarrow> same_queues a c"
  by (simp add: same_queues_def)

lemma log_queues: "log_op a no u r m w = (x, w') \<Longrightarrow> same_queues w w'"
  by (drule log_op_tables) (simp add: same_queues_def)

lemma save_order_queues: "save_order ord w = (x, w') \<Longrightarrow> same_queues w w'"
  by (auto simp: save_order_def stmt_def Let_def same_queues_def split: option.splits sum.splits prod.splits)

lemma process_body_queues: "process_body no w = (x, w') \<Longrightarrow> same_queues w w'"
proof -
  assume run: "process_body no w = (x, w')"
  obtain r w1 where f: "first_by orders (\<lambda>r. o_order_no r = no) w = (r, w1)"
    by (cases "first_by orders (\<lambda>r. o_order_no r = no) w")
  have 1: "same_queues w w1" using first_by_run [OF f] by (simp add: same_queues_def)
  show ?thesis
  proof (cases r)
    case (Inl e)
    with run f 1 show ?thesis by (simp add: process_body_def bindE_def)
  next
    case (Inr ord)
    obtain r2 w2 where sv: "save_order (ord\<lparr>o_status := OrderStatusWaitPay\<rparr>) w1 = (r2, w2)"
      by (cases "save_order (ord\<lparr>o_status := OrderStatusWaitPay\<rparr>) w1")
    from run f Inr sv have "w' = w1 \<or> w' = w2"
      by (auto simp: process_body_def bindE_def ret_def split: if_splits sum.splits)
    with 1 save_order_queues [OF sv] show ?thesis by (auto intro: same_queues_trans)
  qed
qed

lemma transaction_queues:
  assumes "transaction m w = (x, w')" and "\<And>w x w'. m w = (x, w') \<Longrightarrow> same_queues w w'"
  shows "same_queues w w'"
proof -
  obtain r w1 where m: "m (w\<lparr>tick := Suc (tick w)\<rparr>) = (r, w1)" by (cases "m (w\<lparr>tick := Suc (tick w)\<rparr>)")
  from assms(2) [OF m] have "same_queues w w1" by (simp add: same_queues_def)
  with assms(1) m show ?thesis
    by (auto simp: transaction_def stmt_def Let_def same_queues_def split: option.splits sum.splits prod.splits)
qed

lemma process_queues:
  assumes "processOrderCreated done n no w = (x, w')"
  shows "same_queues w w'"
proof (cases "done")
  case (Some e)
  with assms show ?thesis by (simp add: processOrderCreated_def throw_def)
next
  case None
  obtain r w1 where tx: "transaction (process_body no) w = (r, w1)" by (cases "transaction (process_body no) w")
  have 1: "same_queues w w1" by (rule transaction_queues [OF tx process_body_queues])
  show ?thesis
  proof (cases r)
    case (Inl e)
    let ?l = "log_op ''order_created_async'' no 0 ''failed'' (err_text e)"
    obtain w2 where l: "?l w1 = (Inr (), w2)" using log_op_total by blast
    with assms tx None Inl have "w' = w2" by (simp add: processOrderCreated_def bindE_def on_error_def throw_def)
    with 1 log_queues [OF l] show ?thesis by (auto intro: same_queues_trans)
  next
    case (Inr y)
    let ?l = "log_op ''order_created_async'' no 0 ''success'' (''worker='' @ utoa n @ '' moved order to WAIT_PAY'')"
    obtain w2 where l: "?l w1 = (Inr (), w2)" using log_op_total by blast
    with assms tx None Inr have "w' = w2" by (simp add: processOrderCreated_def bindE_def on_error_def)
    with 1 log_queues [OF l] show ?thesis by (auto intro: same_queues_trans)
  qed
qed

lemma publish_retry_run:
  "rabbit_PublishRetry msg w = (Inr (), w') \<Longrightarrow> \<exists>b. encodeRabbitOrderMessage msg = Inr b \<and>
     mq w' = mq w @ [b] \<and> dlq w' = dlq w \<and> ext w' = ext w \<and> tables w' = tables w"
  by (auto simp: rabbit_PublishRetry_def broker_call_def broker_put_def throw_def Let_def split: sum.splits option.splits)

lemma dead_letter_run:
  "rabbit_PublishDeadLetter msg reason w = (Inr (), w') \<Longrightarrow>
     \<exists>at. dlq w' = dlq w @ [dead_letter_json (stamp_utc (ext w)) \<lparr>dl_order_no = rm_order_no msg, dl_retry = rm_retry msg,
       dl_reason = reason, dl_failed_at = at\<rparr>] \<and> mq w' = mq w \<and> ext w' = ext w \<and> tables w' = tables w"
  by (auto simp: rabbit_PublishDeadLetter_def bindE_def time_now_def broker_call_def broker_put_def Let_def
      split: option.splits)

text \<open>A failure counts as handled only when the message was passed on: to the queue again, or to the dead letters.\<close>

lemma then_log_run:
  assumes "thenE (log_op a n u r m) (ret x) w = (Inr y, w')"
  shows "y = x \<and> same_but_logs (tables w) (tables w') \<and> same_queues w w'"
proof -
  obtain w2 where l: "log_op a n u r m w = (Inr (), w2)" using log_op_total by blast
  with assms have "y = x" "w' = w2" by (simp_all add: bindE_def ret_def)
  moreover have "tracks same_but_logs (log_op a n u r m)" by (rule logs_log)
  from tracksD [OF this l] have "same_but_logs (tables w) (tables w2)" .
  ultimately show ?thesis using log_queues [OF l] by simp
qed

lemma handled_run:
  assumes "handleRabbitOrderFailure s msg err w = (Inr True, w')"
  shows "same_but_logs (tables w) (tables w') \<and> ext w' = ext w \<and>
    (if rm_retry msg < os_max_retries s
     then dlq w' = dlq w \<and> (\<exists>b. encodeRabbitOrderMessage (msg\<lparr>rm_retry := wrap64 (rm_retry msg + 1)\<rparr>) = Inr b \<and> mq w' = mq w @ [b])
     else mq w' = mq w \<and> (\<exists>at. dlq w' = dlq w @ [dead_letter_json (stamp_utc (ext w)) \<lparr>dl_order_no = rm_order_no msg,
       dl_retry = rm_retry msg, dl_reason = err_text err, dl_failed_at = at\<rparr>]))"
proof (cases "rm_retry msg < os_max_retries s")
  case True
  let ?next = "msg\<lparr>rm_retry := wrap64 (rm_retry msg + 1)\<rparr>"
  obtain r w1 where p: "rabbit_PublishRetry ?next w = (r, w1)" by (cases "rabbit_PublishRetry ?next w")
  have r: "r = Inr ()"
    using assms True p by (cases r) (auto simp: handleRabbitOrderFailure_def Let_def bindE_attempt run_simps)
  with assms True p obtain t where "thenE (log_op ''order_task_retry'' (rm_order_no msg) 0 ''success'' t) (ret True) w1 = (Inr True, w')"
    by (auto simp: handleRabbitOrderFailure_def Let_def bindE_attempt)
  with publish_retry_run [OF p [unfolded r]] True show ?thesis
    by (auto simp: same_queues_def dest: then_log_run)
next
  case False
  obtain r w1 where p: "rabbit_PublishDeadLetter msg (err_text err) w = (r, w1)" by (cases "rabbit_PublishDeadLetter msg (err_text err) w")
  have r: "r = Inr ()"
    using assms False p by (cases r) (auto simp: handleRabbitOrderFailure_def bindE_attempt run_simps)
  with assms False p obtain t where "thenE (log_op ''order_task_dead_letter'' (rm_order_no msg) 0 ''failed'' t) (ret True) w1 = (Inr True, w')"
    by (auto simp: handleRabbitOrderFailure_def bindE_attempt)
  from then_log_run [OF this] dead_letter_run [OF p [unfolded r]] False show ?thesis
    unfolding same_queues_def by auto
qed



section \<open>The consumers empty the queue\<close>

definition deliverable :: "RabbitOrderMessage \<Rightarrow> bool" where
  "deliverable msg \<longleftrightarrow> rm_order_no msg \<noteq> '''' \<and> (\<forall>c\<in>set (rm_order_no msg). of_char c < (128::nat)) \<and>
     0 \<le> rm_retry msg \<and> in_i64 (rm_retry msg)"

definition known_no :: "tables \<Rightarrow> string \<Rightarrow> bool" where
  "known_no t no \<longleftrightarrow> no \<in> o_order_no ` set (orders t)"

text \<open>No order of that number waits in the queue any more.\<close>

definition settled :: "tables \<Rightarrow> string \<Rightarrow> bool" where
  "settled t no \<longleftrightarrow> (\<forall>ord\<in>set (orders t). o_order_no ord = no \<longrightarrow> o_status ord \<noteq> OrderStatusQueued)"

lemma known_logs: "same_but_logs t t' \<Longrightarrow> known_no t' = known_no t"
  by (simp add: known_no_def logs_fields(8) fun_eq_iff)

lemma settled_logs: "same_but_logs t t' \<Longrightarrow> settled t' = settled t"
  by (simp add: settled_def logs_fields(8) fun_eq_iff)

lemma ledger_logs: "ledger_inv t \<Longrightarrow> same_but_logs t t' \<Longrightarrow> ledger_inv t'"
  using ev_log [of t "operation_logs t'"] ev_ledger unfolding same_but_logs_def by metis

lemma deliverable_decodes: "deliverable msg \<Longrightarrow> decodeRabbitOrderMessage (json_message msg) = Inr msg"
  by (rule decode_encode) (auto simp: deliverable_def encodeRabbitOrderMessage_def)

lemma process_known:
  assumes "quiet (ext w)" and inv: "ledger_inv (tables w)" and "known_no (tables w) no"
  obtains w' where "processOrderCreated None k no w = (Inr (), w')"
proof -
  from assms(3) obtain ord0 where "ord0 \<in> set (orders (tables w))" "o_order_no ord0 = no" by (auto simp: known_no_def)
  then obtain ord where f: "find (\<lambda>r. o_order_no r = no) (orders (tables w)) = Some ord"
    by (cases "find (\<lambda>r. o_order_no r = no) (orders (tables w))") (auto dest: find_NoneD)
  from find_SomeD [OF f] have o: "ord \<in> set (orders (tables w))" "o_order_no ord = no" by auto
  let ?w = "w\<lparr>tick := Suc (tick w)\<rparr>"
  have "\<exists>w1. process_body no ?w = (Inr (), w1) \<and> ext w1 = ext w"
    using quiet_find [where sel = orders and w = ?w] assms(1) f o save_no_conflict [OF inv o(1), where s = OrderStatusWaitPay]
    by (simp add: process_body_def bindE_def ret_def save_order_def quiet_stmt Let_def)
  then obtain w1 where b: "process_body no ?w = (Inr (), w1)" "ext w1 = ext w" by blast
  from quiet_transaction [where m = "process_body no" and w = w, OF assms(1) b]
  have tx: "transaction (process_body no) w = (Inr (), w1\<lparr>tick := Suc (tick w1)\<rparr>)" .
  obtain w2 where "log_op ''order_created_async'' no 0 ''success'' (''worker='' @ utoa k @ '' moved order to WAIT_PAY'')
      (w1\<lparr>tick := Suc (tick w1)\<rparr>) = (Inr (), w2)" using log_op_total by blast
  with tx have "processOrderCreated None k no w = (Inr (), w2)" by (simp add: processOrderCreated_def bindE_def on_error_def)
  then show thesis by (rule that)
qed

lemma process_known_effect:
  assumes run: "processOrderCreated None k no w = (Inr (), w')" and inv: "ledger_inv (tables w)"
  shows "known_no (tables w') = known_no (tables w) \<and> ledger_inv (tables w') \<and>
    settled (tables w') no \<and> (\<forall>x. settled (tables w) x \<longrightarrow> settled (tables w') x)"
proof -
  from run obtain w0 where b: "process_body no (w\<lparr>tick := Suc (tick w)\<rparr>) = (Inr (), w0)"
    and same: "same_but_logs (tables w0) (tables w')" by (auto elim: process_run)
  have "tables (w\<lparr>tick := Suc (tick w)\<rparr>) = tables w" by simp
  from process_body_settles [OF b this inv] have "settled (tables w0) no" "\<forall>x. settled (tables w) x \<longrightarrow> settled (tables w0) x"
    "known_no (tables w0) = known_no (tables w)"
    unfolding settled_def known_no_def fun_eq_iff by metis+
  moreover have "ledger_inv (tables w')"
    using tracksD [OF obeys_processOrderCreated run] inv evs_ledger by (auto simp: obeys_def)
  ultimately show ?thesis using known_logs [OF same] settled_logs [OF same] by simp
qed
lemma process_unknown:
  assumes "quiet (ext w)" and "\<not> known_no (tables w) no"
  shows "\<exists>w'. processOrderCreated None k no w = (Inl ErrRecordNotFound, w') \<and> same_but_logs (tables w) (tables w')"
proof -
  have n: "find (\<lambda>r. o_order_no r = no) (orders (tables w)) = None"
    using assms(2) by (auto simp: known_no_def find_None_iff)
  then have tx: "\<exists>w1. transaction (process_body no) w = (Inl ErrRecordNotFound, w1) \<and> tables w1 = tables w"
    using assms(1) by (simp add: transaction_def process_body_def bindE_def first_by_def quiet_stmt)
  then obtain w1 where w1: "transaction (process_body no) w = (Inl ErrRecordNotFound, w1)" "tables w1 = tables w" by blast
  obtain w2 where "log_op ''order_created_async'' no 0 ''failed'' (err_text ErrRecordNotFound) w1 = (Inr (), w2)"
    "same_but_logs (tables w1) (tables w2)" using log_run by metis
  with w1 show ?thesis by (simp add: processOrderCreated_def bindE_def on_error_def throw_def)
qed


lemma failure_handled:
  assumes "quiet (ext w)" and "rm_order_no msg \<noteq> ''''"
  shows "\<exists>w'. handleRabbitOrderFailure s msg err w = (Inr True, w')"
proof (cases "rm_retry msg < os_max_retries s")
  case True
  let ?next = "msg\<lparr>rm_retry := wrap64 (rm_retry msg + 1)\<rparr>"
  have "\<exists>w1. rabbit_PublishRetry ?next w = (Inr (), w1)"
    using assms by (simp add: rabbit_PublishRetry_def encodeRabbitOrderMessage_def broker_call_def quiet_def Let_def)
  then obtain w1 where p: "rabbit_PublishRetry ?next w = (Inr (), w1)" by blast
  obtain w2 where "log_op ''order_task_retry'' (rm_order_no msg) 0 ''success''
      (''retry='' @ itoa (rm_retry ?next) @ '' reason='' @ err_text err) w1 = (Inr (), w2)" using log_op_total by blast
  then have "thenE (log_op ''order_task_retry'' (rm_order_no msg) 0 ''success''
      (''retry='' @ itoa (rm_retry ?next) @ '' reason='' @ err_text err)) (ret True) w1 = (Inr True, w2)"
    by (simp add: bindE_def ret_def)
  with True p show ?thesis by (simp add: handleRabbitOrderFailure_def Let_def bindE_attempt)
next
  case False
  have "\<exists>w1. rabbit_PublishDeadLetter msg (err_text err) w = (Inr (), w1)"
    using assms by (simp add: rabbit_PublishDeadLetter_def bindE_def time_now_def broker_call_def quiet_def Let_def)
  then obtain w1 where p: "rabbit_PublishDeadLetter msg (err_text err) w = (Inr (), w1)" by blast
  obtain w2 where "log_op ''order_task_dead_letter'' (rm_order_no msg) 0 ''failed''
      (''retry='' @ itoa (rm_retry msg) @ '' reason='' @ err_text err) w1 = (Inr (), w2)" using log_op_total by blast
  then have "thenE (log_op ''order_task_dead_letter'' (rm_order_no msg) 0 ''failed''
      (''retry='' @ itoa (rm_retry msg) @ '' reason='' @ err_text err)) (ret True) w1 = (Inr True, w2)"
    by (simp add: bindE_def ret_def)
  with False p show ?thesis by (simp add: handleRabbitOrderFailure_def bindE_attempt)
qed

lemma settle_ack: "quiet (ext w) \<Longrightarrow> settle body Ack w = (Inr (), w\<lparr>tick := Suc (tick w)\<rparr>)"
  by (simp add: settle_def quiet_def Let_def)

text \<open>One turn on a message of a known order, and on one of an unknown order.\<close>

lemma turn_known:
  assumes "quiet (ext w)" and inv: "ledger_inv (tables w)" and "mq w = json_message msg # rest"
    and "deliverable msg" and known: "known_no (tables w) (rm_order_no msg)"
  obtains w' where "rabbit_worker_turn s False None k w = (Inr True, w')" "ext w' = ext w" "mq w' = rest" "dlq w' = dlq w"
    "ledger_inv (tables w')" "known_no (tables w') = known_no (tables w)" "settled (tables w') (rm_order_no msg)"
    "\<And>x. settled (tables w) x \<Longrightarrow> settled (tables w') x"
proof -
  let ?w = "w\<lparr>mq := rest\<rparr>"
  obtain w1 where p: "processOrderCreated None k (rm_order_no msg) ?w = (Inr (), w1)"
    using process_known [of ?w "rm_order_no msg" k] assms by auto
  have q: "mq w1 = rest" "dlq w1 = dlq w" "ext w1 = ext w" using process_queues [OF p] by (simp_all add: same_queues_def)
  have "process_delivery s None k (json_message msg) ?w = (Inr (Ack, True), w1)"
    using p deliverable_decodes [OF assms(4)] by (simp add: process_delivery_def bindE_attempt ret_def)
  then have "rabbit_worker_turn s False None k w = (Inr True, w1\<lparr>tick := Suc (tick w1)\<rparr>)"
    using assms(1,3) q(3) by (simp add: rabbit_worker_turn_def bindE_def settle_ack ret_def)
  with that [of "w1\<lparr>tick := Suc (tick w1)\<rparr>"] process_known_effect [OF p] inv q show thesis by simp
qed

lemma turn_unknown:
  assumes "quiet (ext w)" and inv: "ledger_inv (tables w)" and "mq w = json_message msg # rest"
    and "deliverable msg" and "\<not> known_no (tables w) (rm_order_no msg)"
  obtains w' where "rabbit_worker_turn s False None k w = (Inr True, w')" "ext w' = ext w"
    "ledger_inv (tables w')" "known_no (tables w') = known_no (tables w)" "settled (tables w') = settled (tables w)"
    "if rm_retry msg < os_max_retries s
     then dlq w' = dlq w \<and> mq w' = rest @ [json_message (msg\<lparr>rm_retry := wrap64 (rm_retry msg + 1)\<rparr>)]
     else mq w' = rest \<and> (\<exists>b. dlq w' = dlq w @ [b])"
proof -
  let ?w = "w\<lparr>mq := rest\<rparr>"
  obtain w1 where p: "processOrderCreated None k (rm_order_no msg) ?w = (Inl ErrRecordNotFound, w1)"
    and s1: "same_but_logs (tables w) (tables w1)"
    using process_unknown [of ?w "rm_order_no msg" k] assms by auto
  have q: "mq w1 = rest" "dlq w1 = dlq w" "ext w1 = ext w" using process_queues [OF p] by (simp_all add: same_queues_def)
  obtain w2 where h: "handleRabbitOrderFailure s msg ErrRecordNotFound w1 = (Inr True, w2)"
    using failure_handled [of w1 msg s ErrRecordNotFound] assms(1,4) q(3) by (auto simp: deliverable_def)
  have s2: "same_but_logs (tables w1) (tables w2)" and e2: "ext w2 = ext w" using handled_run [OF h] q(3) by simp_all
  have "process_delivery s None k (json_message msg) ?w = (Inr (Ack, True), w2)"
    using p h deliverable_decodes [OF assms(4)]
    by (simp add: process_delivery_def bindE_attempt context_error_def) (simp add: bindE_def ret_def)
  then have "rabbit_worker_turn s False None k w = (Inr True, w2\<lparr>tick := Suc (tick w2)\<rparr>)"
    using assms(1,3) e2 by (simp add: rabbit_worker_turn_def bindE_def settle_ack ret_def)
  moreover have "if rm_retry msg < os_max_retries s
     then dlq w2 = dlq w \<and> mq w2 = rest @ [json_message (msg\<lparr>rm_retry := wrap64 (rm_retry msg + 1)\<rparr>)]
     else mq w2 = rest \<and> (\<exists>b. dlq w2 = dlq w @ [b])"
    using handled_run [OF h] q by (auto simp: encodeRabbitOrderMessage_def split: if_splits)
  moreover have "ledger_inv (tables w2)" using ledger_logs [OF ledger_logs [OF inv s1] s2] .
  ultimately show thesis
    using that [of "w2\<lparr>tick := Suc (tick w2)\<rparr>"] e2 known_logs [OF s1] known_logs [OF s2] settled_logs [OF s1] settled_logs [OF s2]
    by simp
qed

primrec consume :: "OrderService \<Rightarrow> nat \<Rightarrow> nat \<Rightarrow> world \<Rightarrow> world" where
  "consume s k 0 w = w"
| "consume s k (Suc n) w = consume s k n (snd (rabbit_worker_turn s False None k w))"

definition patience :: "OrderService \<Rightarrow> RabbitOrderMessage \<Rightarrow> nat" where
  "patience s msg = Suc (nat (os_max_retries s - rm_retry msg))"

lemma retried_deliverable:
  assumes "deliverable msg" and "in_i64 (os_max_retries s)" and "rm_retry msg < os_max_retries s"
  shows "deliverable (msg\<lparr>rm_retry := wrap64 (rm_retry msg + 1)\<rparr>)"
    and "patience s (msg\<lparr>rm_retry := wrap64 (rm_retry msg + 1)\<rparr>) < patience s msg"
  using assms by (auto simp: deliverable_def patience_def in_i64_def)

abbreviation (input) unknown_in :: "tables \<Rightarrow> RabbitOrderMessage list \<Rightarrow> nat" where
  "unknown_in t ms \<equiv> length (filter (\<lambda>msg. \<not> known_no t (rm_order_no msg)) ms)"

text \<open>One turn takes the head of the queue off, and leaves work for strictly fewer turns.\<close>

lemma turn_progress:
  assumes "quiet (ext w)" and inv: "ledger_inv (tables w)" and q: "mq w = map json_message (msg # rest)"
    and ms: "\<forall>m\<in>set (msg # rest). deliverable m" and "in_i64 (os_max_retries s)"
  obtains w1 ms1 dead where "rabbit_worker_turn s False None k w = (Inr True, w1)" "ext w1 = ext w" "ledger_inv (tables w1)"
    "known_no (tables w1) = known_no (tables w)" "\<And>x. settled (tables w) x \<Longrightarrow> settled (tables w1) x"
    "mq w1 = map json_message ms1" "\<forall>m\<in>set ms1. deliverable m"
    "(\<Sum>m\<leftarrow>ms1. patience s m) < (\<Sum>m\<leftarrow>msg # rest. patience s m)"
    "\<And>m. m \<in> set (msg # rest) \<Longrightarrow> settled (tables w1) (rm_order_no m) \<or> rm_order_no m \<in> rm_order_no ` set ms1"
    "dlq w1 = dlq w @ dead" "length dead + unknown_in (tables w) ms1 = unknown_in (tables w) (msg # rest)"
proof -
  from q ms have m: "mq w = json_message msg # map json_message rest" "deliverable msg" by simp_all
  show thesis
  proof (cases "known_no (tables w) (rm_order_no msg)")
    case True
    from turn_known [OF assms(1,2) m True, of s k] obtain w1 where
      t: "rabbit_worker_turn s False None k w = (Inr True, w1)" "ext w1 = ext w" "mq w1 = map json_message rest" "dlq w1 = dlq w"
      "ledger_inv (tables w1)" "known_no (tables w1) = known_no (tables w)" "settled (tables w1) (rm_order_no msg)"
      "\<And>x. settled (tables w) x \<Longrightarrow> settled (tables w1) x" by metis
    show thesis by (rule that [OF t(1,2,5,6,8) t(3), of "[]"]) (use ms True t in \<open>auto simp: patience_def\<close>)
  next
    case False
    from turn_unknown [OF assms(1,2) m False, of s k] obtain w1 where
      t: "rabbit_worker_turn s False None k w = (Inr True, w1)" "ext w1 = ext w"
      "ledger_inv (tables w1)" "known_no (tables w1) = known_no (tables w)" "settled (tables w1) = settled (tables w)" and
      o: "if rm_retry msg < os_max_retries s
        then dlq w1 = dlq w \<and> mq w1 = map json_message rest @ [json_message (msg\<lparr>rm_retry := wrap64 (rm_retry msg + 1)\<rparr>)]
        else mq w1 = map json_message rest \<and> (\<exists>b. dlq w1 = dlq w @ [b])" by metis
    have gone: "settled (tables w1) (rm_order_no msg)" using False unfolding t(5) settled_def known_no_def by force
    show thesis
    proof (cases "rm_retry msg < os_max_retries s")
      case True
      let ?next = "msg\<lparr>rm_retry := wrap64 (rm_retry msg + 1)\<rparr>"
      show thesis
        by (rule that [OF t(1-4), of "rest @ [?next]" "[]"])
          (use ms True t o retried_deliverable [OF m(2) assms(5) True] False in auto)
    next
      case F: False
      with o obtain b where "mq w1 = map json_message rest" "dlq w1 = dlq w @ [b]" by auto
      then show thesis
        by (intro that [OF t(1-4), of rest "[b]"]) (use ms t False gone in \<open>auto simp: patience_def\<close>)
    qed
  qed
qed

text \<open>
  C15: the consumers empty the queue.  When no outside call fails, a queue of well-formed messages
  is empty after at most one turn per message and remaining retry (\<open>patience\<close> is the number of
  retries a message has left, plus one); then no order named by a message is QUEUED any more, and
  the dead-letter queue has grown by exactly one entry per message whose order does not exist.
\<close>

theorem queue_drains:
  assumes "quiet (ext w)" and "ledger_inv (tables w)" and "mq w = map json_message ms"
    and "\<forall>msg\<in>set ms. deliverable msg" and "in_i64 (os_max_retries s)"
  shows "\<exists>n w'. n \<le> (\<Sum>msg\<leftarrow>ms. patience s msg) \<and> consume s k n w = w' \<and> mq w' = [] \<and>
    (\<forall>msg\<in>set ms. settled (tables w') (rm_order_no msg)) \<and> (\<forall>x. settled (tables w) x \<longrightarrow> settled (tables w') x) \<and>
    (\<exists>dead. dlq w' = dlq w @ dead \<and> length dead = length (filter (\<lambda>msg. \<not> known_no (tables w) (rm_order_no msg)) ms))"
  using assms(1-4)
proof (induction "\<Sum>msg\<leftarrow>ms. patience s msg" arbitrary: ms w rule: less_induct)
  case less
  show ?case
  proof (cases ms)
    case Nil
    then show ?thesis using less.prems by (intro exI [of _ 0] exI [of _ w]) simp
  next
    case (Cons msg rest)
    obtain w1 ms1 d1 where turn: "rabbit_worker_turn s False None k w = (Inr True, w1)" "ext w1 = ext w" "ledger_inv (tables w1)"
        "known_no (tables w1) = known_no (tables w)" "\<And>x. settled (tables w) x \<Longrightarrow> settled (tables w1) x"
      and ms1: "mq w1 = map json_message ms1" "\<forall>m\<in>set ms1. deliverable m"
        "(\<Sum>m\<leftarrow>ms1. patience s m) < (\<Sum>m\<leftarrow>ms. patience s m)"
      and cover: "\<And>m. m \<in> set ms \<Longrightarrow> settled (tables w1) (rm_order_no m) \<or> rm_order_no m \<in> rm_order_no ` set ms1"
      and dead: "dlq w1 = dlq w @ d1" "length d1 + unknown_in (tables w) ms1 = unknown_in (tables w) ms"
      using turn_progress [OF less.prems(1,2) less.prems(3,4) [unfolded Cons] assms(5), of k] unfolding Cons by metis
    from less.hyps [OF ms1(3) _ turn(3) ms1(1,2)] less.prems(1) turn(2) obtain n w' where
      n: "n \<le> (\<Sum>x\<leftarrow>ms1. patience s x)" "consume s k n w1 = w'" "mq w' = []"
      "\<forall>x\<in>set ms1. settled (tables w') (rm_order_no x)" "\<forall>x. settled (tables w1) x \<longrightarrow> settled (tables w') x"
      "\<exists>dead. dlq w' = dlq w1 @ dead \<and> length dead = unknown_in (tables w1) ms1"
      by auto
    have "\<forall>x\<in>set ms. settled (tables w') (rm_order_no x)" using cover n(4,5) by fastforce
    then show ?thesis
      using n ms1(3) turn dead by (intro exI [of _ "Suc n"] exI [of _ w']) auto
  qed
qed

theorem queue_drains_witness:
  "let w = demo\<lparr>mq := [json_message \<lparr>rm_order_no = ''A1'', rm_retry = 0\<rparr>, json_message \<lparr>rm_order_no = ''GHOST'', rm_retry = 1\<rparr>]\<rparr> in
   \<exists>n w'. n \<le> 7 \<and> consume (dp_orders plain) 1 n w = w' \<and> mq w' = [] \<and> settled (tables w') ''A1'' \<and> length (dlq w') = 1"
proof -
  let ?ms = "[\<lparr>rm_order_no = ''A1'', rm_retry = 0\<rparr>, \<lparr>rm_order_no = ''GHOST'', rm_retry = 1\<rparr>]"
  let ?w = "demo\<lparr>mq := map json_message ?ms\<rparr>"
  have pre: "quiet (ext ?w)" "ledger_inv (tables ?w)" "mq ?w = map json_message ?ms" "\<forall>msg\<in>set ?ms. deliverable msg"
    "in_i64 (os_max_retries (dp_orders plain))"
    by (simp_all add: quiet_def calm_def demo_ledger deliverable_def in_i64_def plain_def NewOrderService_def del: list.map)
  have "(\<Sum>msg\<leftarrow>?ms. patience (dp_orders plain) msg) = 7"
    by (simp add: patience_def plain_def NewOrderService_def)
  moreover have "length (filter (\<lambda>msg. \<not> known_no (tables ?w) (rm_order_no msg)) ?ms) = 1" "dlq ?w = []"
    by (simp_all add: known_no_def demo_tables_def demo_order_def demo_def fresh_world_def)
  ultimately show ?thesis using queue_drains [OF pre, of 1] by (auto simp: Let_def)
qed

end
