(* ===== verification/CustomerProps.thy ===== *)
theory CustomerProps
  imports Scenario Runs
begin

text \<open>
  What a customer keeps: one default address, one cart line per product, coupons that are claimed
  at most once and never beyond their stock, an account that the password opens again; and what the
  administration sees.
\<close>

section \<open>Writes of the customer's tables\<close>

lemma clear_default_run:
  "clear_default_addresses u w = (Inr x, w') \<Longrightarrow>
     \<exists>now. tables w' = (tables w)\<lparr>addresses := map (\<lambda>a. if ad_user a = u
       then a\<lparr>ad_default := False, ad_updated := now\<rparr> else a) (addresses (tables w))\<rparr>"
  by (auto simp: clear_default_addresses_def stmt_ok)

lemma cleared_keys: "map ad_id (map (\<lambda>a. if ad_user a = u then a\<lparr>ad_default := False, ad_updated := t\<rparr> else a) as) = map ad_id as"
  by simp

section \<open>Addresses\<close>

definition defaults :: "nat \<Rightarrow> address list \<Rightarrow> address list" where
  "defaults u as = filter (\<lambda>a. ad_user a = u \<and> ad_default a) as"

lemma put_row_Cons: "put_row key r (x # xs) = (if key x = key r then r else x) # put_row key r xs"
  by (simp add: put_row_def)

lemma filter_put_row_one:
  assumes "distinct (map key rs)" and "r0 \<in> set rs" and "key r0 = key r" and "P r" and "\<forall>x\<in>set rs. \<not> P x"
  shows "filter P (put_row key r rs) = [r]"
  using assms(1,2,5)
proof (induction rs)
  case (Cons x xs)
  show ?case
  proof (cases "key x = key r")
    case True
    with Cons.prems have "key r \<notin> key ` set xs" by (metis distinct.simps(2) list.simps(9) list.set_map)
    with True Cons.prems assms(4) show ?thesis by (simp add: put_row_Cons put_row_notin)
  next
    case False
    with Cons assms(3) show ?thesis by (auto simp: put_row_Cons)
  qed
qed simp

lemma save_address_run:
  "save_address r w = (Inr a, w') \<Longrightarrow> \<exists>t. a = r\<lparr>ad_updated := t\<rparr> \<and>
     tables w' = (tables w)\<lparr>addresses := save_row ad_id a (addresses (tables w))\<rparr>"
  by (auto simp: save_address_def stmt_ok Let_def)

lemma create_address_run:
  "create_address r w = (Inr a, w') \<Longrightarrow> ad_user a = ad_user r \<and> ad_default a = ad_default r \<and>
     tables w' = (tables w)\<lparr>addresses := addresses (tables w) @ [a]\<rparr>"
  by (auto simp: create_address_def stmt_ok Let_def)

lemma SetDefault_run:
  assumes "address_SetDefault u k w = (Inr a, w')"
  obtains a0 t1 t2 where "find (\<lambda>a. ad_id a = k \<and> ad_user a = u) (addresses (tables w)) = Some a0"
    "a = a0\<lparr>ad_default := True, ad_updated := t2\<rparr>"
    "addresses (tables w') = save_row ad_id a (map (\<lambda>a. if ad_user a = u
       then a\<lparr>ad_default := False, ad_updated := t1\<rparr> else a) (addresses (tables w)))"
proof -
  from assms obtain a0 w1 w2 where found: "find (\<lambda>a. ad_id a = k \<and> ad_user a = u) (addresses (tables w)) = Some a0"
    and clear: "clear_default_addresses u (w\<lparr>tick := Suc (Suc (tick w))\<rparr>) = (Inr (), w1)"
    and save: "save_address (a0\<lparr>ad_default := True\<rparr>) w1 = (Inr a, w2)" and w': "tables w' = tables w2"
    by (auto simp: address_SetDefault_def set_default_body_def transaction_ok run_simps)
  from clear_default_run [OF clear] save_address_run [OF save] found w' show thesis by (auto intro!: that)
qed

lemma Create_default_run:
  assumes "address_Create u input w = (Inr a, w')" and "na_default input"
  obtains t1 where "addresses (tables w') = map (\<lambda>a. if ad_user a = u
       then a\<lparr>ad_default := False, ad_updated := t1\<rparr> else a) (addresses (tables w)) @ [a]"
    "ad_user a = u" "ad_default a"
proof -
  from assms obtain r w1 w2 where clear: "clear_default_addresses u (w\<lparr>tick := Suc (tick w)\<rparr>) = (Inr (), w1)"
    and create: "create_address r w1 = (Inr a, w2)" "ad_user r = u" "ad_default r" and w': "tables w' = tables w2"
    by (auto simp: address_Create_def address_create_body_def transaction_ok run_simps)
  from clear_default_run [OF clear] create_address_run [OF create(1)] create(2,3) w' show thesis by (auto intro!: that)
qed

text \<open>
  C27: a user has one default address.  After setting an address as the default, and after creating an
  address as the default, the returned row is in the table and is the only default address of that
  user, and the addresses of all other users are as they were.
\<close>

theorem one_default_address:
  assumes "distinct (map ad_id (addresses (tables w)))"
    and "address_SetDefault u k w = (Inr a, w') \<or> (na_default input \<and> address_Create u input w = (Inr a, w'))"
  shows "defaults u (addresses (tables w')) = [a] \<and>
    filter (\<lambda>x. ad_user x \<noteq> u) (addresses (tables w')) = filter (\<lambda>x. ad_user x \<noteq> u) (addresses (tables w))"
  using assms(2)
proof
  assume "address_SetDefault u k w = (Inr a, w')"
  then obtain a0 t1 t2 where found: "find (\<lambda>a. ad_id a = k \<and> ad_user a = u) (addresses (tables w)) = Some a0"
    and a: "a = a0\<lparr>ad_default := True, ad_updated := t2\<rparr>"
    and t: "addresses (tables w') = save_row ad_id a (map (\<lambda>a. if ad_user a = u
       then a\<lparr>ad_default := False, ad_updated := t1\<rparr> else a) (addresses (tables w)))"
    by (rule SetDefault_run)
  note a0 = find_SomeD [OF found]
  let ?c = "\<lambda>a. if ad_user a = u then a\<lparr>ad_default := False, ad_updated := t1\<rparr> else a"
  let ?cl = "map ?c (addresses (tables w))"
  have d: "distinct (map ad_id ?cl)" unfolding cleared_keys by (rule assms(1))
  have in_cl: "?c a0 \<in> set ?cl" and id: "ad_id (?c a0) = ad_id a" and ua: "ad_user a = u" "ad_default a"
    using a0 a by auto
  have put: "addresses (tables w') = put_row ad_id a ?cl"
    using t save_row_in [OF in_cl, of ad_id a] id by simp
  have "defaults u (addresses (tables w')) = [a]"
    unfolding defaults_def put
    by (rule filter_put_row_one [OF d in_cl id]) (use ua in \<open>auto simp: filter_empty_conv\<close>)
  moreover have "filter (\<lambda>x. ad_user x \<noteq> u) (put_row ad_id a ?cl) = filter (\<lambda>x. ad_user x \<noteq> u) (addresses (tables w))"
    using assms(1) a0 a
    by (simp add: put_row_def filter_map comp_def) 
       (rule map_idI [THEN trans], auto intro!: filter_cong dest: distinct_key_unique)
  ultimately show ?thesis unfolding put by blast
next
  assume "na_default input \<and> address_Create u input w = (Inr a, w')"
  then obtain t1 where t: "addresses (tables w') = map (\<lambda>a. if ad_user a = u
       then a\<lparr>ad_default := False, ad_updated := t1\<rparr> else a) (addresses (tables w)) @ [a]"
    and a: "ad_user a = u" "ad_default a"
    by (auto elim: Create_default_run)
  show ?thesis using a unfolding t defaults_def
    by (auto simp: filter_empty_conv filter_map comp_def intro!: map_idI)
qed

theorem one_default_address_witness:
  "\<exists>a w'. address_SetDefault 1 1 demo = (Inr a, w') \<and> defaults 1 (addresses (tables w')) = [a]"
proof -
  have "\<exists>a w'. address_SetDefault 1 1 demo = (Inr a, w')"
    by (simp add: address_SetDefault_def set_default_body_def clear_default_addresses_def save_address_def demo_defs run_eval)
  then obtain a w' where run: "address_SetDefault 1 1 demo = (Inr a, w')" by blast
  have "distinct (map ad_id (addresses (tables demo)))" by (simp add: demo_defs)
  from one_default_address [OF this disjI1 [OF run]] run show ?thesis by blast
qed

section \<open>Cart\<close>

definition cart_row :: "nat \<Rightarrow> nat \<Rightarrow> cart_item \<Rightarrow> bool" where
  "cart_row u p c \<longleftrightarrow> ci_user c = u \<and> ci_product c = p"

definition cart_quantity :: "nat \<Rightarrow> nat \<Rightarrow> cart_item list \<Rightarrow> int" where
  "cart_quantity u p cs = sum_list (map ci_quantity (filter (cart_row u p) cs))"

lemma filter_put_row_only:
  assumes "distinct (map key rs)" and "key r0 = key r" and "P r" and "filter P rs = [r0]"
  shows "filter P (put_row key r rs) = [r] \<and> filter (\<lambda>x. \<not> P x) (put_row key r rs) = filter (\<lambda>x. \<not> P x) rs"
  using assms(1,4)
proof (induction rs)
  case (Cons x xs)
  show ?case
  proof (cases "P x")
    case True
    with Cons.prems have x: "x = r0" "filter P xs = []" by simp_all
    with Cons.prems assms(2) have "key r \<notin> key ` set xs" by (metis distinct.simps(2) list.simps(9) list.set_map)
    with x True assms(2,3) show ?thesis by (simp add: put_row_Cons put_row_notin)
  next
    case False
    with Cons.prems have xs: "filter P xs = [r0]" by simp
    then have "r0 \<in> set (filter P xs)" by simp
    then have "r0 \<in> set xs" by simp
    then have "key r \<in> key ` set xs" using assms(2) by (metis image_eqI)
    with Cons.prems(1) have "key x \<noteq> key r" by auto
    with Cons xs False show ?thesis by (simp add: put_row_Cons)
  qed
qed simp

lemma save_cart_run:
  "save_cart_item r w = (Inr c, w') \<Longrightarrow> \<exists>t. c = r\<lparr>ci_updated := t\<rparr> \<and>
     tables w' = (tables w)\<lparr>cart_items := save_row ci_id c (cart_items (tables w))\<rparr>"
  by (auto simp: save_cart_item_def stmt_ok Let_def split: option.splits)

lemma create_cart_run:
  "create_cart_item r w = (Inr c, w') \<Longrightarrow> (\<exists>i t. c = r\<lparr>ci_id := i, ci_created := t, ci_updated := t\<rparr>) \<and>
     tables w' = (tables w)\<lparr>cart_items := cart_items (tables w) @ [c]\<rparr>"
  by (auto simp: create_cart_item_def stmt_ok Let_def split: option.splits)

lemma reload_reads: "reload_cart_item c w = (r, w') \<Longrightarrow> tables w' = tables w"
proof -
  have "reads_only (reload_cart_item c)"
    unfolding reload_cart_item_def
    by (intro same_tables.tracks_bindE same_tables.tracks_attempt)
       (auto simp: first_by_def preload_products_def split: sum.splits option.splits
         intro!: same_tables.tracks_basic same_tables.tracks_bindE same_tables.tracks_attempt same_tables.tracks_stmt)
  then show "reload_cart_item c w = (r, w') \<Longrightarrow> tables w' = tables w" by (rule reads_onlyD)
qed

lemma cart_add_run:
  assumes "cart_AddItem u i w = (Inr x, w')"
  obtains (merged) c t where "find (cart_row u (ac_product i)) (cart_items (tables w)) = Some c"
      "cart_items (tables w') = save_row ci_id (c\<lparr>ci_quantity := wrap64 (ci_quantity c + ac_quantity i), ci_updated := t\<rparr>) (cart_items (tables w))"
      "0 < ac_quantity i"
  | (new) c where "find (cart_row u (ac_product i)) (cart_items (tables w)) = None"
      "cart_items (tables w') = cart_items (tables w) @ [c]" "ci_user c = u" "ci_product c = ac_product i"
      "ci_quantity c = ac_quantity i" "0 < ac_quantity i"
proof -
  have row: "(\<lambda>c. ci_user c = u \<and> ci_product c = ac_product i) = cart_row u (ac_product i)"
    by (simp add: cart_row_def fun_eq_iff)
  from assms have pos: "0 < ac_quantity i" by (auto simp: cart_AddItem_def run_simps split: if_splits)
  define w0 where "w0 = w\<lparr>tick := Suc (Suc (tick w))\<rparr>"
  then have t0: "tables w0 = tables w" by simp
  from assms pos obtain c w1 where body: "cart_add_body u i w0 = (Inr c, w1)" and t1: "tables w' = tables w1"
    unfolding w0_def
    by (auto simp: cart_AddItem_def run_simps transaction_ok split: if_splits dest!: reload_reads)
  from body obtain r w2 where q: "first_by cart_items (cart_row u (ac_product i)) w0 = (r, w2)"
    and k: "(case r of Inr item \<Rightarrow> save_cart_item (item\<lparr>ci_quantity := wrap64 (ci_quantity item + ac_quantity i)\<rparr>)
       | Inl err \<Rightarrow> if err \<noteq> ErrRecordNotFound then throw err
           else create_cart_item \<lparr>ci_id = 0, ci_user = u, ci_product = ac_product i,
                  ci_quantity = ac_quantity i, ci_created = 0, ci_updated = 0\<rparr>) w2 = (Inr c, w1)"
    unfolding cart_add_body_def row by (auto simp: bindE_ok attempt_ok)
  have t2: "tables w2 = tables w" using q t0 by (auto simp: first_by_def stmt_def Let_def split: option.splits)
  show thesis
  proof (cases r)
    case (Inr item)
    with k q save_cart_run t0 t1 t2 pos show thesis
      by (fastforce simp: first_by_ok intro: merged)
  next
    case (Inl err)
    with k have e: "err = ErrRecordNotFound" by (auto simp: throw_run split: if_splits)
    with Inl q t0 have "find (cart_row u (ac_product i)) (cart_items (tables w)) = None"
      by (auto simp: first_by_def stmt_def Let_def split: option.splits)
    with Inl k e create_cart_run t1 t2 pos show thesis by (fastforce intro: new)
  qed
qed

text \<open>
  C28: adding to a cart adds up.  In a cart with at most one line per user and product, adding a
  positive quantity leaves exactly one line of that product, whose quantity has grown by exactly what
  was added, and does not change any other line.  The sum is one of Go's \<open>int\<close>: a line near the largest
  number, which \<open>UpdateQuantity\<close> can write, wraps around to a negative quantity (lemma \<open>cart_sum_wraps\<close>).
\<close>

theorem cart_adds_up:
  assumes "cart_AddItem u i w = (Inr x, w')" and "distinct (map ci_id (cart_items (tables w)))"
    and "\<And>v p. length (filter (cart_row v p) (cart_items (tables w))) \<le> 1"
    and "in_i64 (ac_quantity i)"
  shows "0 < ac_quantity i \<and> length (filter (cart_row u (ac_product i)) (cart_items (tables w'))) = 1 \<and>
    cart_quantity u (ac_product i) (cart_items (tables w')) =
      wrap64 (cart_quantity u (ac_product i) (cart_items (tables w)) + ac_quantity i) \<and>
    filter (\<lambda>c. \<not> cart_row u (ac_product i) c) (cart_items (tables w')) = filter (\<lambda>c. \<not> cart_row u (ac_product i) c) (cart_items (tables w))"
  using assms(1)
proof (cases rule: cart_add_run)
  case (merged c t)
  let ?P = "cart_row u (ac_product i)" and ?cs = "cart_items (tables w)"
  let ?c = "c\<lparr>ci_quantity := wrap64 (ci_quantity c + ac_quantity i), ci_updated := t\<rparr>"
  note c = find_SomeD [OF merged(1)]
  have one: "filter ?P ?cs = [c]"
  proof -
    have "c \<in> set (filter ?P ?cs)" using c by simp
    with assms(3) [of u "ac_product i"] show ?thesis by (cases "filter ?P ?cs") auto
  qed
  then have q: "cart_quantity u (ac_product i) ?cs = ci_quantity c" by (simp add: cart_quantity_def)
  have put: "cart_items (tables w') = put_row ci_id ?c ?cs"
    unfolding merged(2) using c by (intro save_row_in) auto
  have "?P ?c" using c by (simp add: cart_row_def)
  from filter_put_row_only [OF assms(2) _ this one] have
    "filter ?P (cart_items (tables w')) = [?c]"
    "filter (\<lambda>c. \<not> ?P c) (cart_items (tables w')) = filter (\<lambda>c. \<not> ?P c) ?cs"
    unfolding put by simp_all
  with merged(3) q show ?thesis by (simp add: cart_quantity_def)
next
  case (new c)
  let ?P = "cart_row u (ac_product i)" and ?cs = "cart_items (tables w)"
  have none: "filter ?P ?cs = []" using find_NoneD [OF new(1)] by (simp add: filter_empty_conv)
  then show ?thesis using new assms(4) by (simp add: cart_quantity_def cart_row_def)
qed

theorem cart_adds_up_witness:
  "\<exists>x w'. cart_AddItem 1 \<lparr>ac_product = 1, ac_quantity = 3\<rparr> demo = (Inr x, w') \<and> cart_quantity 1 1 (cart_items (tables w')) = 5"
proof -
  have "\<exists>x w'. cart_AddItem 1 \<lparr>ac_product = 1, ac_quantity = 3\<rparr> demo = (Inr x, w')"
    by (simp add: cart_AddItem_def cart_add_body_def reload_cart_item_def save_cart_item_def cart_conflict_def
        preload_products_def demo_defs run_eval)
  then obtain x w' where run: "cart_AddItem 1 \<lparr>ac_product = 1, ac_quantity = 3\<rparr> demo = (Inr x, w')" by blast
  have "distinct (map ci_id (cart_items (tables demo)))" "\<And>v p. length (filter (cart_row v p) (cart_items (tables demo))) \<le> 1"
    and q: "cart_quantity 1 1 (cart_items (tables demo)) = 2"
    by (simp_all add: demo_defs cart_quantity_def cart_row_def)
  from cart_adds_up [OF run this(1,2)] q run show ?thesis by (auto simp: in_i64_def wrap64_def)
qed

lemma cart_sum_wraps:
  "\<exists>x w1 y w2. cart_UpdateQuantity 1 1 9223372036854775807 demo = (Inr x, w1) \<and>
     cart_AddItem 1 \<lparr>ac_product = 1, ac_quantity = 1\<rparr> w1 = (Inr y, w2) \<and>
     cart_quantity 1 1 (cart_items (tables w2)) = - 9223372036854775808"
  by (simp add: cart_UpdateQuantity_def cart_AddItem_def cart_add_body_def reload_cart_item_def save_cart_item_def
      cart_conflict_def preload_products_def demo_defs run_eval cart_quantity_def cart_row_def)

section \<open>Coupons\<close>

definition claims_of :: "nat \<Rightarrow> user_coupon list \<Rightarrow> nat" where
  "claims_of k us = length (filter (\<lambda>u. uc_coupon u = k) us)"

lemma save_coupon_run:
  "save_coupon c w = (Inr r, w') \<Longrightarrow> \<exists>t. r = c\<lparr>c_updated := t\<rparr> \<and>
     tables w' = (tables w)\<lparr>coupons := save_row c_id r (coupons (tables w))\<rparr>"
  by (auto simp: save_coupon_def stmt_ok Let_def)

lemma create_user_coupon_run:
  "create_user_coupon c w = (Inr r, w') \<Longrightarrow> (\<exists>i t. r = c\<lparr>uc_id := i, uc_created := t, uc_updated := t\<rparr>) \<and>
     tables w' = (tables w)\<lparr>user_coupons := user_coupons (tables w) @ [r]\<rparr>"
  by (auto simp: create_user_coupon_def stmt_ok Let_def split: option.splits)

lemma claim_reload_reads:
  "reads_only (bindE (attempt (first_by user_coupons P)) (\<lambda>r. case r of Inl _ \<Rightarrow> ret (uc, zero_coupon)
     | Inr uc' \<Rightarrow> bindE (attempt (preload_coupon uc')) (\<lambda>q. ret (uc', case q of Inr c \<Rightarrow> c | Inl _ \<Rightarrow> zero_coupon))))"
  by (intro same_tables.tracks_bindE same_tables.tracks_attempt)
     (auto simp: first_by_def preload_coupon_def split: sum.splits option.splits
       intro!: same_tables.tracks_basic same_tables.tracks_bindE same_tables.tracks_attempt same_tables.tracks_stmt)

lemma claim_run:
  assumes "coupon_Claim u k w = (Inr x, w')"
  obtains c t r i t' where "find (\<lambda>c. c_id c = k) (coupons (tables w)) = Some c" "0 < c_stock c"
    "filter (\<lambda>x. uc_user x = u \<and> uc_coupon x = k) (user_coupons (tables w)) = []"
    "c_start c \<le> clock (ext w) (Suc (Suc (tick w)))" "clock (ext w) (Suc (Suc (tick w))) \<le> c_end c"
    "r = \<lparr>uc_id = i, uc_user = u, uc_coupon = k, uc_status = UserCouponUnused, uc_created = t', uc_updated = t'\<rparr>"
    "tables w' = (tables w)\<lparr>coupons := save_row c_id (c\<lparr>c_stock := wrap64 (c_stock c - 1), c_updated := t\<rparr>) (coupons (tables w)),
       user_coupons := user_coupons (tables w) @ [r]\<rparr>"
proof -
  from assms obtain r w1 where body: "claim_body u k (w\<lparr>tick := Suc (tick w)\<rparr>) = (Inr r, w1)" and t1: "tables w' = tables w1"
    unfolding coupon_Claim_def bindE_ok [of "transaction _"] transaction_ok
    by (elim exE conjE) (drule reads_onlyD [OF claim_reload_reads], simp)
  from body obtain c c' w2 where
    "find (\<lambda>c. c_id c = k) (coupons (tables w)) = Some c" "0 < c_stock c"
    "filter (\<lambda>x. uc_user x = u \<and> uc_coupon x = k) (user_coupons (tables w)) = []"
    "c_start c \<le> clock (ext w) (Suc (Suc (tick w)))" "clock (ext w) (Suc (Suc (tick w))) \<le> c_end c"
    and save: "save_coupon (c\<lparr>c_stock := wrap64 (c_stock c - 1)\<rparr>) (w\<lparr>tick := Suc (Suc (Suc (Suc (tick w))))\<rparr>) = (Inr c', w2)"
    and create: "create_user_coupon \<lparr>uc_id = 0, uc_user = u, uc_coupon = k,
          uc_status = UserCouponUnused, uc_created = 0, uc_updated = 0\<rparr> w2 = (Inr r, w1)"
    by (auto simp: claim_body_def run_simps time_before_def time_after_def)
  with save_coupon_run [OF save] create_user_coupon_run [OF create] t1 that show thesis by auto
qed

text \<open>The body reads the clock once, at the third call of the run.\<close>

lemma claim_clock:
  assumes "coupon_Claim u k w = (Inr x, w')"
  shows "Suc (Suc (tick w)) < tick w'"
proof -
  let ?reload = "\<lambda>uc. bindE (attempt (first_by user_coupons (\<lambda>u. uc_id u = uc_id uc))) (\<lambda>r. case r of Inl _ \<Rightarrow> ret (uc, zero_coupon)
     | Inr uc' \<Rightarrow> bindE (attempt (preload_coupon uc')) (\<lambda>q. ret (uc', case q of Inr c \<Rightarrow> c | Inl _ \<Rightarrow> zero_coupon)))"
  from assms obtain r w1 where body: "claim_body u k (w\<lparr>tick := Suc (tick w)\<rparr>) = (Inr r, w1)"
    and rest: "?reload r (w1\<lparr>tick := Suc (tick w1)\<rparr>) = (Inr x, w')"
    unfolding coupon_Claim_def bindE_ok [of "transaction _"] transaction_ok by blast
  have "keeps (?reload r)"
    unfolding preload_coupon_def by (intro keeps_intros keeps_checks)
  from keepsD [OF this rest] have "tick w1 < tick w'" by simp
  moreover have "Suc (Suc (tick w)) < tick w1"
    using second_reading [OF body [unfolded claim_body_def]]
    by (auto simp: save_coupon_def create_user_coupon_def run_simps intro!: keeps_intros keeps_checks)
  ultimately show ?thesis by simp
qed

text \<open>
  C29: coupons are not over-issued.  A successful claim names a coupon whose time a reading of the clock during the
  call lay in, with stock left, that the user did not have yet; it adds exactly one claim of it, unused and of that
  user, takes exactly one unit, and leaves all other coupons and all other tables alone.  The user holds the
  coupon exactly once afterwards.
\<close>

theorem coupon_claimed_once:
  assumes "coupon_Claim u k w = (Inr x, w')" and "distinct (map c_id (coupons (tables w)))"
    and "\<forall>c\<in>set (coupons (tables w)). in_i64 (c_stock c)"
  shows "\<exists>c c' n. find (\<lambda>c. c_id c = k) (coupons (tables w)) = Some c \<and> find (\<lambda>c. c_id c = k) (coupons (tables w')) = Some c' \<and>
    tick w \<le> n \<and> n < tick w' \<and> c_start c \<le> clock (ext w) n \<and> clock (ext w) n \<le> c_end c \<and>
    0 < c_stock c \<and> c_stock c' = c_stock c - 1 \<and>
    filter (\<lambda>x. uc_user x = u \<and> uc_coupon x = k) (user_coupons (tables w)) = [] \<and>
    claims_of k (user_coupons (tables w')) = claims_of k (user_coupons (tables w)) + 1 \<and>
    (\<forall>j. j \<noteq> k \<longrightarrow> find (\<lambda>c. c_id c = j) (coupons (tables w')) = find (\<lambda>c. c_id c = j) (coupons (tables w))) \<and>
    map uc_status (filter (\<lambda>x. uc_user x = u \<and> uc_coupon x = k) (user_coupons (tables w'))) = [UserCouponUnused] \<and>
    filter (\<lambda>x. \<not> (uc_user x = u \<and> uc_coupon x = k)) (user_coupons (tables w')) =
      filter (\<lambda>x. \<not> (uc_user x = u \<and> uc_coupon x = k)) (user_coupons (tables w)) \<and>
    tables w' = (tables w)\<lparr>coupons := coupons (tables w'), user_coupons := user_coupons (tables w')\<rparr>"
  using assms(1)
proof (cases rule: claim_run)
  case (1 c t r i t')
  note c = find_SomeD [OF 1(1)]
  let ?c = "c\<lparr>c_stock := wrap64 (c_stock c - 1), c_updated := t\<rparr>"
  have put: "coupons (tables w') = put_row c_id ?c (coupons (tables w))"
    unfolding 1(7) using c save_row_in [of c "coupons (tables w)" c_id ?c] by simp
  have dec: "wrap64 (c_stock c - 1) = c_stock c - 1"
    using c assms(3) 1(2) by (intro wrap64_dec) auto
  show ?thesis
  proof (intro exI conjI)
    show "find (\<lambda>c. c_id c = k) (coupons (tables w)) = Some c" by (rule 1(1))
    show "find (\<lambda>c. c_id c = k) (coupons (tables w')) = Some ?c" unfolding put using find_put_row_same [of c "coupons (tables w)" c_id ?c] c by simp
    show "tick w \<le> Suc (Suc (tick w))" "Suc (Suc (tick w)) < tick w'" using claim_clock [OF assms(1)] by simp_all
    show "c_start c \<le> clock (ext w) (Suc (Suc (tick w)))" "clock (ext w) (Suc (Suc (tick w))) \<le> c_end c" by (rule 1(4,5))+
    show "0 < c_stock c" "filter (\<lambda>x. uc_user x = u \<and> uc_coupon x = k) (user_coupons (tables w)) = []" by (rule 1(2,3))+
    show "c_stock ?c = c_stock c - 1" using dec by simp
    show "claims_of k (user_coupons (tables w')) = claims_of k (user_coupons (tables w)) + 1"
      using 1(6,7) by (simp add: claims_of_def)
    show "filter (\<lambda>x. \<not> (uc_user x = u \<and> uc_coupon x = k)) (user_coupons (tables w')) =
        filter (\<lambda>x. \<not> (uc_user x = u \<and> uc_coupon x = k)) (user_coupons (tables w))"
      using 1(6,7) by simp
    show "\<forall>j. j \<noteq> k \<longrightarrow> find (\<lambda>c. c_id c = j) (coupons (tables w')) = find (\<lambda>c. c_id c = j) (coupons (tables w))"
      unfolding put using c by (auto simp: find_put_row_other)
    show "map uc_status (filter (\<lambda>x. uc_user x = u \<and> uc_coupon x = k) (user_coupons (tables w'))) = [UserCouponUnused]"
      using 1(3,6,7) by simp
    show "tables w' = (tables w)\<lparr>coupons := coupons (tables w'), user_coupons := user_coupons (tables w')\<rparr>"
      using 1(7) by simp
  qed
qed

theorem coupon_claimed_once_witness:
  "\<exists>x w' c'. coupon_Claim 2 1 demo = (Inr x, w') \<and> find (\<lambda>c. c_id c = 1) (coupons (tables w')) = Some c' \<and>
     c_stock c' = 3 \<and> claims_of 1 (user_coupons (tables w')) = 2"
proof -
  have "\<exists>x w'. coupon_Claim 2 1 demo = (Inr x, w')"
    by (simp add: coupon_Claim_def claim_body_def save_coupon_def create_user_coupon_def user_coupon_conflict_def
        preload_coupon_def time_before_def time_after_def demo_defs run_eval)
  then obtain x w' where run: "coupon_Claim 2 1 demo = (Inr x, w')" by blast
  have "distinct (map c_id (coupons (tables demo)))" "\<forall>c\<in>set (coupons (tables demo)). in_i64 (c_stock c)"
    and s: "find (\<lambda>c. c_id c = 1) (coupons (tables demo)) = Some demo_coupon" "c_stock demo_coupon = 4"
      "claims_of 1 (user_coupons (tables demo)) = 1"
    by (simp_all add: demo_defs claims_of_def in_i64_def)
  from coupon_claimed_once [OF run this(1,2)] s run show ?thesis by auto
qed

section \<open>Accounts\<close>

lemma create_user_run:
  assumes "create_user r w = (Inr u, w')"
  shows "(\<exists>i t. 0 < i \<and> u = r\<lparr>u_id := i, u_created := t, u_updated := t\<rparr>) \<and>
     u_username r \<notin> u_username ` set (users (tables w)) \<and> tables w' = (tables w)\<lparr>users := users (tables w) @ [u]\<rparr>"
proof -
  let ?i = "next_id u_id (id_gap (ext w) (tick w)) (users (tables w))"
  from assms have u: "u = r\<lparr>u_id := ?i, u_created := clock (ext w) (tick w), u_updated := clock (ext w) (tick w)\<rparr>"
    and c: "user_conflict (users (tables w)) u = None" and t: "tables w' = (tables w)\<lparr>users := users (tables w) @ [u]\<rparr>"
    by (auto simp: create_user_def stmt_ok Let_def split: option.splits)
  have "u_username r \<notin> u_username ` set (users (tables w))"
  proof
    assume "u_username r \<in> u_username ` set (users (tables w))"
    then obtain x where x: "x \<in> set (users (tables w))" "u_username x = u_username r" by (metis imageE)
    have "u_id x \<noteq> ?i" using next_id_not_in [of u_id _ "users (tables w)"] x(1) by (metis imageI)
    with x c show False by (auto simp: user_conflict_def u split: if_splits)
  qed
  with u t show ?thesis using next_id_pos by blast
qed

text \<open>
  C31: an account opens with its password.  Registering needs a name nobody has and a password of six
  characters or more and adds exactly one account, with the role \<open>USER\<close>; as long as the accounts stay as they
  are, logging in with that name and password gives that account, and with a password of another
  hash it is refused.
\<close>

theorem account_round_trip:
  assumes "auth_Register s name pw w = (Inr (u, t), w')" and "users (tables v) = users (tables w')"
    and "fault (ext v) (tick v) = None" and "\<And>c. \<exists>t. as_sign s (as_secret s) c = Inr t"
  shows "name \<noteq> '''' \<and> 6 \<le> length pw \<and> name \<notin> u_username ` set (users (tables w)) \<and>
    u_username u = name \<and> u_role u = UserRoleUser \<and> 0 < u_id u \<and> users (tables w') = users (tables w) @ [u] \<and>
    (\<exists>t' v'. auth_Login s name pw v = (Inr (u, t'), v')) \<and>
    (\<forall>pw'. hashPassword pw' \<noteq> hashPassword pw \<longrightarrow>
      fst (auth_Login s name pw' v) = Inl (ErrText ''invalid username or password''))"
proof -
  from assms(1) obtain w1 where len: "name \<noteq> ''''" "6 \<le> length pw"
    and create: "create_user (new_user name pw UserRoleUser) w = (Inr u, w1)" and sign: "signToken s u w1 = (Inr t, w')"
    by (auto simp: auth_Register_def run_simps split: if_splits)
  from create_user_run [OF create] have fresh: "name \<notin> u_username ` set (users (tables w))"
    and u: "u_username u = name" "u_role u = UserRoleUser" "0 < u_id u" "u_password_hash u = hashPassword pw"
    and t1: "users (tables w1) = users (tables w) @ [u]"
    by (auto simp: new_user_def)
  have t2: "tables w' = tables w1" using sign by (auto simp: signToken_def run_simps split: sum.splits)
  have none: "find (\<lambda>x. u_username x = name) (users (tables w)) = None"
    using fresh by (auto simp: find_None_iff)
  have found: "find (\<lambda>x. u_username x = name) (users (tables v)) = Some u"
    using none u(1) by (simp add: assms(2) t2 t1 find_append_row)
  have ask: "first_by users (\<lambda>x. u_username x = name) v = (Inr u, v\<lparr>tick := Suc (tick v)\<rparr>)"
    using found assms(3) by (simp add: first_by_def stmt_def)
  have valid: "IsValidUserRole (u_role u)" by (simp add: u(2) IsValidUserRole_def)
  have "\<exists>t' v'. auth_Login s name pw v = (Inr (u, t'), v')"
  proof -
    obtain t' where "as_sign s (as_secret s) \<lparr>cl_user = u_id u, cl_role = token_role (u_role u),
        cl_expires = clock (ext v) (Suc (tick v)) + 24 * go_hour, cl_issued = clock (ext v) (Suc (Suc (tick v)))\<rparr> = Inr t'"
      using assms(4) by blast
    then show ?thesis
      using valid u(4)
      by (simp add: auth_Login_def bindE_def on_error_def ask guardE_def ret_def signToken_def time_now_def Let_def)
  qed
  moreover have "fst (auth_Login s name pw' v) = Inl (ErrText ''invalid username or password'')"
    if "hashPassword pw' \<noteq> hashPassword pw" for pw'
    using that u(4) by (auto simp: auth_Login_def bindE_def on_error_def ask guardE_def throw_def)
  ultimately show ?thesis using len fresh u(1-3) t1 t2 by auto
qed

theorem account_round_trip_witness:
  "\<exists>u t w' t' v'. auth_Register (dp_auth plain) ''bob'' ''secret'' demo = (Inr (u, t), w') \<and>
     auth_Login (dp_auth plain) ''bob'' ''secret'' w' = (Inr (u, t'), v')"
proof -
  have "\<exists>u t w'. auth_Register (dp_auth plain) ''bob'' ''secret'' demo = (Inr (u, t), w') \<and> ext w' = calm"
    by (simp add: auth_Register_def create_user_def user_conflict_def signToken_def demo_defs run_eval)
  then obtain u t w' where run: "auth_Register (dp_auth plain) ''bob'' ''secret'' demo = (Inr (u, t), w')"
    and e: "ext w' = calm" by blast
  have "fault (ext w') (tick w') = None" "\<And>c. \<exists>t. as_sign (dp_auth plain) (as_secret (dp_auth plain)) c = Inr t"
    by (simp_all add: e calm_def plain_def)
  from account_round_trip [OF run refl this] run show ?thesis by blast
qed

section \<open>The administration's list\<close>

text \<open>
  The administration's list is bounded and honest.  Whatever limit is asked for (none, negative,
  huge), at most 100 rows come back; they are the newest orders that match the filters, in
  descending order of identifiers when the table is in ascending order, the total counts all matches,
  and nothing is written.
\<close>

theorem admin_list_bounded:
  assumes "admin_ListOrders q w = (Inr l, w')"
  shows "length (al_items l) \<le> 100 \<and> al_total l = length (filter (admin_match q) (orders (tables w))) \<and>
    rev (al_items l) = drop (al_total l - length (al_items l)) (filter (admin_match q) (orders (tables w))) \<and>
    length (al_items l) = min (al_total l) (if 0 < aq_limit q \<and> aq_limit q \<le> 100 then nat (aq_limit q) else 20) \<and>
    tables w' = tables w \<and>
    (sorted (map o_id (orders (tables w))) \<longrightarrow> sorted (rev (map o_id (al_items l))))"
proof -
  let ?m = "filter (admin_match q) (orders (tables w))" and ?n = "nat (admin_limit (aq_limit q))"
  from assms have l: "al_total l = length ?m" "al_items l = take ?n (rev ?m)" and t: "tables w' = tables w"
    by (auto simp: admin_ListOrders_def run_simps)
  have n: "?n = (if 0 < aq_limit q \<and> aq_limit q \<le> 100 then nat (aq_limit q) else 20)"
    by (auto simp: admin_limit_def)
  have r: "rev (al_items l) = drop (length ?m - ?n) ?m"
    unfolding l(2) by (simp add: rev_take)
  have len: "length (al_items l) = min (length ?m) ?n" by (simp add: l(2))
  have "length ?m - min (length ?m) ?n = length ?m - ?n" by simp
  with r len have "rev (al_items l) = drop (al_total l - length (al_items l)) ?m" by (simp only: l(1))
  moreover have "sorted (rev (map o_id (al_items l)))" if "sorted (map o_id (orders (tables w)))"
  proof -
    have "sorted (map o_id ?m)" using that by (rule sorted_filter)
    then have "sorted (drop (length ?m - ?n) (map o_id ?m))" by (rule sorted_wrt_drop)
    then show ?thesis unfolding rev_map r drop_map .
  qed
  ultimately show ?thesis using l t len n by (auto split: if_splits)
qed

theorem admin_list_bounded_witness:
  "\<exists>l w'. admin_ListOrders \<lparr>aq_status = '''', aq_user = 0, aq_activity = 1, aq_limit = 1\<rparr> demo = (Inr l, w') \<and>
     al_total l = 2 \<and> length (al_items l) = 1"
proof -
  let ?q = "\<lparr>aq_status = '''', aq_user = 0, aq_activity = 1, aq_limit = 1\<rparr>"
  have "\<exists>l w'. admin_ListOrders ?q demo = (Inr l, w')"
    by (simp add: admin_ListOrders_def demo_defs run_eval)
  then obtain l w' where run: "admin_ListOrders ?q demo = (Inr l, w')" by blast
  have "length (filter (admin_match ?q) (orders (tables demo))) = 2" by (simp add: admin_match_def demo_defs)
  with admin_list_bounded [OF run] run show ?thesis by auto
qed

end
