(* ===== verification/StockProps.thy ===== *)
theory StockProps
  imports OrderProps
begin

text \<open>
  The stock in Redis beside the stock in the database, through the contract \<open>rs\<close> of the scripts: what
  an order through Redis does to the counter and the set of holders, on every outcome; what a
  repairing reconciliation leaves; and that the two ways of taking an order accept the same requests.
\<close>

section \<open>A cache over a stretch of time\<close>

text \<open>
  From the state on the clock does not run backwards and stays before \<open>T\<close>; the keys have values of the
  right kinds, and those that exist now still exist at \<open>T\<close>.  Counter and holders can then be read at
  \<open>T\<close> throughout.
\<close>

definition steady :: "instant \<Rightarrow> world \<Rightarrow> bool" where
  "steady T w \<longleftrightarrow> (\<forall>j k. tick w \<le> j \<longrightarrow> j \<le> k \<longrightarrow> clock (ext w) j \<le> clock (ext w) k \<and> clock (ext w) k \<le> T) \<and>
     cache_wf T (redis w) \<and> cache_alive (clock (ext w) (tick w)) T (redis w)"

abbreviation counter :: "instant \<Rightarrow> world \<Rightarrow> nat \<Rightarrow> int option" where
  "counter T w \<equiv> cache_avail T (redis w)"

abbreviation reserved :: "instant \<Rightarrow> world \<Rightarrow> nat \<Rightarrow> nat set" where
  "reserved T w \<equiv> cache_holders T (redis w)"

lemma steady_clock: "steady T w \<Longrightarrow> tick w \<le> j \<Longrightarrow> j \<le> k \<Longrightarrow> clock (ext w) j \<le> clock (ext w) k \<and> clock (ext w) k \<le> T"
  unfolding steady_def by blast

lemma steady_at:
  assumes "steady T w" and "tick w \<le> k"
  shows "cache_alive (clock (ext w) k) T (redis w)" "cache_wf (clock (ext w) k) (redis w)"
    "cache_avail (clock (ext w) k) (redis w) = counter T w" "cache_holders (clock (ext w) k) (redis w) = reserved T w"
proof -
  have c: "clock (ext w) (tick w) \<le> clock (ext w) k" "clock (ext w) k \<le> T"
    using steady_clock [OF assms(1) order_refl assms(2)] by simp_all
  have a: "cache_alive (clock (ext w) (tick w)) T (redis w)" and wf: "cache_wf T (redis w)"
    using assms(1) by (simp_all add: steady_def)
  from rs.alive_later [OF a c] show k: "cache_alive (clock (ext w) k) T (redis w)" by simp
  from rs.alive_later [OF k c(2) order_refl] wf
  show "cache_wf (clock (ext w) k) (redis w)" "cache_avail (clock (ext w) k) (redis w) = counter T w"
    "cache_holders (clock (ext w) k) (redis w) = reserved T w" by simp_all
qed

lemma steady_after:
  assumes "steady T w" and "ext w' = ext w" and "tick w \<le> k" and "k \<le> tick w'"
    and "cache_wf (clock (ext w) k) (redis w')" and "cache_alive (clock (ext w) k) T (redis w')"
  shows "steady T w' \<and> counter T w' = cache_avail (clock (ext w) k) (redis w') \<and>
    reserved T w' = cache_holders (clock (ext w) k) (redis w')"
proof -
  have c: "clock (ext w) k \<le> T" "clock (ext w) k \<le> clock (ext w) (tick w')" "clock (ext w) (tick w') \<le> T"
    using steady_clock [OF assms(1,3), of k] steady_clock [OF assms(1,3,4)] by simp_all
  note l = rs.alive_later [OF assms(6) c(1) order_refl] rs.alive_later [OF assms(6) c(2,3)]
  have "\<forall>i j. tick w' \<le> i \<longrightarrow> i \<le> j \<longrightarrow> clock (ext w) i \<le> clock (ext w) j \<and> clock (ext w) j \<le> T"
    using steady_clock [OF assms(1)] assms(3,4) by (meson order_trans)
  with l assms(2,5) show ?thesis by (simp add: steady_def)
qed

lemma steady_keeps:
  assumes "steady T w" and "ext w' = ext w \<and> redis w' = redis w \<and> tick w \<le> tick w'"
  shows "steady T w'" "counter T w' = counter T w" "reserved T w' = reserved T w"
  using steady_after [OF assms(1), of w' "tick w'"] steady_at [OF assms(1), of "tick w'"] assms(2) by auto

lemma cache_Reserve_effect:
  assumes st: "steady T w" and T: "T < clock (ext w) (tick w) + 3600 * go_second" and i: "in_i64 (a_stock act)"
    and up: "fault (ext w) (Suc (tick w)) = None" and run: "cache_Reserve act u w = (r, w')"
    and n: "n = (case counter T w (a_id act) of None \<Rightarrow> a_stock act | Some m \<Rightarrow> m)"
  shows "steady T w' \<and> ext w' = ext w \<and> tick w' = Suc (Suc (tick w)) \<and> tables w' = tables w \<and>
    (if u \<in> reserved T w (a_id act) then r = Inl ErrDuplicateOrder \<and> counter T w' = (counter T w)(a_id act \<mapsto> n) \<and> reserved T w' = reserved T w
     else if n \<le> 0 then r = Inl ErrSoldOut \<and> counter T w' = (counter T w)(a_id act \<mapsto> n) \<and> reserved T w' = reserved T w
     else r = Inr (n - 1) \<and> counter T w' = (counter T w)(a_id act \<mapsto> n - 1) \<and>
       reserved T w' = (reserved T w)(a_id act := insert u (reserved T w (a_id act))))"
proof -
  let ?now = "clock (ext w) (tick w)" and ?k = "Suc (tick w)" and ?a = "a_id act"
  let ?t = "clock (ext w) ?k" and ?ttl = "reserveTTL ?now (a_end act)"
  have k: "tick w \<le> ?k" by simp
  note at = steady_at [OF st k]
  obtain res db where op: "reserve_op ?a (a_stock act) u ?ttl ?t (redis w) = (res, db)" by fastforce
  have ttl: "0 < ?ttl" "3600 \<le> ?ttl" using reserveTTL_ge_hour [of ?now "a_end act"] by simp_all
  have le: "?now \<le> ?t" "?t \<le> T" using steady_clock [OF st order_refl k] by simp_all
  have "3600 * go_second \<le> ?ttl * go_second" using ttl(2) by (simp add: go_second_def)
  with T le have far: "T < ?t + ?ttl * go_second" by linarith
  have wf: "cache_wf ?t db" by (rule rs.reserve_wf [OF at(2) ttl(1) i op])
  have alive: "cache_alive ?t T db" by (rule rs.reserve_alive [OF at(1) le(2) ttl(1) far op])
  have w': "w' = w\<lparr>tick := Suc (Suc (tick w)), redis := db\<rparr>"
    and r: "r = (case map_sum (Ext \<circ> DriverError) id res of Inl e \<Rightarrow> Inl e | Inr vs \<Rightarrow> reserve_decode vs)"
    using run up op
    by (auto simp: cache_Reserve_def bindE_def time_now_def redis_call_def reserve_op_def Let_def throw_def ret_def
        split: sum.splits prod.splits)
  have after: "steady T w'" "counter T w' = cache_avail ?t db" "reserved T w' = cache_holders ?t db"
    using steady_after [OF st, of w' ?k] wf alive by (simp_all add: w')
  have n': "(case cache_avail ?t (redis w) ?a of None \<Rightarrow> a_stock act | Some m \<Rightarrow> m) = n" unfolding at(3) n ..
  have "if u \<in> reserved T w ?a then r = Inl ErrDuplicateOrder \<and> counter T w' = (counter T w)(?a \<mapsto> n) \<and> reserved T w' = reserved T w
     else if n \<le> 0 then r = Inl ErrSoldOut \<and> counter T w' = (counter T w)(?a \<mapsto> n) \<and> reserved T w' = reserved T w
     else r = Inr (n - 1) \<and> counter T w' = (counter T w)(?a \<mapsto> n - 1) \<and>
       reserved T w' = (reserved T w)(?a := insert u (reserved T w ?a))"
    using rs.reserve_dup [OF at(2) ttl(1) i n' _ op] rs.reserve_sold_out [OF at(2) ttl(1) i n' _ _ op]
      rs.reserve_granted [OF at(2) ttl(1) i n' _ _ op]
    unfolding at(3,4) after(2,3) r by (auto simp: reserve_decode_def)
  with after(1) show ?thesis by (simp add: w')
qed

lemma cache_Release_effect:
  assumes st: "steady T w" and up: "fault (ext w) (tick w) = None" and run: "cache_Release a u w = (r, w')"
    and held: "u \<in> reserved T w a" and n: "counter T w a = Some n" and i: "in_i64 (n + 1)"
  shows "steady T w' \<and> ext w' = ext w \<and> tables w' = tables w \<and> tick w' = Suc (tick w) \<and>
    counter T w' = (counter T w)(a \<mapsto> n + 1) \<and> reserved T w' = (reserved T w)(a := reserved T w a - {u})"
proof -
  let ?t = "clock (ext w) (tick w)"
  note at = steady_at [OF st order_refl]
  obtain res db where op: "release_op a u ?t (redis w) = (res, db)" by fastforce
  have le: "?t \<le> T" using steady_clock [OF st order_refl order_refl] by simp
  note h = rs.release_holder [OF at(2) n [folded at(3)] i held [folded at(4)] op]
  have w': "w' = w\<lparr>tick := Suc (tick w), redis := db\<rparr>"
    using run up op h by (auto simp: cache_Release_def bindE_def redis_call_def release_op_def Let_def ret_def)
  have "steady T w' \<and> counter T w' = cache_avail ?t db \<and> reserved T w' = cache_holders ?t db"
    using steady_after [OF st, of w' "tick w"] rs.release_wf [OF at(2) op] rs.release_alive [OF at(1) le op]
    by (simp add: w')
  with h show ?thesis unfolding at(3,4) by (simp add: w')
qed

section \<open>An order through Redis\<close>

abbreviation (input) reject :: "nat \<Rightarrow> goerr \<Rightarrow> 'a go" where
  "reject u e \<equiv> thenE (log_op ''create_order_rejected'' '''' u ''failed'' (err_text e)) (throw e)"

lemma reject_run: "reject u e w = (r, w') \<Longrightarrow> r = Inl e \<and> ext w' = ext w \<and> redis w' = redis w \<and> tick w \<le> tick w'"
proof -
  assume run: "reject u e w = (r, w')"
  have "keeps (reject u e)" by (intro keeps_intros)
  from keepsD [OF this run] show ?thesis
    using run log_op_total [of "''create_order_rejected''" "''''" u "''failed''" "err_text e" w]
    by (auto simp: bindE_def throw_def)
qed

abbreviation (input) finish_order :: "OrderService \<Rightarrow> nat \<Rightarrow> CreateOrderInput \<Rightarrow> activity \<Rightarrow> int \<Rightarrow> (order \<times> int) go" where
  "finish_order s u i act left \<equiv>
     bindE (on_error (transaction (redis_order_body u i act)) (\<lambda>err. thenE (attempt (cache_Release (co_activity i) u)) (reject u err)))
       (\<lambda>ord. thenE (publishOrderTask s (o_order_no ord))
         (thenE (log_op ''stock_reserved_redis'' (o_order_no ord) u ''success'' (''stock_left='' @ itoa left)) (ret (ord, left))))"

lemma finish_order_cases:
  assumes run: "finish_order s u i act left w = (r, w')"
  obtains (undone) e w1 w2 x where
      "transaction (redis_order_body u i act) w = (Inl e, w1)" "cache_Release (co_activity i) u w1 = (x, w2)"
      "r = Inl e" "ext w' = ext w2 \<and> redis w' = redis w2 \<and> tick w2 \<le> tick w'"
  | (placed) ord w1 where "transaction (redis_order_body u i act) w = (Inr ord, w1)"
      "r = Inr (ord, left)" "ext w' = ext w1 \<and> redis w' = redis w1 \<and> tick w1 \<le> tick w'"
proof -
  obtain tr w1 where tx: "transaction (redis_order_body u i act) w = (tr, w1)" by fastforce
  show thesis
  proof (cases tr)
    case (Inl e)
    obtain x w2 where rel: "cache_Release (co_activity i) u w1 = (x, w2)" by fastforce
    have "reject u e w2 = (r, w')"
      using run tx Inl rel by (auto simp: bindE_def on_error_def attempt_def throw_def split: prod.splits sum.splits)
    from reject_run [OF this] show thesis by (intro undone [OF tx [unfolded Inl] rel]) auto
  next
    case (Inr ord)
    let ?tail = "thenE (publishOrderTask s (o_order_no ord)) (thenE (log_op ''stock_reserved_redis'' (o_order_no ord) u ''success'' (''stock_left='' @ itoa left)) (ret (ord, left)))"
    have tail: "?tail w1 = (r, w')"
      using run tx Inr by (simp add: bindE_def on_error_def)
    have "keeps ?tail" by (intro keeps_intros)
    then have kept: "ext w' = ext w1 \<and> redis w' = redis w1 \<and> tick w1 \<le> tick w'" using tail by (rule keepsD)
    have "returns ?tail" by (intro returns_intros)
    then obtain x w'' where "?tail w1 = (Inr x, w'')" unfolding returns_def by blast
    with tail same_logs_tail [OF this] have "r = Inr (ord, left)" by simp
    then show thesis using kept by (rule placed [OF tx [unfolded Inr]])
  qed
qed

lemma time_step: "bindE time_now f w = f (clock (ext w) (tick w)) (w\<lparr>tick := Suc (tick w)\<rparr>)"
  by (simp add: bindE_def time_now_def)

lemma handled_step: "m w = (Inr x, w1) \<Longrightarrow> bindE (on_error m h) f w = f x w1"
  by (simp add: bindE_def on_error_def)

lemma ensure_handled: "bindE (on_error (ensureE None) h) f w = f () w"
  by (simp add: ensureE_def ret_def on_error_def bindE_def)

lemma handler_step: "m w = (Inl e, w1) \<Longrightarrow> bindE (on_error m h) f w = bindE (h e) f w1"
  by (simp add: bindE_def on_error_def)

lemma reject_step: "bindE (reject u e) f w = reject u e w"
  by (auto simp: bindE_def throw_def split: prod.splits sum.splits)

lemma ensure_fails: "ensureE (Some e) w = (Inl e, w)"
  by (simp add: ensureE_def throw_def)

lemma redis_order_cases:
  assumes run: "createOrderWithRedis s u i w = (r, w')"
  obtains (early) e where "r = Inl e" "ext w' = ext w \<and> redis w' = redis w \<and> tick w \<le> tick w'"
  | (refused) act e v where "act \<in> set (activities (tables w))" "a_id act = co_activity i"
      "cache_Reserve act u (w\<lparr>tick := Suc (Suc (tick w))\<rparr>) = (Inl e, v)"
      "r = Inl e" "ext w' = ext v \<and> redis w' = redis v \<and> tick v \<le> tick w'"
  | (undone) act left e v v1 v2 x where "act \<in> set (activities (tables w))" "a_id act = co_activity i"
      "cache_Reserve act u (w\<lparr>tick := Suc (Suc (tick w))\<rparr>) = (Inr left, v)"
      "transaction (redis_order_body u i act) v = (Inl e, v1)" "cache_Release (co_activity i) u v1 = (x, v2)"
      "r = Inl e" "ext w' = ext v2 \<and> redis w' = redis v2 \<and> tick v2 \<le> tick w'"
  | (placed) act left ord v v1 where "act \<in> set (activities (tables w))" "a_id act = co_activity i"
      "cache_Reserve act u (w\<lparr>tick := Suc (Suc (tick w))\<rparr>) = (Inr left, v)"
      "transaction (redis_order_body u i act) v = (Inr ord, v1)"
      "r = Inr (ord, left)" "ext w' = ext v1 \<and> redis w' = redis v1 \<and> tick v1 \<le> tick w'"
proof -
  let ?get = "first_by activities (\<lambda>a. a_id a = co_activity i)"
  let ?w1 = "w\<lparr>tick := Suc (tick w)\<rparr>" and ?v0 = "w\<lparr>tick := Suc (Suc (tick w))\<rparr>"
  obtain f w1 where f1: "?get w = (f, w1)" by fastforce
  then have "w1 = ?w1" by (auto simp: first_by_def stmt_def Let_def split: option.splits sum.splits)
  with f1 have f: "?get w = (f, ?w1)" by simp
  show thesis
  proof (cases f)
    case (Inl e)
    have "reject u ErrActivityNotFound ?w1 = (r, w')"
      using run unfolding createOrderWithRedis_def by (simp only: handler_step [of ?get w, OF f [unfolded Inl]] reject_step)
    from reject_run [OF this] early show thesis by auto
  next
    case (Inr act)
    with f have act: "act \<in> set (activities (tables w))" "a_id act = co_activity i"
      by (auto simp: first_by_ok dest: find_SomeD)
    note opened = run [unfolded createOrderWithRedis_def, unfolded handled_step [of ?get w, OF f [unfolded Inr]] time_step, simplified]
    show thesis
    proof (cases "ensureActivityOrderable act (clock (ext w) (Suc (tick w)))")
      case (Some e)
      with opened have "reject u e ?v0 = (r, w')" by (simp add: handler_step [OF ensure_fails] reject_step)
      from reject_run [OF this] early show thesis by auto
    next
      case None
      obtain rr v where res: "cache_Reserve act u ?v0 = (rr, v)" by fastforce
      show thesis
      proof (cases rr)
        case (Inl e)
        from opened None have "reject u e v = (r, w')" by (simp add: ensure_handled handler_step [of "cache_Reserve act u" ?v0, OF res [unfolded Inl]] reject_step)
        from reject_run [OF this] show thesis by (intro refused [OF act res [unfolded Inl]]) auto
      next
        case (Inr left)
        from opened None have "finish_order s u i act left v = (r, w')" by (simp add: ensure_handled handled_step [of "cache_Reserve act u" ?v0, OF res [unfolded Inr]])
        then show thesis
          by (cases rule: finish_order_cases) (fact undone [OF act res [unfolded Inr]] placed [OF act res [unfolded Inr]])+
      qed
    qed
  qed
qed

section \<open>Repairing the cache\<close>

lemma set_stock_alive:
  assumes "cache_alive now T db" and "0 < ttl" and "T < now + ttl * go_second"
    and "setStockPipe a n ttl now db = (r, db')"
  shows "cache_alive now T db'"
  using assms unfolding cache_alive_iff setStockPipe_def redis_set_def
  by (auto simp: Let_def intro!: later_expire later_set split: if_splits)

lemma cache_SetStock_effect:
  assumes st: "steady T w" and T: "T < clock (ext w) (tick w) + 3600 * go_second" and i: "in_i64 n"
    and run: "cache_SetStock a n e w = (Inr x, w')"
  shows "steady T w' \<and> ext w' = ext w \<and> tick w \<le> tick w' \<and> tables w' = tables w \<and>
    counter T w' = (counter T w)(a \<mapsto> n) \<and> reserved T w' = reserved T w"
proof -
  let ?now = "clock (ext w) (tick w)" and ?k = "Suc (tick w)"
  let ?t = "clock (ext w) ?k" and ?ttl = "reserveTTL ?now e"
  have k: "tick w \<le> ?k" by simp
  note at = steady_at [OF st k]
  obtain r db where op: "setStockPipe a n ?ttl ?t (redis w) = (r, db)" by fastforce
  have ttl: "0 < ?ttl" "3600 \<le> ?ttl" using reserveTTL_ge_hour [of ?now e] by simp_all
  have le: "?now \<le> ?t" "?t \<le> T" using steady_clock [OF st order_refl k] by simp_all
  have "3600 * go_second \<le> ?ttl * go_second" using ttl(2) by (simp add: go_second_def)
  with T le have far: "T < ?t + ?ttl * go_second" by linarith
  note law = rs.set_stock_law [OF at(2) ttl(1) i op] set_stock_alive [OF at(1) ttl(1) far op]
  have w': "w' = w\<lparr>tick := Suc (Suc (tick w)), redis := db\<rparr>"
    using run op law by (auto simp: cache_SetStock_def bindE_def time_now_def redis_call_def Let_def split: option.splits)
  have "steady T w' \<and> counter T w' = cache_avail ?t db \<and> reserved T w' = cache_holders ?t db"
    using steady_after [OF st, of w' ?k] law by (simp add: w')
  with law show ?thesis unfolding at(3,4) by (simp add: w')
qed

lemma cache_GetStock_effect:
  assumes st: "steady T w" and run: "cache_GetStock a w = (Inr (n, present), w')"
  shows "ext w' = ext w \<and> redis w' = redis w \<and> tick w \<le> tick w' \<and> (present \<longleftrightarrow> counter T w a = Some n)"
proof -
  from run have w': "w' = w\<lparr>tick := Suc (tick w)\<rparr>"
    and n: "getStockCommand a (clock (ext w) (tick w)) (redis w) = (Inr (n, present), redis w)"
    by (auto simp: cache_GetStock_def redis_call_def getStockCommand_def Let_def split: option.splits rval.splits)
  have "present \<longleftrightarrow> cache_avail (clock (ext w) (tick w)) (redis w) a = Some n"
    using n by (auto simp: getStockCommand_def cache_avail_def split: option.splits rval.splits)
  with steady_at(3) [OF st order_refl] w' show ?thesis by simp
qed

lemma reconcile_one_effect:
  assumes st: "steady T w" and T: "T < clock (ext w) (tick w) + 3600 * go_second" and i: "in_i64 (a_stock act)"
    and run: "reconcile_one True act res w = (Inr res', w')"
  shows "steady T w' \<and> T < clock (ext w') (tick w') + 3600 * go_second \<and> reserved T w' = reserved T w \<and>
    counter T w' = (counter T w)(a_id act \<mapsto> a_stock act)"
proof -
  let ?upd = "cache_SetStock (a_id act) (a_stock act) (a_end act)"
  from run obtain n present w1 where get: "cache_GetStock (a_id act) w = (Inr (n, present), w1)"
    and rest: "present \<and> n = a_stock act \<and> w' = w1 \<or> (\<exists>m r. thenE ?upd (thenE (log_op ''stock_reconcile_repair'' '''' 0 ''success'' m) (ret r)) w1 = (Inr res', w'))"
    unfolding reconcile_one_def Let_def bindE_ok [of "cache_GetStock _"]
    by (elim exE conjE, rename_tac p w1, case_tac p, simp only: prod.case if_distrib [of "\<lambda>m. m _"] split: if_split_asm)
       (unfold ret_run, blast+)
  have k: "(present \<and> n = a_stock act \<and> w' = w1) \<or> (\<exists>x w2 w3 m. ?upd w1 = (Inr x, w2) \<and>
      log_op ''stock_reconcile_repair'' '''' 0 ''success'' m w2 = (Inr (), w3) \<and> w' = w3)"
    using rest by (auto simp: bindE_ok ret_run)
  note g = cache_GetStock_effect [OF st get]
  note s1 = steady_keeps [OF st, of w1]
  have T1: "T < clock (ext w1) (tick w1) + 3600 * go_second"
    using T g steady_clock [OF st order_refl, of "tick w1"] by simp
  from k show ?thesis
  proof (elim disjE exE conjE)
    assume "present" "n = a_stock act" "w' = w1"
    with g s1 T1 show ?thesis by (auto simp: fun_eq_iff)
  next
    fix x w2 w3 m
    assume set: "cache_SetStock (a_id act) (a_stock act) (a_end act) w1 = (Inr x, w2)"
      and log: "log_op ''stock_reconcile_repair'' '''' 0 ''success'' m w2 = (Inr (), w3)" and w': "w' = w3"
    have st1: "steady T w1" using s1(1) g by simp
    note e = cache_SetStock_effect [OF st1 T1 i set]
    then have st2: "steady T w2" by simp
    note l = keepsD [OF keeps_log log]
    have "T < clock (ext w3) (tick w3) + 3600 * go_second"
      using T1 e l steady_clock [OF st1 order_refl, of "tick w3"] by simp
    with e steady_keeps [OF st2 l] s1(2,3) g w' show ?thesis by simp
  qed
qed

lemma reconcile_loop_effect:
  assumes "steady T w" and "T < clock (ext w) (tick w) + 3600 * go_second" and "\<forall>act\<in>set acts. in_i64 (a_stock act)"
    and "distinct (map a_id acts)" and "reconcile_loop True acts res w = (Inr res', w')"
  shows "reserved T w' = reserved T w \<and>
    (\<forall>a. counter T w' a = (case find (\<lambda>act. a_id act = a) acts of Some act \<Rightarrow> Some (a_stock act) | None \<Rightarrow> counter T w a))"
  using assms
proof (induction acts arbitrary: res w)
  case (Cons act acts)
  from Cons.prems(5) obtain r1 w1 where one: "reconcile_one True act res w = (Inr r1, w1)"
    and rest: "reconcile_loop True acts r1 w1 = (Inr res', w')" by (auto simp: run_simps)
  note e = reconcile_one_effect [OF Cons.prems(1,2) _ one]
  have no: "find (\<lambda>x. a_id x = a_id act) acts = None" using Cons.prems(4) by (auto simp: find_None_iff) (metis imageI)
  have "reserved T w' = reserved T w1 \<and>
    (\<forall>a. counter T w' a = (case find (\<lambda>act. a_id act = a) acts of Some act \<Rightarrow> Some (a_stock act) | None \<Rightarrow> counter T w1 a))"
    by (rule Cons.IH) (use e Cons.prems rest in auto)
  with e Cons.prems(3) no show ?case by (auto split: option.splits)
qed (simp add: run_simps)

lemma logs_reconcile: "tracks same_but_logs (ReconcileStock s a b)"
proof -
  have one: "tracks same_but_logs (reconcile_one b act r)" for act r
    unfolding reconcile_one_def Let_def
    by (auto intro!: logs_intros logs_reads [OF cache_GetStock_reads] logs_reads [OF cache_SetStock_reads] split: prod.splits)
  have loop: "tracks same_but_logs (reconcile_loop b acts r)" for acts r
    by (induction acts arbitrary: r) (auto intro!: logs_intros one)
  show ?thesis
    unfolding ReconcileStock_def find_desc_def
    by (auto intro!: logs_intros loop logs.tracks_stmt simp: logs.R_refl)
qed

text \<open>
  C34: a repairing reconciliation that reports success has repaired.  Afterwards the counter in Redis of
  every activity that was asked for (one, or all of them for the identifier 0) is its stock in the
  database, whatever was there before; other counters and all reservations are as they were, and no table
  but the log has changed.
\<close>

theorem reconcile_repairs:
  assumes "ReconcileStock s k True w = (Inr res, w')" and "steady T w"
    and "T < clock (ext w) (tick w) + 3600 * go_second" and "ledger_inv (tables w)"
  shows "(\<forall>act\<in>set (activities (tables w)). k = 0 \<or> a_id act = k \<longrightarrow> counter T w' (a_id act) = Some (a_stock act)) \<and>
    (\<forall>a. (\<forall>act\<in>set (activities (tables w)). (k = 0 \<or> a_id act = k) \<longrightarrow> a_id act \<noteq> a) \<longrightarrow> counter T w' a = counter T w a) \<and>
    reserved T w' = reserved T w \<and> same_but_logs (tables w) (tables w')"
proof -
  let ?P = "\<lambda>act. k = 0 \<or> a_id act = k" and ?w1 = "w\<lparr>tick := Suc (tick w)\<rparr>"
  let ?found = "rev (filter ?P (activities (tables w)))"
  from assms(1) obtain r0 where loop: "reconcile_loop True ?found r0 ?w1 = (Inr res, w')"
    by (auto simp: ReconcileStock_def run_simps split: if_splits)
  have d: "distinct (map a_id (activities (tables w)))" using assms(4) by (simp add: ledger_inv_def keys_inv_def)
  have d': "distinct (map a_id ?found)" using distinct_map_filter [OF d] by (simp add: rev_map [symmetric])
  have st1: "steady T ?w1" "counter T ?w1 = counter T w" "reserved T ?w1 = reserved T w"
    using steady_keeps [OF assms(2), of ?w1] by simp_all
  have T1: "T < clock (ext ?w1) (tick ?w1) + 3600 * go_second"
    using assms(3) steady_clock [OF assms(2) order_refl, of "Suc (tick w)"] by simp
  have "\<forall>act\<in>set ?found. in_i64 (a_stock act)" using activity_room(1) [OF assms(4)] by auto
  note e = reconcile_loop_effect [OF st1(1) T1 this d' loop]
  have hit: "find (\<lambda>x. a_id x = a_id act) ?found = Some act" if "act \<in> set (activities (tables w))" "?P act" for act
    using find_key_unique [OF d', of act] that by auto
  have miss: "find (\<lambda>x. a_id x = a) ?found = None"
    if "\<forall>act\<in>set (activities (tables w)). ?P act \<longrightarrow> a_id act \<noteq> a" for a
    using that by (auto simp: find_None_iff)
  have "same_but_logs (tables w) (tables w')" using tracksD [OF logs_reconcile assms(1)] .
  with e st1(2,3) hit miss show ?thesis by (auto split: option.splits)
qed

theorem reconcile_repairs_witness:
  "\<exists>res w'. ReconcileStock (NewOrderService True False) 0 True demo = (Inr res, w') \<and> counter 200 w' 1 = Some 1"
proof -
  have "\<exists>res w'. ReconcileStock (NewOrderService True False) 0 True demo = (Inr res, w')"
    by (simp add: ReconcileStock_def reconcile_one_def cache_GetStock_def getStockCommand_def rget_def cache_SetStock_def
        setStockPipe_def redis_set_def demo_defs run_eval text_eval)
  then obtain res w' where run: "ReconcileStock (NewOrderService True False) 0 True demo = (Inr res, w')" by blast
  have "steady 200 demo" "200 < clock (ext demo) (tick demo) + 3600 * go_second" "ledger_inv (tables demo)"
    by (auto simp: steady_def demo_def fresh_world_def calm_def cache_wf_def cache_alive_def rget_def go_second_def
        demo_ledger)
  from reconcile_repairs [OF run this] run show ?thesis
    by (auto simp: demo_tables_def empty_tables_def demo_activity_def)
qed

end
