(* ===== verification/Verdict.thy ===== *)
theory Verdict
  imports StockProps Liveness
begin

text \<open>
  Who gets an order: the decision the service is meant to take, as a function of the tables and
  the time, and the two implementations against it, when nothing outside fails.
\<close>

section \<open>The decision\<close>

definition has_order :: "tables \<Rightarrow> nat \<Rightarrow> nat \<Rightarrow> bool" where
  "has_order t u a \<longleftrightarrow> (\<exists>x\<in>set (orders t). o_user x = u \<and> o_activity x = a)"

definition verdict :: "tables \<Rightarrow> nat \<Rightarrow> nat \<Rightarrow> instant \<Rightarrow> goerr + int" where
  "verdict t u a now =
     (case find (\<lambda>x. a_id x = a) (activities t) of
        None \<Rightarrow> Inl ErrActivityNotFound
      | Some act \<Rightarrow>
          if ensureActivityOrderable act now \<noteq> None then Inl ErrActivityNotAvailable
          else if a_stock act \<le> 0 then Inl ErrSoldOut
          else if has_order t u a then Inl ErrDuplicateOrder
          else Inr (a_stock act - 1))"

text \<open>
  What the tables must be like besides the invariant: the number drawn for the new order is not in use.
\<close>

definition numbers_free :: "world \<Rightarrow> bool" where
  "numbers_free w \<longleftrightarrow> (\<forall>v no v'. ext v = ext w \<longrightarrow> newOrderNo v = (Inr no, v') \<longrightarrow> no \<notin> o_order_no ` set (orders (tables w)))"

lemma numbers_freeD: "numbers_free w \<Longrightarrow> newOrderNo v = (Inr no, v') \<Longrightarrow> ext v = ext w \<Longrightarrow> no \<notin> o_order_no ` set (orders (tables w))"
  unfolding numbers_free_def by blast

text \<open>No activity opens or closes while the run lasts.\<close>

definition no_boundary :: "world \<Rightarrow> bool" where
  "no_boundary w \<longleftrightarrow> (\<forall>act\<in>set (activities (tables w)). \<forall>k\<ge>tick w.
     ensureActivityOrderable act (clock (ext w) k) = ensureActivityOrderable act (clock (ext w) (tick w)))"

section \<open>Writing the order cannot fail\<close>

lemma keyed_ledger: "ledger_inv t \<Longrightarrow> keyed_inv t"
  by (simp add: ledger_inv_def)

lemma create_fresh:
  assumes q: "quiet (ext w)" and k: "keyed_inv (tables w)" and no: "o_order_no ord \<notin> o_order_no ` set (orders (tables w))"
    and key: "o_key ord = NewActivityOrderKey (o_user ord) (o_activity ord)"
    and new: "\<not> has_order (tables w) (o_user ord) (o_activity ord)"
  shows "\<exists>r w'. create_activity_order ord w = (Inr r, w') \<and> ext w' = ext w"
proof -
  let ?r = "ord\<lparr>o_id := i, o_created := t, o_updated := t\<rparr>"
  have "order_conflict (orders (tables w)) (ord\<lparr>o_id := i, o_created := t, o_updated := t\<rparr>) = None" for i t
    using no key new k
    unfolding order_conflict_def keyed_inv_def has_order_def
    by (auto simp: image_iff split: if_splits) (metis not_Some_eq NewActivityOrderKey_inject)+
  then show ?thesis
    using q by (auto simp: create_activity_order_def on_error_def create_order_def quiet_stmt Let_def)
qed

lemma newOrderNo_returns: "\<exists>no w'. newOrderNo w = (Inr no, w') \<and> ext w' = ext w \<and> tables w' = tables w"
  by (auto simp: newOrderNo_def bindE_def time_now_def randomText_def)

lemma ensure_result: "ensureActivityOrderable act now = None \<or> ensureActivityOrderable act now = Some ErrActivityNotAvailable"
  by (auto simp: ensureActivityOrderable_def Let_def)

section \<open>Steps of a run\<close>

lemma bindE_step: "m w = (Inr x, w1) \<Longrightarrow> bindE m f w = f x w1"
  by (simp add: bindE_def)

lemma ensure_step: "bindE (ensureE None) f w = f () w" "bindE (ensureE (Some e)) f w = (Inl e, w)"
  by (simp_all add: bindE_def ensureE_def ret_def throw_def)

lemma guard_step: "b \<Longrightarrow> bindE (guardE b e) f w = f () w" "\<not> b \<Longrightarrow> bindE (guardE b e) f w = (Inl e, w)"
  by (simp_all add: bindE_def guardE_def ret_def throw_def)

lemma found_step:
  assumes "quiet (ext w)" and "find P (activities (tables w)) = Some act"
  shows "bindE (on_error (first_by activities P) h) f w = f act (w\<lparr>tick := Suc (tick w)\<rparr>)"
  by (rule handled_step, rule quiet_find [OF assms(1)], rule assms(2))

lemma failed_step: "m w = (Inl e, w1) \<Longrightarrow> fst (h e w1) = Inl e' \<Longrightarrow> fst (bindE (on_error m h) f w) = Inl e'"
  by (auto simp: bindE_def on_error_def split: prod.splits sum.splits)

lemmas steps = time_step ensure_step guard_step

section \<open>The database alone\<close>

lemma db_body_grants:
  assumes q: "quiet (ext w)" and inv: "ledger_inv (tables w)" and n: "numbers_free w"
    and found: "find (\<lambda>x. a_id x = co_activity i) (activities (tables w)) = Some act" and pos: "0 < a_stock act"
    and ok: "ensureActivityOrderable act (clock (ext w) (Suc (tick w))) = None"
    and fresh: "\<not> has_order (tables w) u (co_activity i)"
  shows "\<exists>ord w'. db_order_body u i w = (Inr (ord, a_stock act - 1), w') \<and> ext w' = ext w"
proof -
  note act = find_SomeD [OF found]
  let ?Q = "\<lambda>r. o_user r = u \<and> o_activity r = co_activity i"
  let ?w3 = "w\<lparr>tick := Suc (Suc (tick w))\<rparr>" and ?w4 = "w\<lparr>tick := Suc (Suc (Suc (tick w)))\<rparr>"
  have count: "count_by orders ?Q ?w3 = (Inr 0, ?w4)"
    using q fresh by (auto simp: count_by_def quiet_stmt has_order_def filter_empty_conv)
  let ?act = "act\<lparr>a_stock := a_stock act - 1, a_updated := clock (ext w) (Suc (Suc (Suc (tick w))))\<rparr>"
  let ?w5 = "w\<lparr>tick := Suc (Suc (Suc (Suc (tick w)))), tables := (tables w)\<lparr>activities := save_row a_id ?act (activities (tables w))\<rparr>\<rparr>"
  have dec: "wrap64 (a_stock act - 1) = a_stock act - 1"
    using activity_room(2) [OF inv act [THEN conjunct1]] pos by simp
  have save: "save_activity (act\<lparr>a_stock := wrap64 (a_stock act - 1)\<rparr>) ?w4 = (Inr ?act, ?w5)"
    using q by (simp add: save_activity_def quiet_stmt Let_def dec)
  obtain no w6 where no: "newOrderNo ?w5 = (Inr no, w6)" and w6: "ext w6 = ext w" "tables w6 = tables ?w5"
    using newOrderNo_returns [of ?w5] by auto
  have "no \<notin> o_order_no ` set (orders (tables w))" by (rule numbers_freeD [OF n no]) simp
  then obtain ord w7 where create: "create_activity_order (new_activity_order no (co_request_id i) u ?act) w6 = (Inr ord, w7)" "ext w7 = ext w"
    using create_fresh [of w6 "new_activity_order no (co_request_id i) u ?act"] q w6 keyed_ledger [OF inv] fresh act
    by (auto simp: new_activity_order_def keyed_inv_def has_order_def)
  have "db_order_body u i w = (Inr (ord, a_stock act - 1), w7)"
    using ok pos
    by (simp add: db_order_body_def found_step [OF q found] steps bindE_step [of "count_by orders ?Q", OF count]
        bindE_step [of "save_activity _" ?w4, OF save] bindE_step [of newOrderNo, OF no]
        bindE_step [of "create_activity_order _", OF create(1)] ret_def)
  with create(2) show ?thesis by blast
qed

lemma db_body_verdict:
  assumes q: "quiet (ext w)" and inv: "ledger_inv (tables w)" and n: "numbers_free w"
  shows "case verdict (tables w) u (co_activity i) (clock (ext w) (Suc (tick w))) of
      Inl e \<Rightarrow> \<exists>w'. db_order_body u i w = (Inl e, w') \<and> ext w' = ext w
    | Inr left \<Rightarrow> \<exists>ord w'. db_order_body u i w = (Inr (ord, left), w') \<and> ext w' = ext w"
proof (cases "find (\<lambda>x. a_id x = co_activity i) (activities (tables w))")
  case None
  with q show ?thesis
    by (simp add: verdict_def db_order_body_def bindE_def on_error_def first_by_def quiet_stmt throw_def)
next
  case (Some act)
  note ask = found_step [OF q Some]
  let ?now = "clock (ext w) (Suc (tick w))" and ?Q = "\<lambda>r. o_user r = u \<and> o_activity r = co_activity i"
  show ?thesis
  proof (cases "ensureActivityOrderable act ?now = None \<and> 0 < a_stock act")
    case False
    with Some ensure_result [of act ?now] show ?thesis
      by (auto simp: verdict_def db_order_body_def ask steps)
  next
    case open_now: True
    show ?thesis
    proof (cases "has_order (tables w) u (co_activity i)")
      case True
      let ?w3 = "w\<lparr>tick := Suc (Suc (tick w))\<rparr>" and ?n = "length (filter ?Q (orders (tables w)))"
      have count: "count_by orders ?Q ?w3 = (Inr ?n, ?w3\<lparr>tick := Suc (tick ?w3)\<rparr>)"
        using q by (simp add: count_by_def quiet_stmt)
      have "?n \<noteq> 0" using True by (auto simp: has_order_def filter_empty_conv)
      with Some True open_now show ?thesis
        by (simp add: verdict_def db_order_body_def ask steps bindE_step [of "count_by orders ?Q", OF count])
    next
      case False
      with Some open_now show ?thesis
        using db_body_grants [OF q inv n Some] by (simp add: verdict_def)
    qed
  qed
qed

lemma verdict_any_time:
  assumes "no_boundary w" and "tick w \<le> k"
  shows "verdict (tables w) u a (clock (ext w) k) = verdict (tables w) u a (clock (ext w) (tick w))"
proof (cases "find (\<lambda>x. a_id x = a) (activities (tables w))")
  case (Some act)
  from assms find_SomeD [OF Some] have "ensureActivityOrderable act (clock (ext w) k) = ensureActivityOrderable act (clock (ext w) (tick w))"
    unfolding no_boundary_def by blast
  with Some show ?thesis by (simp add: verdict_def)
qed (simp add: verdict_def)

lemma logged_reject: "fst (thenE (log_op a no u r m) (throw e) w) = Inl e"
  using log_op_total [of a no u r m w] by (auto simp: bindE_def throw_def)

lemma logged_accept: "fst (thenE (publishOrderTask s no) (thenE (log_op a n u r m) (ret y)) w) = Inr y"
proof -
  have "returns (thenE (publishOrderTask s no) (thenE (log_op a n u r m) (ret y)))" by (intro returns_intros)
  then obtain x w' where "thenE (publishOrderTask s no) (thenE (log_op a n u r m) (ret y)) w = (Inr x, w')"
    unfolding returns_def by blast
  with same_logs_tail [OF this] show ?thesis by simp
qed

definition left_of :: "goerr + (order \<times> int) \<Rightarrow> goerr + int" where
  "left_of r = map_sum id snd r"

lemma db_verdict:
  assumes q: "quiet (ext w)" and inv: "ledger_inv (tables w)" and n: "numbers_free w" and nb: "no_boundary w"
  shows "left_of (fst (createOrderWithDB s u i w)) = verdict (tables w) u (co_activity i) (clock (ext w) (tick w))"
proof -
  let ?w1 = "w\<lparr>tick := Suc (tick w)\<rparr>"
  have "numbers_free ?w1" using n by (simp add: numbers_free_def)
  note body = db_body_verdict [of ?w1 u i, simplified, OF q inv this [simplified]]
  have v: "verdict (tables w) u (co_activity i) (clock (ext w) (Suc (Suc (tick w)))) =
      verdict (tables w) u (co_activity i) (clock (ext w) (tick w))"
    by (rule verdict_any_time [OF nb]) simp
  show ?thesis
  proof (cases "verdict (tables w) u (co_activity i) (clock (ext w) (tick w))")
    case (Inl e)
    with body v obtain w' where b: "db_order_body u i ?w1 = (Inl e, w')" by auto
    with q have "transaction (db_order_body u i) w = (Inl e, w'\<lparr>tables := tables w\<rparr>)"
      by (simp add: transaction_def quiet_stmt)
    with Inl show ?thesis
      unfolding createOrderWithDB_def left_of_def by (simp add: failed_step [OF _ logged_reject])
  next
    case (Inr left)
    with body v obtain ord w' where b: "db_order_body u i ?w1 = (Inr (ord, left), w')" "ext w' = ext w" by auto
    from quiet_transaction [of w "db_order_body u i", OF q b] have tx: "transaction (db_order_body u i) w = (Inr (ord, left), w'\<lparr>tick := Suc (tick w')\<rparr>)" .
    have "fst (createOrderWithDB s u i w) = Inr (ord, left)"
      unfolding createOrderWithDB_def handled_step [of "transaction _" w, OF tx] prod.case by (rule logged_accept)
    with Inr show ?thesis by (simp add: left_of_def)
  qed
qed

section \<open>With the stock in Redis\<close>

lemma orderable_hit:
  "ensureActivityOrderable act now = None \<Longrightarrow> 0 < a_stock act \<Longrightarrow> a_id act = a \<Longrightarrow> stock_row_hit a now act"
  by (auto simp: ensureActivityOrderable_def stock_row_hit_def time_before_def time_after_def Let_def split: if_splits)

lemma redis_body_places:
  assumes q: "quiet (ext w)" and k: "keyed_inv (tables w)" and n: "numbers_free w"
    and act: "act \<in> set (activities (tables w))" "a_id act = co_activity i" "0 < a_stock act"
    and orderable: "ensureActivityOrderable act (clock (ext w) (Suc (tick w))) = None"
    and fresh: "\<not> has_order (tables w) u (co_activity i)"
  shows "\<exists>ord w'. redis_order_body u i act w = (Inr ord, w') \<and> ext w' = ext w"
proof -
  let ?Q = "\<lambda>r. o_user r = u \<and> o_activity r = co_activity i" and ?now = "clock (ext w) (Suc (tick w))"
  let ?w1 = "w\<lparr>tick := Suc (tick w)\<rparr>" and ?w2 = "w\<lparr>tick := Suc (Suc (tick w))\<rparr>"
  have count: "count_by orders ?Q w = (Inr 0, ?w1)"
    using q fresh by (auto simp: count_by_def quiet_stmt has_order_def filter_empty_conv)
  let ?hit = "stock_row_hit (co_activity i) ?now"
  let ?rows = "length (filter ?hit (activities (tables w)))"
  let ?acts = "map (\<lambda>a. if ?hit a then a\<lparr>a_stock := a_stock a - 1\<rparr> else a) (activities (tables w))"
  let ?w3 = "w\<lparr>tick := Suc (Suc (Suc (tick w))), tables := (tables w)\<lparr>activities := ?acts\<rparr>\<rparr>"
  have dec: "decrement_stock (co_activity i) ?now ?w2 = (Inr ?rows, ?w3)"
    using q by (simp add: decrement_stock_def quiet_stmt)
  have "?rows \<noteq> 0" using orderable_hit [OF orderable act(3,2)] act(1) by (auto simp: filter_empty_conv)
  obtain no w4 where no: "newOrderNo ?w3 = (Inr no, w4)" and w4: "ext w4 = ext w" "tables w4 = tables ?w3"
    using newOrderNo_returns [of ?w3] by auto
  have "no \<notin> o_order_no ` set (orders (tables w))" by (rule numbers_freeD [OF n no]) simp
  then obtain ord w5 where create: "create_activity_order (new_activity_order no (co_request_id i) u act) w4 = (Inr ord, w5)" "ext w5 = ext w"
    using create_fresh [of w4 "new_activity_order no (co_request_id i) u act"] q w4 k fresh act
    by (auto simp: new_activity_order_def keyed_inv_def has_order_def)
  have "redis_order_body u i act w = (Inr ord, w5)"
    using \<open>?rows \<noteq> 0\<close>
    by (simp add: redis_order_body_def steps bindE_step [of "count_by orders ?Q", OF count]
        bindE_step [of "decrement_stock _ _" ?w2, OF dec] bindE_step [of newOrderNo, OF no] create(1))
  with create(2) show ?thesis by blast
qed

lemma reserve_accounts:
  assumes st: "steady T w" and T: "T < clock (ext w) (tick w) + 3600 * go_second" and inv: "ledger_inv (tables w)"
    and up: "fault (ext w) (tick w + 3) = None" and act: "act \<in> set (activities (tables w))" "a_id act = a"
    and res: "cache_Reserve act u (w\<lparr>tick := Suc (Suc (tick w))\<rparr>) = (r, v)"
    and n: "n = (case counter T w a of None \<Rightarrow> a_stock act | Some m \<Rightarrow> m)"
  shows "steady T v \<and> ext v = ext w \<and> tick v = tick w + 4 \<and> tables v = tables w \<and> in_i64 n \<and>
    (if u \<in> reserved T w a then r = Inl ErrDuplicateOrder \<and> counter T v = (counter T w)(a \<mapsto> n) \<and> reserved T v = reserved T w
     else if n \<le> 0 then r = Inl ErrSoldOut \<and> counter T v = (counter T w)(a \<mapsto> n) \<and> reserved T v = reserved T w
     else r = Inr (n - 1) \<and> counter T v = (counter T w)(a \<mapsto> n - 1) \<and>
       reserved T v = (reserved T w)(a := insert u (reserved T w a)))"
proof -
  let ?v0 = "w\<lparr>tick := Suc (Suc (tick w))\<rparr>"
  note range = activity_room(1) [OF inv act(1)]
  have same: "steady T ?v0" "counter T ?v0 = counter T w" "reserved T ?v0 = reserved T w"
    using steady_keeps [OF st, of ?v0] by simp_all
  have "T < clock (ext ?v0) (tick ?v0) + 3600 * go_second"
    using T steady_clock [OF st, of "tick w" "Suc (Suc (tick w))"] by simp
  moreover have "fault (ext ?v0) (Suc (tick ?v0)) = None" using up by (simp add: eval_nat_numeral)
  moreover have "in_i64 n"
    using range rs.avail_range [of T "redis w" a] st by (auto simp: n steady_def split: option.splits)
  ultimately show ?thesis
    using cache_Reserve_effect [OF same(1) _ range _ res, of n] act(2) same(2,3) n by simp
qed

lemma release_undoes:
  assumes st: "steady T v" and n: "in_i64 n" and new: "u \<notin> reserved T w a"
    and taken: "counter T v = (counter T w)(a \<mapsto> n - 1)" "reserved T v = (reserved T w)(a := insert u (reserved T w a))"
    and kept: "ext v1 = ext v \<and> redis v1 = redis v \<and> tick v \<le> tick v1" and up: "fault (ext v) (tick v1) = None"
    and rel: "cache_Release a u v1 = (x, v2)"
  shows "steady T v2" "counter T v2 = (counter T w)(a \<mapsto> n)" "reserved T v2 = reserved T w"
proof -
  note s1 = steady_keeps [OF st kept]
  have "in_i64 (n - 1 + 1)" "fault (ext v1) (tick v1) = None" using n up kept by simp_all
  from cache_Release_effect [OF s1(1) this(2) rel _ _ this(1)] s1(2,3) taken new
  show "steady T v2" "counter T v2 = (counter T w)(a \<mapsto> n)" "reserved T v2 = reserved T w"
    by (auto simp: fun_eq_iff)
qed

definition in_sync :: "instant \<Rightarrow> world \<Rightarrow> nat \<Rightarrow> nat \<Rightarrow> bool" where
  "in_sync T w u a \<longleftrightarrow> (\<forall>act\<in>set (activities (tables w)). a_id act = a \<longrightarrow> counter T w a = Some (a_stock act)) \<and>
     (u \<in> reserved T w a \<longleftrightarrow> has_order (tables w) u a)"

definition cached_verdict :: "tables \<Rightarrow> nat \<Rightarrow> nat \<Rightarrow> instant \<Rightarrow> goerr + int" where
  "cached_verdict t u a now =
     (if verdict t u a now = Inl ErrSoldOut \<and> has_order t u a then Inl ErrDuplicateOrder else verdict t u a now)"

lemma redis_grants:
  assumes q: "quiet (ext w)" and inv: "ledger_inv (tables w)" and n: "numbers_free w"
    and found: "find (\<lambda>x. a_id x = co_activity i) (activities (tables w)) = Some act" and pos: "0 < a_stock act"
    and fresh: "\<not> has_order (tables w) u (co_activity i)"
    and ok: "\<And>k. tick w \<le> k \<Longrightarrow> ensureActivityOrderable act (clock (ext w) k) = None"
    and res: "cache_Reserve act u (w\<lparr>tick := Suc (Suc (tick w))\<rparr>) = (Inr left, v)"
    and v: "ext v = ext w" "tables v = tables w" "tick w \<le> tick v"
  shows "\<exists>ord. fst (createOrderWithRedis s u i w) = Inr (ord, left)"
proof -
  note act = find_SomeD [OF found, THEN conjunct1] find_SomeD [OF found, THEN conjunct2]
  let ?v0 = "w\<lparr>tick := Suc (Suc (tick w))\<rparr>" and ?v1 = "v\<lparr>tick := Suc (tick v)\<rparr>"
  have "numbers_free ?v1" using n v by (simp add: numbers_free_def)
  moreover have "ensureActivityOrderable act (clock (ext ?v1) (Suc (tick ?v1))) = None"
    using ok [of "Suc (tick ?v1)"] v by simp
  ultimately obtain ord v2 where body: "redis_order_body u i act ?v1 = (Inr ord, v2)" "ext v2 = ext v"
    using redis_body_places [of ?v1 act i u] q keyed_ledger [OF inv] act pos fresh v by auto
  have "quiet (ext v)" using q v by simp
  from quiet_transaction [of v "redis_order_body u i act", OF this body]
  have tx: "transaction (redis_order_body u i act) v = (Inr ord, v2\<lparr>tick := Suc (tick v2)\<rparr>)" .
  have "ensureActivityOrderable act (clock (ext w) (Suc (tick w))) = None" by (rule ok) simp
  then show ?thesis
    by (simp add: createOrderWithRedis_def found_step [OF q found] time_step ensure_handled
        handled_step [of "cache_Reserve _ _", OF res] handled_step [of "transaction _" v, OF tx] logged_accept)
qed

lemma redis_verdict:
  assumes q: "quiet (ext w)" and inv: "ledger_inv (tables w)" and n: "numbers_free w"
    and nb: "no_boundary w" and st: "steady T w" and T: "T < clock (ext w) (tick w) + 3600 * go_second"
    and sync: "in_sync T w u (co_activity i)"
  shows "left_of (fst (createOrderWithRedis s u i w)) = cached_verdict (tables w) u (co_activity i) (clock (ext w) (tick w))"
proof (cases "find (\<lambda>x. a_id x = co_activity i) (activities (tables w))")
  case None
  with q have "first_by activities (\<lambda>x. a_id x = co_activity i) w = (Inl ErrRecordNotFound, w\<lparr>tick := Suc (tick w)\<rparr>)"
    by (simp add: first_by_def quiet_stmt)
  with None show ?thesis
    by (simp add: verdict_def cached_verdict_def createOrderWithRedis_def left_of_def failed_step [OF _ logged_reject])
next
  case (Some act)
  note act = find_SomeD [OF Some, THEN conjunct1] find_SomeD [OF Some, THEN conjunct2]
  have same: "ensureActivityOrderable act (clock (ext w) k) = ensureActivityOrderable act (clock (ext w) (tick w))" if "tick w \<le> k" for k
    using nb act(1) that unfolding no_boundary_def by blast
  note on = same [of "Suc (tick w)", simplified] and ask = found_step [OF q Some] time_step
  show ?thesis
  proof (cases "ensureActivityOrderable act (clock (ext w) (tick w))")
    case e: (Some e)
    with ensure_result have "e = ErrActivityNotAvailable" by (metis option.distinct(1) option.inject)
    with Some e on show ?thesis
      by (simp add: verdict_def cached_verdict_def createOrderWithRedis_def left_of_def ask
          failed_step [OF _ logged_reject] ensure_fails)
  next
    case ok: None
    obtain rr v where res: "cache_Reserve act u (w\<lparr>tick := Suc (Suc (tick w))\<rparr>) = (rr, v)" by fastforce
    have "fault (ext w) (tick w + 3) = None" using q by (simp add: quiet_def)
    from reserve_accounts [OF st T inv this act res refl] sync act
    have v: "ext v = ext w" "tables v = tables w" "tick v = tick w + 4"
      and rr: "rr = (if has_order (tables w) u (co_activity i) then Inl ErrDuplicateOrder
        else if a_stock act \<le> 0 then Inl ErrSoldOut else Inr (a_stock act - 1))"
      by (auto simp: in_sync_def split: if_splits)
    show ?thesis
    proof (cases "has_order (tables w) u (co_activity i) \<or> a_stock act \<le> 0")
      case True
      with rr obtain e where "rr = Inl e" "e = (if has_order (tables w) u (co_activity i) then ErrDuplicateOrder else ErrSoldOut)"
        by auto
      with Some ok on True res show ?thesis
        by (auto simp: verdict_def cached_verdict_def createOrderWithRedis_def left_of_def ask on ok ensure_handled
            failed_step [OF _ logged_reject])
    next
      case False
      with rr res have "cache_Reserve act u (w\<lparr>tick := Suc (Suc (tick w))\<rparr>) = (Inr (a_stock act - 1), v)" by simp
      from redis_grants [OF q inv n Some _ _ _ this v(1,2)] False same ok v(3)
      have "\<exists>ord. fst (createOrderWithRedis s u i w) = Inr (ord, a_stock act - 1)" by simp
      with Some ok False show ?thesis by (auto simp: verdict_def cached_verdict_def left_of_def)
    qed
  qed
qed

section \<open>A shop with its stock in Redis\<close>

definition synced :: world where
  "synced = demo\<lparr>redis := [stockKey 1 \<mapsto> \<lparr>rv = RNum 1, rexp = None\<rparr>]\<rparr>"

lemma synced_fields [simp]: "ext synced = calm" "tick synced = 0" "tables synced = demo_tables"
  by (simp_all add: synced_def demo_def fresh_world_def)

lemma synced_steady: "steady 200 synced" "counter 200 synced 1 = Some 1" "reserved 200 synced a = {}"
  by (auto simp: steady_def synced_def demo_def fresh_world_def calm_def cache_wf_def cache_alive_def cache_avail_def
      cache_holders_def rget_def in_i64_def stockKey_def usersKey_def)

lemma synced_ready:
  "quiet (ext synced)" "ledger_inv (tables synced)" "numbers_free synced" "no_boundary synced"
  "steady 200 synced" "200 < clock (ext synced) (tick synced) + 3600 * go_second" "in_sync 200 synced 7 1"
  "verdict (tables synced) 7 1 (clock (ext synced) (tick synced)) = Inr 0"
proof -
  show "quiet (ext synced)" "ledger_inv (tables synced)" "steady 200 synced" "200 < clock (ext synced) (tick synced) + 3600 * go_second"
    by (simp_all add: synced_steady calm_def quiet_def go_second_def demo_ledger)
  show "no_boundary synced" by (simp add: no_boundary_def demo_defs)
  show "numbers_free synced"
    by (auto simp: numbers_free_def newOrderNo_def bindE_def time_now_def randomText_def demo_defs)
  show "in_sync 200 synced 7 1"
    by (auto simp: in_sync_def synced_steady has_order_def demo_defs simp del: One_nat_def)
  show "verdict (tables synced) 7 1 (clock (ext synced) (tick synced)) = Inr 0"
    by (simp add: verdict_def has_order_def demo_defs ensureActivityOrderable_def time_before_def time_after_def
        activity_status_defs)
qed

text \<open>
  C33: what an order through Redis does to the cached stock.  When neither the call that reserves nor the
  call that releases fails, an accepted order has taken exactly one unit of a positive counter for a user
  who held none, the user is now a holder, and the reported stock is what is left; a refused order, for
  whatever reason and wherever the database failed, has changed neither counter nor holders (at most
  loaded a missing counter from the database).  No other activity is touched.
\<close>

theorem redis_order_accounts:
  assumes run: "createOrderWithRedis s u i w = (r, w')" and st: "steady T w"
    and T: "T < clock (ext w) (tick w) + 3600 * go_second" and inv: "ledger_inv (tables w)"
    and up: "fault (ext w) (tick w + 3) = None"
    and up': "\<And>act v e v1. ext v = ext w \<Longrightarrow> tables v = tables w \<Longrightarrow> tick v = tick w + 4 \<Longrightarrow>
      transaction (redis_order_body u i act) v = (Inl e, v1) \<Longrightarrow> fault (ext w) (tick v1) = None"
  shows "(\<forall>ord left. r = Inr (ord, left) \<longrightarrow>
      u \<notin> reserved T w (co_activity i) \<and> 0 \<le> left \<and>
      counter T w' = (counter T w)(co_activity i \<mapsto> left) \<and>
      reserved T w' = (reserved T w)(co_activity i := insert u (reserved T w (co_activity i))) \<and>
      (\<forall>n. counter T w (co_activity i) = Some n \<longrightarrow> n = left + 1)) \<and>
    (\<forall>e. r = Inl e \<longrightarrow> reserved T w' = reserved T w \<and>
      (\<forall>a. counter T w' a = counter T w a \<or> (a = co_activity i \<and> counter T w a = None)))"
  using run
proof (cases rule: redis_order_cases)
  case early
  with steady_keeps [OF st early(2)] show ?thesis by simp
next
  case (refused act e v)
  from reserve_accounts [OF st T inv up refused(1-3) refl] steady_keeps [OF _ refused(5)] show ?thesis
    by (auto simp: refused(4) split: if_splits option.splits)
next
  case (undone act left e v v1 v2 x)
  define n where "n = (case counter T w (co_activity i) of None \<Rightarrow> a_stock act | Some m \<Rightarrow> m)"
  note taken = reserve_accounts [OF st T inv up undone(1-3) n_def]
  then have v: "ext v = ext w" "tables v = tables w" "tick v = tick w + 4" "steady T v" "in_i64 n" by simp_all
  have "fault (ext v) (tick v1) = None" using up' [OF v(1-3) undone(4)] v(1) by simp
  from release_undoes [OF v(4,5) _ _ _ keepsD [OF keeps_transaction [OF keeps_redis_body] undone(4)] this undone(5)] taken
  have again: "steady T v2" "counter T v2 = (counter T w)(co_activity i \<mapsto> n)" "reserved T v2 = reserved T w"
    by (auto split: if_splits)
  from steady_keeps [OF again(1) undone(7)] again(2,3) show ?thesis
    by (auto simp: undone(6) n_def split: option.splits)
next
  case (placed act left ord v v1)
  note taken = reserve_accounts [OF st T inv up placed(1-3) refl]
  then have "steady T v" by simp
  note s1 = steady_keeps [OF this keepsD [OF keeps_transaction [OF keeps_redis_body] placed(4)]]
  from taken steady_keeps [OF s1(1) placed(6)] s1(2,3) show ?thesis
    by (auto simp: placed(5) split: if_splits option.splits)
qed

theorem redis_order_accounts_witness:
  "\<exists>ord w'. createOrderWithRedis (NewOrderService True False) 7 \<lparr>co_activity = 1, co_request_id = ''r''\<rparr> synced = (Inr (ord, 0), w') \<and>
     counter 200 w' 1 = Some 0 \<and> reserved 200 w' 1 = {7}"
proof -
  let ?i = "\<lparr>co_activity = 1, co_request_id = ''r''\<rparr>"
  have "in_sync 200 synced 7 (co_activity ?i)" using synced_ready(7) by simp
  from redis_verdict [OF synced_ready(1-6) this] synced_ready(8)
  have "left_of (fst (createOrderWithRedis (NewOrderService True False) 7 ?i synced)) = Inr 0" by (simp add: cached_verdict_def)
  then obtain ord w' where run: "createOrderWithRedis (NewOrderService True False) 7 ?i synced = (Inr (ord, 0), w')"
    by (cases "createOrderWithRedis (NewOrderService True False) 7 ?i synced") (auto simp: left_of_def map_sum_def split: sum.splits)
  have "fault (ext synced) (tick synced + 3) = None" by (simp add: calm_def)
  from redis_order_accounts [OF run synced_ready(5,6,2) this] have "counter 200 w' = (counter 200 synced)(1 \<mapsto> 0)"
    "reserved 200 w' = (reserved 200 synced)(1 := insert 7 (reserved 200 synced 1))"
    by (simp_all add: calm_def)
  with run show ?thesis by (auto simp: synced_steady)
qed

text \<open>
  C35: both ways of taking an order decide the same.  When nothing outside fails, the clock is not at a
  boundary of an activity and Redis agrees with the database, the service without Redis answers with the
  intended decision, and the service with Redis with the same one, the same stock left included; the one
  difference is a user who asks again for a sold-out activity: told that it is sold out by the
  database, and that he has an order by Redis.  In particular an order that can be granted is.
\<close>

theorem both_paths_decide_alike:
  assumes "quiet (ext w)" and "ledger_inv (tables w)" and "numbers_free w" and "no_boundary w"
    and "steady T w" and "T < clock (ext w) (tick w) + 3600 * go_second" and "in_sync T w u (co_activity i)"
  shows "left_of (fst (createOrderWithDB s u i w)) = verdict (tables w) u (co_activity i) (clock (ext w) (tick w)) \<and>
    left_of (fst (createOrderWithRedis s' u i w)) =
      (if verdict (tables w) u (co_activity i) (clock (ext w) (tick w)) = Inl ErrSoldOut \<and> has_order (tables w) u (co_activity i)
       then Inl ErrDuplicateOrder else verdict (tables w) u (co_activity i) (clock (ext w) (tick w)))"
  using db_verdict [OF assms(1-4)] redis_verdict [OF assms] by (simp add: cached_verdict_def)

theorem both_paths_decide_alike_witness:
  "left_of (fst (createOrderWithDB (NewOrderService False False) 7 \<lparr>co_activity = 1, co_request_id = ''r''\<rparr> synced)) = Inr 0 \<and>
   left_of (fst (createOrderWithRedis (NewOrderService True False) 7 \<lparr>co_activity = 1, co_request_id = ''r''\<rparr> synced)) = Inr 0"
proof -
  let ?i = "\<lparr>co_activity = 1, co_request_id = ''r''\<rparr>"
  have "in_sync 200 synced 7 (co_activity ?i)" using synced_ready(7) by simp
  from both_paths_decide_alike [OF synced_ready(1-6) this] synced_ready(8) show ?thesis by simp
qed

end
