(* ===== verification/Races.thy ===== *)
theory Races
  imports System Scenario
begin

text \<open>
  What may happen between the statements of one call.  The development takes a call of a service as one
  step and a transaction as serialised; MySQL's transactions are not: their reads see a snapshot, and only
  writes wait for each other (with SQLite there is one connection, and transactions do come one by one).  Here the transaction that takes an order is split into the part that reads
  and the part that writes, in both ways of taking an order, and anything may happen in between.  A writing
  part stays one step, since its first statement locks the row of the activity until the commit.  The same
  is done for the two statements of \<open>UpdateActivityStatus\<close>, which is no transaction at all, and for a
  payment.
\<close>

section \<open>The two parts of a transaction\<close>

definition begin_tx :: "unit go" where
  "begin_tx = stmt (\<lambda>_ _ t. Inr ((), t))"

text \<open>What is left of a transaction when its reading part is done: the rest, then commit or rollback.\<close>

definition finish_tx :: "'a go \<Rightarrow> 'a go" where
  "finish_tx m w =
     (case m w of
        (Inl e, w1) \<Rightarrow> (Inl e, w1\<lparr>tables := tables w\<rparr>)
      | (Inr x, w1) \<Rightarrow>
          (case begin_tx w1 of
             (Inl e, w2) \<Rightarrow> (Inl e, w2\<lparr>tables := tables w\<rparr>)
           | (Inr _, w2) \<Rightarrow> (Inr x, w2)))"

lemma begin_tx_reads: "reads_only begin_tx"
  unfolding begin_tx_def by (rule same_tables.tracks_stmt) simp

lemma begin_tx_tables: "begin_tx w = (r, w') \<Longrightarrow> tables w' = tables w"
  by (rule reads_onlyD [OF begin_tx_reads])

lemma transaction_split:
  assumes "reads_only m" and "thenE begin_tx m w = (Inr x, w1)"
  shows "transaction (bindE m f) w = finish_tx (f x) w1"
proof -
  obtain w0 where b: "begin_tx w = (Inr (), w0)" and m: "m w0 = (Inr x, w1)"
    using assms(2) by (auto simp: bindE_def split: prod.splits sum.splits)
  have "tables w0 = tables w" by (rule begin_tx_tables [OF b])
  moreover have "tables w1 = tables w0" by (rule reads_onlyD [OF assms(1) m])
  ultimately show ?thesis
    using b m unfolding transaction_def finish_tx_def bindE_def begin_tx_def
    by (simp split: prod.splits sum.splits)
qed

lemma tracks_finish:
  assumes "\<And>w x w'. m w = (Inr x, w') \<Longrightarrow> obeys (tables w) (tables w')"
  shows "tracks obeys (finish_tx m)"
proof (rule tracksI)
  fix w r w' assume "finish_tx m w = (r, w')"
  then show "obeys (tables w) (tables w')"
    using assms by (auto simp: finish_tx_def obeys_same dest: begin_tx_tables split: prod.splits sum.splits)
qed

definition db_order_read :: "nat \<Rightarrow> CreateOrderInput \<Rightarrow> activity go" where
  "db_order_read userID input =
     bindE (on_error (first_by activities (\<lambda>a. a_id a = co_activity input)) (\<lambda>_. throw ErrActivityNotFound)) (\<lambda>act.
     bindE time_now (\<lambda>now.
     thenE (ensureE (ensureActivityOrderable act now))
     (thenE (guardE (0 < a_stock act) ErrSoldOut)
     (bindE (count_by orders (\<lambda>r. o_user r = userID \<and> o_activity r = co_activity input)) (\<lambda>count.
      thenE (guardE (count = 0) ErrDuplicateOrder) (ret act))))))"

definition db_order_write :: "nat \<Rightarrow> CreateOrderInput \<Rightarrow> activity \<Rightarrow> (order \<times> int) go" where
  "db_order_write userID input act =
     bindE (save_activity (act\<lparr>a_stock := wrap64 (a_stock act - 1)\<rparr>)) (\<lambda>act'.
     bindE newOrderNo (\<lambda>no.
     bindE (create_activity_order (new_activity_order no (co_request_id input) userID act')) (\<lambda>ord.
     ret (ord, a_stock act'))))"

definition redis_order_read :: "nat \<Rightarrow> CreateOrderInput \<Rightarrow> unit go" where
  "redis_order_read userID input =
     bindE (count_by orders (\<lambda>r. o_user r = userID \<and> o_activity r = co_activity input)) (\<lambda>count.
     guardE (count = 0) ErrDuplicateOrder)"

definition redis_order_write :: "nat \<Rightarrow> CreateOrderInput \<Rightarrow> activity \<Rightarrow> order go" where
  "redis_order_write userID input act =
     bindE time_now (\<lambda>updateNow.
     bindE (decrement_stock (co_activity input) updateNow) (\<lambda>rows.
     if rows = 0 then
       bindE (attempt (first_by activities (\<lambda>a. a_id a = co_activity input))) (\<lambda>r.
         case r of
           Inr current \<Rightarrow> throw (if a_stock current \<le> 0 then ErrSoldOut else ErrActivityNotAvailable)
         | Inl _ \<Rightarrow> throw ErrActivityNotAvailable)
     else
       bindE newOrderNo (\<lambda>no.
       create_activity_order (new_activity_order no (co_request_id input) userID act))))"

lemma bindE_assoc: "bindE (bindE m f) g = bindE m (\<lambda>x. bindE (f x) g)"
  by (auto simp: bindE_def fun_eq_iff split: prod.splits sum.splits)

lemma bindE_ret: "bindE (ret x) f = f x"
  by (simp add: bindE_def ret_def fun_eq_iff)

lemma db_order_split: "db_order_body u i = bindE (db_order_read u i) (db_order_write u i)"
  unfolding db_order_body_def db_order_read_def db_order_write_def bindE_assoc bindE_ret ..

lemma redis_order_split: "redis_order_body u i act = thenE (redis_order_read u i) (redis_order_write u i act)"
  unfolding redis_order_body_def redis_order_read_def redis_order_write_def bindE_assoc bindE_ret ..

lemma order_reads: "reads_only (db_order_read u i)" "reads_only (redis_order_read u i)"
  unfolding db_order_read_def redis_order_read_def ensureE_def first_by_def count_by_def
  by (auto intro!: same_tables.tracks_bindE same_tables.tracks_on_error same_tables.tracks_stmt
      same_tables.tracks_basic split: option.splits)


section \<open>Orders that overlap\<close>

text \<open>
  A state of the race: the world and the transactions that have read and not yet written, each with what it
  read.  A service with Redis has no use for the stock that it read; the row is the one of any earlier reading.
  Any other call of a service, and any turn of a worker, may run whole in between.  After an update that
  found nothing the code reads the row again; MySQL may show it an older one, which changes the error only.
\<close>

record open_order =
  oo_user :: nat
  oo_input :: CreateOrderInput
  oo_activity :: activity

inductive race_step :: "deployment \<Rightarrow> world \<times> open_order list \<Rightarrow> world \<times> open_order list \<Rightarrow> bool" for d :: deployment where
  r_service: "svc_step d w w' \<Longrightarrow> race_step d (w, ps) (w', ps)"
| r_redis_read: "os_cache (dp_orders d) \<Longrightarrow> 0 < oo_user p \<Longrightarrow> a_id (oo_activity p) = co_activity (oo_input p) \<Longrightarrow>
    thenE begin_tx (redis_order_read (oo_user p) (oo_input p)) w = (Inr (), w') \<Longrightarrow> race_step d (w, ps) (w', ps @ [p])"
| r_redis_write: "os_cache (dp_orders d) \<Longrightarrow> p \<in> set ps \<Longrightarrow>
    finish_tx (redis_order_write (oo_user p) (oo_input p) (oo_activity p)) w = (r, w') \<Longrightarrow>
    race_step d (w, ps) (w', remove1 p ps)"
| r_db_read: "\<not> os_cache (dp_orders d) \<Longrightarrow> 0 < oo_user p \<Longrightarrow>
    thenE begin_tx (db_order_read (oo_user p) (oo_input p)) w = (Inr (oo_activity p), w') \<Longrightarrow>
    race_step d (w, ps) (w', ps @ [p])"
| r_db_write: "\<not> os_cache (dp_orders d) \<Longrightarrow> p \<in> set ps \<Longrightarrow>
    finish_tx (db_order_write (oo_user p) (oo_input p) (oo_activity p)) w = (r', w') \<Longrightarrow>
    race_step d (w, ps) (w', remove1 p ps)"

definition race_reachable :: "deployment \<Rightarrow> world \<times> open_order list \<Rightarrow> bool" where
  "race_reachable d s \<longleftrightarrow> (\<exists>w0. tables w0 = empty_tables \<and> (race_step d)\<^sup>*\<^sup>* (w0, []) s)"

text \<open>The conditional update and the unique key do not need the reading part: whatever the tables are now,
  the writing part takes a unit that is there, for a user who has none yet, or it fails.\<close>

lemma redis_write_places:
  assumes run: "redis_order_write u i act w = (Inr ord, w')" and inv: "ledger_inv (tables w)"
    and id: "a_id act = co_activity i" and u: "0 < u"
  shows "ev (tables w) (tables w')"
proof -
  from run obtain w2 rows no w4 where
    dec: "decrement_stock (co_activity i) (clock (ext w) (tick w)) (w\<lparr>tick := Suc (tick w)\<rparr>) = (Inr rows, w2)"
    and rows: "rows \<noteq> 0"
    and no: "newOrderNo w2 = (Inr no, w4)"
    and create: "create_activity_order (new_activity_order no (co_request_id i) u act) w4 = (Inr ord, w')"
    by (auto simp: redis_order_write_def run_simps split: if_splits)
  let ?now = "clock (ext w) (tick w)"
  from dec rows obtain a where a: "a \<in> set (activities (tables w))" "stock_row_hit (co_activity i) ?now a"
    by (auto simp: decrement_stock_def stmt_ok filter_empty_conv)
  have "distinct (map a_id (activities (tables w)))" using inv by (simp add: ledger_inv_def keys_inv_def)
  from decrement_one [OF this a] dec have
    t2: "tables w2 = (tables w)\<lparr>activities := put_row a_id (a\<lparr>a_stock := a_stock a - 1\<rparr>) (activities (tables w))\<rparr>"
    by (auto simp: decrement_stock_def stmt_ok)
  from a have a': "a_id a = a_id act" "0 < a_stock a" by (auto simp: stock_row_hit_def id)
  note made = create_order_run [OF create_activity_order_run [OF create]] newOrderNo_run [OF no]
  then have ord: "o_activity ord = a_id a" "o_user ord = u" "o_status ord = OrderStatusQueued"
    "o_key ord = NewActivityOrderKey u (a_id a)" by (auto simp: new_activity_order_def a')
  have "0 < a_id a" using inv a(1) by (simp add: ledger_inv_def refs_inv_def)
  with u have key: "NewActivityOrderKey u (a_id a) \<noteq> None" by (simp add: NewActivityOrderKey_None_iff)
  have "o_key ord = None \<or> o_key ord \<notin> o_key ` set (orders (tables w4))" using made by blast
  then have fresh: "o_key ord \<notin> o_key ` set (orders (tables w))" using made t2 key ord(4) by simp
  have "\<forall>r\<in>set (orders (tables w)). \<not> (o_user r = o_user ord \<and> o_activity r = a_id a)"
  proof (intro ballI notI)
    fix r assume r: "r \<in> set (orders (tables w))" "o_user r = o_user ord \<and> o_activity r = a_id a"
    then have "o_key r = NewActivityOrderKey u (a_id a)" using inv ord(2) by (simp add: ledger_inv_def keyed_inv_def)
    with r(1) fresh ord(4) show False by (metis imageI)
  qed
  with made t2 ord key show ?thesis
    by (intro place_event [OF inv a(1) a'(2)]) auto
qed

definition open_ok :: "open_order \<Rightarrow> bool" where
  "open_ok p \<longleftrightarrow> 0 < oo_user p \<and> a_id (oo_activity p) = co_activity (oo_input p)"

lemma race_step_obeys:
  assumes "race_step d s s'" and "os_cache (dp_orders d)" and "list_all open_ok (snd s)"
  shows "obeys (tables (fst s)) (tables (fst s')) \<and> list_all open_ok (snd s')"
  using assms
proof (induction rule: race_step.induct)
  case (r_service w w' ps)
  then show ?case by (simp add: svc_step_obeys)
next
  case (r_redis_read p w w' ps)
  then have "tables w' = tables w"
    by (intro reads_onlyD [OF same_tables.tracks_bindE [OF begin_tx_reads order_reads(2)]]) auto
  with r_redis_read show ?case by (simp add: obeys_same open_ok_def)
next
  case (r_redis_write p ps w r w')
  then have "open_ok p" by (simp add: list_all_iff)
  then have "tracks obeys (finish_tx (redis_order_write (oo_user p) (oo_input p) (oo_activity p)))"
    unfolding open_ok_def by (intro tracks_finish obeys_ev) (blast intro: redis_write_places)
  moreover have "list_all open_ok (remove1 p ps)"
    using r_redis_write.prems by (auto simp: list_all_iff dest: notin_set_remove1 [rotated])
  ultimately show ?case using r_redis_write.hyps by (auto dest: tracksD)
qed simp_all

lemma race_steps_obey:
  "(race_step d)\<^sup>*\<^sup>* s s' \<Longrightarrow> os_cache (dp_orders d) \<Longrightarrow> list_all open_ok (snd s) \<Longrightarrow>
   obeys (tables (fst s)) (tables (fst s')) \<and> list_all open_ok (snd s')"
  by (induction rule: rtranclp_induct) (auto intro: ledger.R_refl ledger.R_trans dest: race_step_obeys)

text \<open>
  C17: with Redis, orders may overlap.  However the transactions that take orders overlap with each other, and
  with every other operation taken whole, the ledger stays consistent: an activity has non-negative stock, its stock plus its
  live orders stays the same, and no user gets two orders of it.  The cached stock plays no part in it, only the
  conditional update and the unique key.
\<close>

theorem overlapping_orders_safe:
  assumes "race_reachable d (w, ps)" and "(race_step d)\<^sup>*\<^sup>* (w, ps) (w', ps')" and "os_cache (dp_orders d)"
    and "act \<in> set (activities (tables w))"
  shows "ledger_inv (tables w') \<and> (\<exists>act'\<in>set (activities (tables w')). a_id act' = a_id act \<and> 0 \<le> a_stock act' \<and>
    a_stock act' + int (length (filter (\<lambda>x. live x \<and> o_activity x = a_id act) (orders (tables w')))) =
    a_stock act + int (length (filter (\<lambda>x. live x \<and> o_activity x = a_id act) (orders (tables w)))))"
proof -
  from assms(1) obtain w0 where w0: "tables w0 = empty_tables" "(race_step d)\<^sup>*\<^sup>* (w0, []) (w, ps)"
    unfolding race_reachable_def by blast
  from race_steps_obey [OF w0(2) assms(3)] have "obeys (tables w0) (tables w)" and ok: "list_all open_ok ps" by simp_all
  then have inv: "ledger_inv (tables w)" using evs_ledger ledger_inv_empty w0(1) unfolding obeys_def by metis
  moreover have "obeys (tables w) (tables w')" using race_steps_obey [OF assms(2,3)] ok by simp
  ultimately have evs: "evs (tables w) (tables w')" by (simp add: obeys_def)
  show ?thesis using evs_ledger [OF evs inv] evs_activity_stock [OF evs inv assms(4)] by blast
qed

subsection \<open>Two orders for the last unit\<close>

text \<open>A shop with one activity that has one unit; the random texts differ from call to call.\<close>

definition last_unit :: "bool \<Rightarrow> world" where
  "last_unit cached = snd (CreateActivity cached \<lparr>ca_product = 1, ca_name = ''a'', ca_price = 7, ca_stock = 1, ca_duration = 60\<rparr>
     (snd (CreateProduct \<lparr>cp_name = ''p'', cp_price = 10, cp_stock = 5\<rparr>
       (fresh_world\<lparr>ext := calm\<lparr>entropy := (\<lambda>k. Some (\<lambda>_. k))\<rparr>\<rparr>))))"

definition last_act :: activity where
  "last_act = \<lparr>a_id = 1, a_product = 1, a_name = ''a'', a_price = 7, a_stock = 1, a_status = ActivityStatusPublished,
     a_start = 100, a_end = 60000000100, a_created = 100, a_updated = 100\<rparr>"

lemmas last_eval = last_unit_def demo_defs run_eval write_eval CreateProduct_def create_product_def CreateActivity_def
  create_activity_def seconds_duration_def go_second_def last_act_def

definition last_tables :: tables where
  "last_tables = empty_tables\<lparr>products := [\<lparr>p_id = 1, p_name = ''p'', p_price = 10, p_stock = 5, p_created = 100, p_updated = 100\<rparr>],
     activities := [last_act]\<rparr>"

lemma last_unit_db: "last_unit False = fresh_world\<lparr>ext := calm\<lparr>entropy := (\<lambda>k. Some (\<lambda>_. k))\<rparr>, tick := 4, tables := last_tables\<rparr>"
  by (simp add: last_eval last_tables_def)

lemma prewarm_shape: "\<exists>r db. cache_Prewarm act w = (r, w\<lparr>tick := Suc (Suc (tick w)), redis := db\<rparr>)"
proof -
  obtain r w' where run: "cache_Prewarm act w = (r, w')" by (cases "cache_Prewarm act w")
  then have "w' = w\<lparr>tick := Suc (Suc (tick w)), redis := redis w'\<rparr>"
    by (cases w, cases w')
      (auto simp: cache_Prewarm_def cache_SetStock_def bindE_def time_now_def redis_call_def Let_def split: prod.splits option.splits if_splits)
  with run show ?thesis by (intro exI [of _ r] exI [of _ "redis w'"]) simp
qed

lemma last_unit_redis: "\<exists>db. last_unit True =
    fresh_world\<lparr>ext := calm\<lparr>entropy := (\<lambda>k. Some (\<lambda>_. k))\<rparr>, tick := 6, tables := last_tables, redis := db\<rparr>"
proof -
  obtain r db where p: "cache_Prewarm act w = (r act w, w\<lparr>tick := Suc (Suc (tick w)), redis := db act w\<rparr>)" for act w
    using prewarm_shape by metis
  show ?thesis by (simp add: last_eval p last_tables_def)
qed

lemma last_unit_fields:
  "ext (last_unit c) = calm\<lparr>entropy := (\<lambda>k. Some (\<lambda>_. k))\<rparr>" "tables (last_unit c) = last_tables"
  "tick (last_unit False) = 4" "tick (last_unit True) = 6"
  using last_unit_redis by (cases c; auto simp: last_unit_db)+

lemma last_tables_fields: "activities last_tables = [last_act]" "orders last_tables = []"
  by (simp_all add: last_tables_def empty_tables_def)

definition last_input :: CreateOrderInput where
  "last_input = \<lparr>co_activity = 1, co_request_id = ''r''\<rparr>"

definition last_order :: "nat \<Rightarrow> open_order" where
  "last_order u = \<lparr>oo_user = u, oo_input = last_input, oo_activity = last_act\<rparr>"

definition with_cache :: "bool \<Rightarrow> deployment" where
  "with_cache c = plain\<lparr>dp_orders := NewOrderService c False\<rparr>"

lemma last_unit_race: "race_reachable (with_cache c) (last_unit c, [])"
proof -
  let ?w = "fresh_world\<lparr>ext := calm\<lparr>entropy := (\<lambda>k. Some (\<lambda>_. k))\<rparr>\<rparr>"
  let ?w1 = "snd (CreateProduct \<lparr>cp_name = ''p'', cp_price = 10, cp_stock = 5\<rparr> ?w)"
  have "svc_step (with_cache c) ?w ?w1"
    by (rule s_product [OF _ prod.collapse [symmetric]]) (simp add: in_i64_def)
  moreover have "os_cache (dp_orders (with_cache c)) = c" by (simp add: with_cache_def NewOrderService_def)
  then have "svc_step (with_cache c) ?w1 (last_unit c)"
    by (intro s_activity [of "\<lparr>ca_product = 1, ca_name = ''a'', ca_price = 7, ca_stock = 1, ca_duration = 60\<rparr>" _ ?w1
      "fst (CreateActivity c \<lparr>ca_product = 1, ca_name = ''a'', ca_price = 7, ca_stock = 1, ca_duration = 60\<rparr> ?w1)"])
      (simp_all add: in_i64_def last_unit_def)
  ultimately have "(race_step (with_cache c))\<^sup>*\<^sup>* (?w, []) (last_unit c, [])"
    by (meson r_service converse_rtranclp_into_rtranclp rtranclp.rtrancl_refl)
  moreover have "tables ?w = empty_tables" by (simp add: fresh_world_def)
  ultimately show ?thesis unfolding race_reachable_def by blast
qed

lemmas part_eval = last_input_def last_act_def last_unit_fields last_tables_fields begin_tx_def finish_tx_def db_order_read_def db_order_write_def
  redis_order_read_def redis_order_write_def decrement_stock_def stock_row_hit_def order_eval run_eval write_eval text_eval calm_def live_def

lemma overlap_db:
  "\<exists>w1 w2 r3 w3 r4 w4.
     thenE begin_tx (db_order_read 1 last_input) (last_unit False) = (Inr last_act, w1) \<and>
     thenE begin_tx (db_order_read 2 last_input) w1 = (Inr last_act, w2) \<and>
     finish_tx (db_order_write 1 last_input last_act) w2 = (r3, w3) \<and>
     finish_tx (db_order_write 2 last_input last_act) w3 = (r4, w4) \<and>
     length (filter (\<lambda>x. live x \<and> o_activity x = 1) (orders (tables w4))) = 2 \<and> map a_stock (activities (tables w4)) = [0]"
  by (simp add: part_eval)

lemma overlap_redis:
  "\<exists>w1 w2 r3 w3 r4 w4.
     thenE begin_tx (redis_order_read 1 last_input) (last_unit True) = (Inr (), w1) \<and>
     thenE begin_tx (redis_order_read 2 last_input) w1 = (Inr (), w2) \<and>
     finish_tx (redis_order_write 1 last_input last_act) w2 = (r3, w3) \<and>
     finish_tx (redis_order_write 2 last_input last_act) w3 = (r4, w4)"
  by (simp add: part_eval)

lemma overlap_steps:
  "(race_step (with_cache c))\<^sup>*\<^sup>* s (w1, [last_order 1, last_order 2]) \<Longrightarrow>
   race_step (with_cache c) (w1, [last_order 1, last_order 2]) (w2, remove1 (last_order 1) [last_order 1, last_order 2]) \<Longrightarrow>
   race_step (with_cache c) (w2, [last_order 2]) (w3, remove1 (last_order 2) [last_order 2]) \<Longrightarrow>
   (race_step (with_cache c))\<^sup>*\<^sup>* s (w3, [])"
  by (auto elim!: rtranclp.rtrancl_into_rtrancl [rotated])

lemma with_cache_path [simp]: "os_cache (dp_orders (with_cache c)) = c"
  by (simp add: with_cache_def NewOrderService_def)

theorem overlapping_orders_safe_witness:
  "\<exists>w ps w'. race_reachable (with_cache True) (w, ps) \<and> length ps = 2 \<and> (race_step (with_cache True))\<^sup>*\<^sup>* (w, ps) (w', []) \<and>
     (\<exists>act'\<in>set (activities (tables w')). 0 \<le> a_stock act' \<and>
       a_stock act' + int (length (filter (\<lambda>x. live x \<and> o_activity x = 1) (orders (tables w')))) = 1)"
proof -
  let ?s = "race_step (with_cache True)" and ?ps = "[last_order 1, last_order 2]"
  obtain w1 w2 r3 w3 r4 w4 where
    reads: "thenE begin_tx (redis_order_read 1 last_input) (last_unit True) = (Inr (), w1)"
      "thenE begin_tx (redis_order_read 2 last_input) w1 = (Inr (), w2)" and
    writes: "finish_tx (redis_order_write 1 last_input last_act) w2 = (r3, w3)"
      "finish_tx (redis_order_write 2 last_input last_act) w3 = (r4, w4)"
    using overlap_redis by (elim exE conjE) (rule that; assumption)
  have "?s (last_unit True, []) (w1, [] @ [last_order 1])" "?s (w1, [last_order 1]) (w2, [last_order 1] @ [last_order 2])"
    by (rule r_redis_read; use reads in \<open>simp add: last_order_def last_act_def last_input_def\<close>)+
  then have run: "?s\<^sup>*\<^sup>* (last_unit True, []) (w2, ?ps)" by auto
  have "?s (w2, ?ps) (w3, remove1 (last_order 1) ?ps)" "?s (w3, [last_order 2]) (w4, remove1 (last_order 2) [last_order 2])"
    by (rule r_redis_write; use writes in \<open>simp add: last_order_def\<close>)+
  from overlap_steps [OF rtranclp.rtrancl_refl this] have fin: "?s\<^sup>*\<^sup>* (w2, ?ps) (w4, [])" .
  have quiet_read: "reads_only (thenE begin_tx (redis_order_read u last_input))" for u
    by (intro same_tables.tracks_bindE begin_tx_reads order_reads)
  have t: "tables w2 = last_tables"
    using reads_onlyD [OF quiet_read reads(1)] reads_onlyD [OF quiet_read reads(2)] by (simp add: last_unit_fields)
  from last_unit_race [of True] run have rr: "race_reachable (with_cache True) (w2, ?ps)"
    unfolding race_reachable_def by (meson rtranclp_trans)
  from overlapping_orders_safe [OF rr fin, of last_act] have "\<exists>act'\<in>set (activities (tables w4)). 0 \<le> a_stock act' \<and>
       a_stock act' + int (length (filter (\<lambda>x. live x \<and> o_activity x = 1) (orders (tables w4)))) = 1"
    by (auto simp: t last_tables_fields last_act_def)
  with rr fin show ?thesis by (intro exI [of _ w2] exI [of _ ?ps] exI [of _ w4]) simp
qed

text \<open>
  C40: without Redis, orders that overlap oversell (with MySQL; the pool of SQLite has one connection).  The transaction reads the row of the activity without a lock
  and later saves the whole row.  In a shop that nobody has ordered in, an activity with one unit is sold twice
  when a second transaction reads before the first one writes: both customers get an order that lives, and the
  stock is zero.
\<close>

theorem overlapping_orders_oversell:
  "db_order_body u i = bindE (db_order_read u i) (db_order_write u i) \<and>
   (\<exists>d w w'. \<not> os_cache (dp_orders d) \<and> race_reachable d (w, []) \<and> (race_step d)\<^sup>*\<^sup>* (w, []) (w', []) \<and>
     map a_id (activities (tables w)) = [1] \<and> map a_stock (activities (tables w)) = [1] \<and> orders (tables w) = [] \<and>
     map a_stock (activities (tables w')) = [0] \<and>
     length (filter (\<lambda>x. live x \<and> o_activity x = 1) (orders (tables w'))) = 2)"
proof -
  let ?s = "race_step (with_cache False)"
  obtain w1 w2 r3 w3 r4 w4 where
    reads: "thenE begin_tx (db_order_read 1 last_input) (last_unit False) = (Inr last_act, w1)"
      "thenE begin_tx (db_order_read 2 last_input) w1 = (Inr last_act, w2)" and
    writes: "finish_tx (db_order_write 1 last_input last_act) w2 = (r3, w3)"
      "finish_tx (db_order_write 2 last_input last_act) w3 = (r4, w4)" and
    sold: "length (filter (\<lambda>x. live x \<and> o_activity x = 1) (orders (tables w4))) = 2" "map a_stock (activities (tables w4)) = [0]"
    using overlap_db by (elim exE conjE) (rule that; assumption)
  have "?s (last_unit False, []) (w1, [] @ [last_order 1])" "?s (w1, [last_order 1]) (w2, [last_order 1] @ [last_order 2])"
    by (rule r_db_read; use reads in \<open>simp add: last_order_def\<close>)+
  then have "?s\<^sup>*\<^sup>* (last_unit False, []) (w2, [last_order 1, last_order 2])" by auto
  moreover have "?s (w2, [last_order 1, last_order 2]) (w3, remove1 (last_order 1) [last_order 1, last_order 2])"
    "?s (w3, [last_order 2]) (w4, remove1 (last_order 2) [last_order 2])"
    by (rule r_db_write; use writes in \<open>simp add: last_order_def\<close>)+
  ultimately have "?s\<^sup>*\<^sup>* (last_unit False, []) (w4, [])" by (rule overlap_steps)
  moreover have "map a_id (activities (tables (last_unit False))) = [1]" "map a_stock (activities (tables (last_unit False))) = [1]"
    "orders (tables (last_unit False)) = []" by (simp_all add: last_unit_fields last_tables_fields last_act_def)
  ultimately show ?thesis using sold last_unit_race [of False]
    by (intro conjI db_order_split exI [of _ "with_cache False"] exI [of _ "last_unit False"] exI [of _ w4]) simp_all
qed

section \<open>Changing the status of an activity while an order comes in\<close>

text \<open>The two statements of \<open>UpdateActivityStatus\<close>.\<close>

definition status_read :: "nat \<Rightarrow> activity go" where
  "status_read activityID =
     on_error (first_by activities (\<lambda>a. a_id a = activityID)) (\<lambda>_. throw (ErrText ''activity not found''))"

definition status_write :: "string \<Rightarrow> activity \<Rightarrow> activity go" where
  "status_write status act = save_activity (act\<lparr>a_status := status\<rparr>)"

lemma status_update_split:
  "IsValidActivityStatus status \<Longrightarrow> UpdateActivityStatus a status = bindE (status_read a) (status_write status)"
  by (simp add: UpdateActivityStatus_def status_read_def status_write_def [abs_def])

text \<open>
  A status update can lose a sale.  There is a consistent shop in which an administrator's status
  update reads the activity, a customer's order takes the last unit, and the write of the update then puts the
  unit back: stock plus live orders of the activity has grown by one, so the activity is oversold.
\<close>

theorem status_update_loses_sale:
  "UpdateActivityStatus 1 ActivityStatusPublished = bindE (status_read 1) (status_write ActivityStatusPublished) \<and>
   (\<exists>w act w1 ord left w2 r w3. ledger_inv (tables w) \<and>
     status_read 1 w = (Inr act, w1) \<and>
     CreateOrderContext (dp_orders plain) None 7 \<lparr>co_activity = 1, co_request_id = ''r''\<rparr> w1 = (Inr (ord, left), w2) \<and>
     status_write ActivityStatusPublished act w2 = (Inr r, w3) \<and>
     activity_level (tables w2) 1 = activity_level (tables w) 1 \<and> activity_level (tables w3) 1 = activity_level (tables w) 1 + 1)"
proof -
  let ?i = "\<lparr>co_activity = 1, co_request_id = ''r''\<rparr>"
  have inv: "ledger_inv (tables demo)" by (simp add: demo_ledger)
  have rd: "status_read 1 demo = (Inr demo_activity, demo\<lparr>tick := 1\<rparr>)"
    by (simp add: status_read_def demo_defs run_eval)
  have "\<exists>ord left w2. CreateOrderContext (dp_orders plain) None 7 ?i (demo\<lparr>tick := 1\<rparr>) = (Inr (ord, left), w2) \<and>
      (\<exists>r w3. status_write ActivityStatusPublished demo_activity w2 = (Inr r, w3) \<and>
        activity_level (tables w2) 1 = activity_level (tables demo) 1 \<and> activity_level (tables w3) 1 = activity_level (tables demo) 1 + 1)"
    by (simp add: status_write_def demo_defs run_eval write_eval text_eval order_eval activity_level_def live_def)
  then have "\<exists>w act w1 ord left w2 r w3. ledger_inv (tables w) \<and>
     status_read 1 w = (Inr act, w1) \<and> CreateOrderContext (dp_orders plain) None 7 ?i w1 = (Inr (ord, left), w2) \<and>
     status_write ActivityStatusPublished act w2 = (Inr r, w3) \<and>
     activity_level (tables w2) 1 = activity_level (tables w) 1 \<and> activity_level (tables w3) 1 = activity_level (tables w) 1 + 1"
    using inv rd by blast
  moreover have "IsValidActivityStatus ActivityStatusPublished" by (simp add: IsValidActivityStatus_def)
  ultimately show ?thesis using status_update_split by blast
qed

section \<open>A payment and a cancellation of the same order\<close>

text \<open>
  The transaction of a payment up to its first write, for a callback that pays a waiting order; \<open>None\<close>:
  the callback is a repetition or no success.  The reads take no lock, and the write saves the whole row.
\<close>

definition payment_open :: "PaymentCallbackInput \<Rightarrow> order option go" where
  "payment_open input =
     bindE (attempt (first_by payments (\<lambda>p. pm_transaction p = pi_transaction input))) (\<lambda>r.
       case r of
         Inr _ \<Rightarrow> ret None
       | Inl _ \<Rightarrow>
           bindE (on_error (first_by orders (\<lambda>x. o_order_no x = pi_order_no input))
                    (\<lambda>_. throw ErrOrderNotFound)) (\<lambda>ord.
           if pi_status input \<noteq> ''SUCCESS'' then ret None
           else thenE (guardE (o_status ord = OrderStatusWaitPay) ErrIllegalTransition) (ret (Some ord))))"

definition payment_write :: "PaymentCallbackInput \<Rightarrow> order \<Rightarrow> PaymentResult go" where
  "payment_write input ord =
     bindE (save_order (ord\<lparr>o_status := OrderStatusPaid\<rparr>)) (\<lambda>ord'.
     thenE (create_payment (new_payment input))
       (ret \<lparr>pr_order_no = o_order_no ord', pr_transaction = pi_transaction input,
             pr_order_status = o_status ord', pr_already = False,
             pr_message = ''payment success, order status changed to PAID''\<rparr>))"

lemma payment_split: "payment_open i w = (Inr (Some ord), w1) \<Longrightarrow> payment_body i w = payment_write i ord w1"
proof -
  assume o: "payment_open i w = (Inr (Some ord), w1)"
  define known where "known = attempt (first_by payments (\<lambda>p. pm_transaction p = pi_transaction i))"
  define found where "found = on_error (first_by orders (\<lambda>x. o_order_no x = pi_order_no i)) (\<lambda>_. throw ErrOrderNotFound)"
  obtain r w2 where f: "known w = (Inr r, w2)"
    by (cases "first_by payments (\<lambda>p. pm_transaction p = pi_transaction i) w") (auto simp: known_def attempt_def)
  note run = o [unfolded payment_open_def, folded known_def found_def]
  obtain e where r: "r = Inl e" using run f by (cases r) (auto simp: bindE_def ret_def)
  obtain x w3 where g: "found w2 = (x, w3)" by fastforce
  from run f r g have "x = Inr ord \<and> w3 = w1 \<and> pi_status i = ''SUCCESS'' \<and> o_status ord = OrderStatusWaitPay"
    by (cases x) (auto simp: bindE_def guardE_def ret_def throw_def split: if_splits)
  with f r g show ?thesis
    unfolding payment_body_def payment_write_def known_def [symmetric] found_def [symmetric] by (simp add: bindE_def guardE_def ret_def)
qed

text \<open>
  A payment can bring a cancelled order back.  The customer's cancellation runs between the reads and the writes of
  the payment: the cancellation is confirmed and the unit is back in stock, and then the order is paid for.
\<close>

theorem payment_revives_cancelled:
  "\<exists>i w ord w1 r w2 x w3. ledger_inv (tables w) \<and> payment_open i w = (Inr (Some ord), w1) \<and>
     CancelOrder (dp_orders plain) (o_user ord) (o_order_no ord) w1 = (Inr r, w2) \<and> cr_status r = OrderStatusCancelled \<and>
     finish_tx (payment_write i ord) w2 = (Inr x, w3) \<and> pr_order_status x = OrderStatusPaid \<and>
     activity_level (tables w3) (o_activity ord) = activity_level (tables w) (o_activity ord) + 1"
proof -
  let ?i = "\<lparr>pi_order_no = ''A2'', pi_transaction = ''T1'', pi_status = ''SUCCESS''\<rparr>"
  let ?ord = "demo_order 2 ''A2'' 2 1 OrderStatusWaitPay"
  have o: "payment_open ?i demo = (Inr (Some ?ord), demo\<lparr>tick := 2\<rparr>)"
    by (simp add: payment_open_def demo_defs run_eval)
  have "\<exists>r w2 x w3. CancelOrder (dp_orders plain) 2 ''A2'' (demo\<lparr>tick := 2\<rparr>) = (Inr r, w2) \<and>
      cr_status r = OrderStatusCancelled \<and> finish_tx (payment_write ?i ?ord) w2 = (Inr x, w3) \<and>
      pr_order_status x = OrderStatusPaid \<and> activity_level (tables w3) 1 = activity_level (tables demo) 1 + 1"
    by (simp add: CancelOrder_def cancel_body_def cancellable_def restoreStock_def payment_write_def finish_tx_def begin_tx_def
        new_payment_def demo_defs run_eval write_eval text_eval activity_level_def live_def)
  moreover have "ledger_inv (tables demo)" by (simp add: demo_ledger)
  moreover have "o_user ?ord = 2" "o_order_no ?ord = ''A2''" "o_activity ?ord = 1" by (simp_all add: demo_order_def)
  ultimately show ?thesis using o by metis
qed

end
