(* ===== verification/Float64.thy ===== *)
theory Float64
  imports Complex_Main "HOL-Library.Log_Nat" Prelude
begin

text \<open>
  Go's \<open>float64\<close> as far as the service computes with it: a finite number, an infinity or a NaN.
  Every operation is the exact result rounded to the nearest number of 53 binary digits (ties to
  even), with gradual underflow below \<open>2^-1022\<close> and overflow to an infinity from \<open>2^1024\<close> on.
  The two zeros are not told apart: no code of the repository can see the difference.
\<close>

section \<open>Rounding\<close>

definition round_even :: "rat \<Rightarrow> int" where
  "round_even y =
     (let f = \<lfloor>y\<rfloor>; d = y - of_int f in
      if d < 1 / 2 then f else if 1 / 2 < d then f + 1 else if even f then f else f + 1)"

text \<open>The binary exponent of a positive rational, from the bit lengths of its fraction.\<close>

definition floor_log2 :: "rat \<Rightarrow> int" where
  "floor_log2 x =
     (let (a, b) = quotient_of x; k = bitlen a - bitlen b in if 2 powi k \<le> x then k else k - 1)"

definition ulp_exp :: "rat \<Rightarrow> int" where
  "ulp_exp x = max (floor_log2 \<bar>x\<bar> - 52) (- 1074)"

definition round53 :: "rat \<Rightarrow> rat" where
  "round53 x = (if x = 0 then 0 else of_int (round_even (x / 2 powi ulp_exp x)) * 2 powi ulp_exp x)"

subsection \<open>Rounding to an integer\<close>

lemma round_even_bounds: "of_int (round_even y) \<le> y + 1 / 2" "y - 1 / 2 \<le> of_int (round_even y)"
  by (simp_all add: round_even_def Let_def) linarith+

lemma round_even_of_int [simp]: "round_even (of_int n) = n"
  by (simp add: round_even_def)

lemma round_even_mono: "x \<le> y \<Longrightarrow> round_even x \<le> round_even y"
proof -
  assume le: "x \<le> y"
  then have f: "\<lfloor>x\<rfloor> \<le> \<lfloor>y\<rfloor>" by (rule floor_mono)
  have r: "\<lfloor>z\<rfloor> \<le> round_even z" "round_even z \<le> \<lfloor>z\<rfloor> + 1" for z
    by (simp_all add: round_even_def Let_def)
  show ?thesis
  proof (cases "\<lfloor>x\<rfloor> = \<lfloor>y\<rfloor>")
    case True
    with le show ?thesis by (auto simp: round_even_def Let_def)
  next
    case False
    with f have "\<lfloor>x\<rfloor> + 1 \<le> \<lfloor>y\<rfloor>" by simp
    with r(2) [of x] r(1) [of y] show ?thesis by linarith
  qed
qed

lemma round_even_minus: "round_even (- y) = - round_even y"
proof (cases "y \<in> \<int>")
  case True
  then obtain n where "y = of_int n" by (auto elim: Ints_cases)
  then show ?thesis using round_even_of_int [of "- n"] by simp
next
  case False
  then have "of_int \<lfloor>y\<rfloor> \<noteq> y" by (metis Ints_of_int)
  then have "\<lfloor>- y\<rfloor> = - \<lfloor>y\<rfloor> - 1"
    using ceiling_altdef [of y] by (auto simp: ceiling_def split: if_splits)
  then show ?thesis by (auto simp: round_even_def Let_def)
qed

subsection \<open>The exponent\<close>

lemma floor_log2_bounds:
  assumes "0 < x"
  shows "2 powi floor_log2 x \<le> x" "x < 2 powi (floor_log2 x + 1)"
proof -
  obtain a b where q: "quotient_of x = (a, b)" by (cases "quotient_of x")
  have b: "0 < b" using q by (rule quotient_of_denom_pos)
  have x: "x = of_int a / of_int b" using q by (rule quotient_of_div)
  have a: "0 < a" using assms b x by (simp add: zero_less_divide_iff)
  let ?k = "bitlen a - bitlen b"
  have p: "(2::rat) powi bitlen n / 2 \<le> of_int n" "of_int n < (2::rat) powi bitlen n" if n: "0 < n" for n
  proof -
    have "0 < bitlen n" using n bitlen_nonneg [of n] bitlen_eq_zero_iff [of n] by linarith
    then obtain m where m: "bitlen n = 1 + int m" by (metis zless_iff_Suc_zadd add.commute add_0 of_nat_Suc)
    then have e: "nat (bitlen n - 1) = m" "nat (bitlen n) = Suc m" by simp_all
    from bitlen_bounds [OF n] have "(2::int) ^ m \<le> n" "n < 2 ^ Suc m" unfolding e by blast+
    then have i: "(of_int (2 ^ m) :: rat) \<le> of_int n" "(of_int n :: rat) < of_int (2 ^ Suc m)"
      unfolding of_int_le_iff of_int_less_iff by blast+
    have p2: "(2::rat) powi bitlen n = 2 * 2 ^ m" by (simp add: m power_int_add)
    show "(2::rat) powi bitlen n / 2 \<le> of_int n" using i(1) by (simp add: p2)
    show "of_int n < (2::rat) powi bitlen n" using i(2) by (simp add: p2)
  qed
  have k: "(2::rat) powi ?k = 2 powi bitlen a / 2 powi bitlen b" by (simp add: power_int_diff)
  have pos: "0 < (2::rat) powi bitlen b" "0 < (of_int b :: rat)" using b by simp_all
  have "x < 2 powi bitlen a / of_int b"
    unfolding x using p(2) [OF a] pos by (simp add: divide_strict_right_mono)
  also have "\<dots> \<le> 2 powi bitlen a / (2 powi bitlen b / 2)"
    using p(1) [OF b] pos by (intro divide_left_mono) simp_all
  also have "\<dots> = 2 powi (?k + 1)" by (simp add: k power_int_add)
  finally have up: "x < 2 powi (?k + 1)" .
  have "(2::rat) powi (?k - 1) = 2 powi bitlen a / 2 / 2 powi bitlen b" by (simp add: power_int_diff)
  also have "\<dots> \<le> of_int a / 2 powi bitlen b" using p(1) [OF a] pos by (intro divide_right_mono) simp_all
  also have "\<dots> \<le> x" unfolding x using p(2) [OF b] pos a by (intro divide_left_mono) simp_all
  finally have lo: "2 powi (?k - 1) \<le> x" .
  show "2 powi floor_log2 x \<le> x" using lo by (simp add: floor_log2_def q Let_def)
  show "x < 2 powi (floor_log2 x + 1)" using up by (simp add: floor_log2_def q Let_def)
qed

lemma powi_less_iff: "(2::rat) powi m < 2 powi n \<longleftrightarrow> m < n"
  by (metis linorder_not_less one_less_numeral_iff power_int_increasing power_int_strict_increasing semiring_norm(76) less_imp_le)

lemma floor_log2_unique:
  assumes "2 powi e \<le> x" "x < 2 powi (e + 1)"
  shows "floor_log2 x = e"
proof -
  have "(0::rat) < 2 powi e" by simp
  with assms(1) have "0 < x" by linarith
  note b = floor_log2_bounds [OF this]
  from assms b have "(2::rat) powi e < 2 powi (floor_log2 x + 1)" "(2::rat) powi floor_log2 x < 2 powi (e + 1)"
    by linarith+
  then show ?thesis by (simp add: powi_less_iff)
qed


lemma powi_le_iff: "(2::rat) powi m \<le> 2 powi n \<longleftrightarrow> m \<le> n"
  using powi_less_iff [of n m] by (simp add: not_less [symmetric])

lemma floor_log2_mono: "0 < x \<Longrightarrow> x \<le> y \<Longrightarrow> floor_log2 x \<le> floor_log2 y"
proof -
  assume "0 < x" "x \<le> y"
  with floor_log2_bounds [of x] floor_log2_bounds [of y]
  have "(2::rat) powi floor_log2 x < 2 powi (floor_log2 y + 1)" by linarith
  then show ?thesis by (simp add: powi_less_iff)
qed

subsection \<open>The rounding\<close>

text \<open>A power of two that is a multiple of the unit is a bound that rounding does not cross.\<close>

lemma powi_multiple: "u \<le> e \<Longrightarrow> (2::rat) powi e / 2 powi u = of_int (2 ^ nat (e - u))"
proof -
  assume "u \<le> e"
  then have "(2::rat) powi (e - u) = of_int (2 ^ nat (e - u))" by (simp add: power_int_def)
  then show ?thesis by (simp add: power_int_diff)
qed

lemma round_below:
  assumes "x \<le> of_int n * 2 powi u"
  shows "of_int (round_even (x / 2 powi u)) * 2 powi u \<le> of_int n * (2::rat) powi u"
proof -
  have "x / 2 powi u \<le> of_int n" using assms by (simp add: divide_le_eq)
  then have "round_even (x / 2 powi u) \<le> n" using round_even_mono [of _ "of_int n"] by simp
  then show ?thesis by simp
qed

lemma round_above:
  assumes "of_int n * 2 powi u \<le> x"
  shows "of_int n * (2::rat) powi u \<le> of_int (round_even (x / 2 powi u)) * 2 powi u"
proof -
  have "of_int n \<le> x / 2 powi u" using assms by (simp add: le_divide_eq)
  then have "n \<le> round_even (x / 2 powi u)" using round_even_mono [of "of_int n"] by simp
  then show ?thesis by simp
qed

lemma round53_minus: "round53 (- x) = - round53 x"
  by (simp add: round53_def ulp_exp_def round_even_minus)

lemma round53_nonneg: "0 \<le> x \<Longrightarrow> 0 \<le> round53 x"
  using round_above [of 0 "ulp_exp x" x] by (simp add: round53_def)

lemma round53_mono_pos:
  assumes "0 < x" "x \<le> y"
  shows "round53 x \<le> round53 y"
proof -
  have le: "ulp_exp x \<le> ulp_exp y" using floor_log2_mono [OF assms] assms by (simp add: ulp_exp_def)
  show ?thesis
  proof (cases "ulp_exp x = ulp_exp y")
    case True
    have "x / 2 powi ulp_exp x \<le> y / 2 powi ulp_exp x" using assms(2) by (simp add: divide_right_mono)
    with True assms show ?thesis by (simp add: round53_def round_even_mono)
  next
    case False
    let ?e = "floor_log2 y"
    have uy: "ulp_exp y = ?e - 52" using False le assms by (simp add: ulp_exp_def max_def split: if_splits)
    have ux: "ulp_exp x \<le> ?e" and ee: "floor_log2 x + 1 \<le> ?e"
      using False le assms by (simp_all add: ulp_exp_def max_def split: if_splits)
    have "x \<le> 2 powi (floor_log2 x + 1)" using floor_log2_bounds(2) [OF assms(1)] by simp
    also have "\<dots> \<le> 2 powi ?e" using ee by (simp add: powi_le_iff)
    also have "\<dots> = of_int (2 ^ nat (?e - ulp_exp x)) * 2 powi ulp_exp x"
      using powi_multiple [OF ux] by (simp add: divide_eq_eq)
    finally have "round53 x \<le> of_int (2 ^ nat (?e - ulp_exp x)) * 2 powi ulp_exp x"
      using round_below assms by (simp add: round53_def)
    also have "\<dots> = 2 powi ?e" using powi_multiple [OF ux] by (simp add: divide_eq_eq)
    also have "\<dots> = of_int (2 ^ nat (?e - ulp_exp y)) * 2 powi ulp_exp y"
      using powi_multiple [of "ulp_exp y" ?e] uy by (simp add: divide_eq_eq)
    also have "\<dots> \<le> round53 y"
    proof -
      have "of_int (2 ^ nat (?e - ulp_exp y)) * 2 powi ulp_exp y \<le> y"
        using powi_multiple [of "ulp_exp y" ?e] uy floor_log2_bounds(1) [of y] assms by (simp add: divide_eq_eq)
      from round_above [OF this] show ?thesis using assms by (simp add: round53_def)
    qed
    finally show ?thesis .
  qed
qed

lemma round53_mono: "x \<le> y \<Longrightarrow> round53 x \<le> round53 y"
proof -
  assume le: "x \<le> y"
  consider "0 < x" | "x \<le> 0" "0 \<le> y" | "y < 0" by linarith
  then show ?thesis
  proof cases
    case 1
    with le show ?thesis by (rule round53_mono_pos [rotated -1])
  next
    case 2
    then have "0 \<le> round53 y" "0 \<le> round53 (- x)" by (simp_all add: round53_nonneg)
    then show ?thesis by (simp add: round53_minus)
  next
    case 3
    with le have "round53 (- y) \<le> round53 (- x)" by (intro round53_mono_pos) simp_all
    then show ?thesis by (simp add: round53_minus)
  qed
qed

text \<open>A number on its own grid is not rounded; integers up to \<open>2^53\<close> are on it.\<close>

lemma round53_grid: "x = of_int n * 2 powi ulp_exp x \<Longrightarrow> round53 x = x"
  by (simp add: round53_def) (metis nonzero_mult_div_cancel_right power_int_not_zero round_even_of_int zero_neq_numeral)

lemma round53_on_grid: "x \<noteq> 0 \<Longrightarrow> round53 x = x \<Longrightarrow> x = of_int (round_even (x / 2 powi ulp_exp x)) * 2 powi ulp_exp x"
  by (simp add: round53_def)

lemma round53_multiple:
  assumes "x = of_int n * 2 powi u" "ulp_exp x \<le> u"
  shows "round53 x = x"
proof -
  have "(2::rat) powi u = of_int (2 ^ nat (u - ulp_exp x)) * 2 powi ulp_exp x"
    using powi_multiple [OF assms(2)] by (simp add: divide_eq_eq)
  with assms(1) have "x = of_int (n * 2 ^ nat (u - ulp_exp x)) * 2 powi ulp_exp x" by simp
  then show ?thesis by (rule round53_grid)
qed

lemma ulp_exp_le:
  assumes "0 < \<bar>x\<bar>" "\<bar>x\<bar> < 2 powi (u + 53)" "- 1074 \<le> u"
  shows "ulp_exp x \<le> u"
proof -
  from floor_log2_bounds(1) [OF assms(1)] assms(2) have "(2::rat) powi floor_log2 \<bar>x\<bar> < 2 powi (u + 53)" by linarith
  then show ?thesis using assms(3) by (simp add: ulp_exp_def powi_less_iff)
qed

lemma round53_int:
  assumes "\<bar>n\<bar> \<le> 2 ^ 53"
  shows "round53 (of_int n) = of_int n"
proof (cases "\<bar>n\<bar> = 2 ^ 53 \<or> n = 0")
  case True
  then consider "n = 2 ^ 53" | "n = - (2 ^ 53)" | "n = 0" by linarith
  then show ?thesis
  proof cases
    case 1
    have f: "floor_log2 9007199254740992 = 53" by (rule floor_log2_unique) simp_all
    have "round53 ((2::rat) ^ 53) = 2 ^ 53"
      by (rule round53_multiple [where n = "2 ^ 52" and u = 1]) (simp_all add: ulp_exp_def f)
    with 1 show ?thesis by simp
  next
    case 2
    have f: "floor_log2 9007199254740992 = 53" by (rule floor_log2_unique) simp_all
    have "round53 (- ((2::rat) ^ 53)) = - (2 ^ 53)"
      unfolding round53_minus by (subst round53_multiple [where n = "2 ^ 52" and u = 1]) (simp_all add: ulp_exp_def f)
    with 2 show ?thesis by simp
  qed (simp add: round53_def)
next
  case False
  with assms have "n \<noteq> 0" "\<bar>n\<bar> < 2 ^ 53" by simp_all
  then have "\<bar>of_int n :: rat\<bar> < of_int (2 ^ 53)" unfolding of_int_abs [symmetric] of_int_less_iff by simp
  with \<open>n \<noteq> 0\<close> have "ulp_exp (of_int n) \<le> 0" by (intro ulp_exp_le) simp_all
  then show ?thesis by (intro round53_multiple [where n = n and u = 0]) simp_all
qed

text \<open>Taking one from a stored number of at least one is exact.\<close>

lemma round53_pred:
  assumes rep: "round53 t = t" and "1 \<le> t" and "t < 2 ^ 53"
  shows "round53 (t - 1) = t - 1"
proof (cases "t = 1")
  case True
  then show ?thesis by (simp add: round53_def)
next
  case False
  let ?u = "ulp_exp t"
  have t0: "t \<noteq> 0" using assms(2) by auto
  have fl: "floor_log2 t \<le> 52"
  proof -
    have "(2::rat) powi floor_log2 t < 2 powi 53" using floor_log2_bounds(1) [of t] assms(2,3) by simp
    then have "floor_log2 t < 53" by (simp only: powi_less_iff)
    then show ?thesis by simp
  qed
  have u: "?u \<le> 0" "- 1074 \<le> ?u" using fl assms(2) by (simp_all add: ulp_exp_def)
  have one: "(1::rat) = of_int (2 ^ nat (- ?u)) * 2 powi ?u"
    using powi_multiple [OF u(1)] by (simp add: divide_eq_eq)
  have "t - 1 = of_int (round_even (t / 2 powi ?u) - 2 ^ nat (- ?u)) * 2 powi ?u"
    using round53_on_grid [OF t0 rep] one by (simp add: left_diff_distrib)
  moreover have "ulp_exp (t - 1) \<le> ?u"
    using floor_log2_mono [of "t - 1" t] assms(2) False by (simp add: ulp_exp_def)
  ultimately show ?thesis by (rule round53_multiple)
qed

lemma round_even_close: "\<bar>of_int (round_even y) - y\<bar> \<le> 1 / 2"
  using round_even_bounds [of y] by linarith


section \<open>Numbers and operations\<close>

datatype f64 = NaN | Inf bool | Fin rat

definition f_round :: "rat \<Rightarrow> f64" where
  "f_round x =
     (let r = round53 x in
      if 2 ^ 1024 \<le> r then Inf True else if r \<le> - (2 ^ 1024) then Inf False else Fin r)"

definition f_of_int :: "int \<Rightarrow> f64" where
  "f_of_int n = f_round (of_int n)"

definition f_signed_inf :: "bool \<Rightarrow> rat \<Rightarrow> f64" where
  "f_signed_inf up x = (if x = 0 then NaN else Inf (up = (0 < x)))"

fun f_neg :: "f64 \<Rightarrow> f64" where
  "f_neg NaN = NaN"
| "f_neg (Inf b) = Inf (\<not> b)"
| "f_neg (Fin x) = Fin (- x)"

fun f_add :: "f64 \<Rightarrow> f64 \<Rightarrow> f64" where
  "f_add (Fin x) (Fin y) = f_round (x + y)"
| "f_add NaN _ = NaN"
| "f_add _ NaN = NaN"
| "f_add (Inf b) (Inf c) = (if b = c then Inf b else NaN)"
| "f_add (Inf b) (Fin _) = Inf b"
| "f_add (Fin _) (Inf c) = Inf c"

definition f_sub :: "f64 \<Rightarrow> f64 \<Rightarrow> f64" where
  "f_sub a b = f_add a (f_neg b)"

fun f_mul :: "f64 \<Rightarrow> f64 \<Rightarrow> f64" where
  "f_mul (Fin x) (Fin y) = f_round (x * y)"
| "f_mul NaN _ = NaN"
| "f_mul _ NaN = NaN"
| "f_mul (Inf b) (Inf c) = Inf (b = c)"
| "f_mul (Inf b) (Fin y) = f_signed_inf b y"
| "f_mul (Fin x) (Inf c) = f_signed_inf c x"

text \<open>Division, used with divisors that are not zero only.\<close>

fun f_div :: "f64 \<Rightarrow> f64 \<Rightarrow> f64" where
  "f_div (Fin x) (Fin y) = (if y = 0 then f_signed_inf True x else f_round (x / y))"
| "f_div NaN _ = NaN"
| "f_div _ NaN = NaN"
| "f_div (Inf _) (Inf _) = NaN"
| "f_div (Inf b) (Fin y) = Inf (b = (0 \<le> y))"
| "f_div (Fin _) (Inf _) = Fin 0"

text \<open>Comparisons: a NaN is not in any order with any number, so \<open>\<le>\<close> is not the negation of \<open>>\<close>.\<close>

instantiation f64 :: ord
begin

fun less_f64 :: "f64 \<Rightarrow> f64 \<Rightarrow> bool" where
  "less_f64 (Fin x) (Fin y) \<longleftrightarrow> x < y"
| "less_f64 NaN _ \<longleftrightarrow> False"
| "less_f64 _ NaN \<longleftrightarrow> False"
| "less_f64 (Inf b) (Inf c) \<longleftrightarrow> \<not> b \<and> c"
| "less_f64 (Inf b) (Fin _) \<longleftrightarrow> \<not> b"
| "less_f64 (Fin _) (Inf c) \<longleftrightarrow> c"

definition less_eq_f64 :: "f64 \<Rightarrow> f64 \<Rightarrow> bool" where
  "less_eq_f64 a b \<longleftrightarrow> a < b \<or> (a = b \<and> a \<noteq> NaN)"

instance ..

end

text \<open>
  The conversion \<open>int(f)\<close> truncates; what it gives for a NaN or out of range is left to the
  machine, the argument \<open>wild\<close>.
\<close>

definition f_to_int :: "(f64 \<Rightarrow> int) \<Rightarrow> f64 \<Rightarrow> int" where
  "f_to_int wild a =
     (case a of
        Fin x \<Rightarrow> (let n = (if x < 0 then \<lceil>x\<rceil> else \<lfloor>x\<rfloor>) in if in_i64 n then n else wild a)
      | _ \<Rightarrow> wild a)"

text \<open>\<open>math.Ceil\<close>, exact on every number.\<close>

definition f_ceil :: "f64 \<Rightarrow> f64" where
  "f_ceil a = (case a of Fin x \<Rightarrow> Fin (of_int \<lceil>x\<rceil>) | _ \<Rightarrow> a)"

text \<open>\<open>Duration.Seconds()\<close>: whole seconds plus the fraction, both quotients truncated.\<close>

definition f_seconds :: "duration \<Rightarrow> f64" where
  "f_seconds d =
     (let s = sgn d * (\<bar>d\<bar> div go_second); n = sgn d * (\<bar>d\<bar> mod go_second) in
      f_add (f_of_int s) (f_div (f_of_int n) (f_of_int go_second)))"

subsection \<open>Order and exact results\<close>

lemma f_NaN [simp]: "f_mul a NaN = NaN" "f_add a NaN = NaN" "\<not> a < NaN" "\<not> NaN < a"
  by (cases a; simp)+

lemma f_le_Fin [simp]: "Fin x \<le> Fin y \<longleftrightarrow> x \<le> y"
  by (auto simp: less_eq_f64_def)

lemma f_le_NaN [simp]: "\<not> NaN \<le> a" "\<not> a \<le> NaN"
  by (cases a; simp add: less_eq_f64_def)+

lemma f_le_Inf [simp]: "Inf b \<le> Fin x \<longleftrightarrow> \<not> b" "Fin x \<le> Inf b \<longleftrightarrow> b" "Inf b \<le> Inf c \<longleftrightarrow> (b \<longrightarrow> c)"
  by (auto simp: less_eq_f64_def)

lemma f_le_trans: "a \<le> b \<Longrightarrow> b \<le> (c :: f64) \<Longrightarrow> a \<le> c"
  by (cases a; cases b; cases c) auto

lemma f_round_mono: "x \<le> y \<Longrightarrow> f_round x \<le> f_round y"
  using round53_mono [of x y] by (auto simp: f_round_def Let_def)

lemma f_round_exact: "round53 x = x \<Longrightarrow> \<bar>x\<bar> < 2 ^ 1024 \<Longrightarrow> f_round x = Fin x"
  by (auto simp: f_round_def Let_def)

lemma f_of_int_exact: "\<bar>n\<bar> \<le> 2 ^ 53 \<Longrightarrow> f_of_int n = Fin (of_int n)"
proof -
  assume n: "\<bar>n\<bar> \<le> 2 ^ 53"
  then have "\<bar>of_int n :: rat\<bar> \<le> of_int (2 ^ 53)" unfolding of_int_abs [symmetric] of_int_le_iff .
  also have "\<dots> < (2::rat) ^ 1024" by simp
  finally show ?thesis unfolding f_of_int_def using round53_int [OF n] by (rule f_round_exact [rotated])
qed

lemma f_round_nonneg: "0 \<le> x \<Longrightarrow> Fin 0 \<le> f_round x"
  using round53_nonneg [of x] by (auto simp: f_round_def Let_def)

lemma f_round_not_NaN [simp]: "f_round x \<noteq> NaN"
  by (simp add: f_round_def Let_def)

lemma round53_idem [simp]: "round53 (round53 x) = round53 x"
proof (cases "x = 0")
  case False
  let ?n = "round_even (x / 2 powi ulp_exp x)" and ?u = "ulp_exp x"
  have r: "round53 x = of_int ?n * 2 powi ?u" using False by (simp add: round53_def)
  show ?thesis
  proof (cases "\<bar>?n\<bar> < 2 ^ 53")
    case True
    show ?thesis
    proof (cases "?n = 0")
      case F: False
      have "\<bar>of_int ?n :: rat\<bar> < of_int (2 ^ 53)" using True unfolding of_int_abs [symmetric] of_int_less_iff .
      then have "\<bar>round53 x\<bar> < 2 powi (?u + 53)" by (simp add: r abs_mult power_int_add)
      moreover have "0 < \<bar>round53 x\<bar>" unfolding r using F by simp
      moreover have "- 1074 \<le> ?u" by (simp add: ulp_exp_def)
      ultimately have "ulp_exp (round53 x) \<le> ?u" by (intro ulp_exp_le)
      with r show ?thesis by (rule round53_multiple)
    qed (simp add: r round53_def)
  next
    case big: False
    have "\<bar>x\<bar> < 2 powi (?u + 53)"
    proof -
      have "\<bar>x\<bar> < 2 powi (floor_log2 \<bar>x\<bar> + 1)" using False floor_log2_bounds(2) [of "\<bar>x\<bar>"] by simp
      also have "\<dots> \<le> 2 powi (?u + 53)" by (simp add: powi_le_iff ulp_exp_def)
      finally show ?thesis .
    qed
    then have "\<bar>x / 2 powi ?u\<bar> < 2 ^ 53" by (simp add: power_int_add divide_less_eq)
    then have "- (2 ^ 53) \<le> x / 2 powi ?u" "x / 2 powi ?u \<le> 2 ^ 53" by linarith+
    then have "round_even (of_int (- (2 ^ 53))) \<le> ?n" "?n \<le> round_even (of_int (2 ^ 53))"
      by (auto intro!: round_even_mono)
    then have "- (2 ^ 53) \<le> ?n" "?n \<le> 2 ^ 53" unfolding round_even_of_int .
    with big have n: "?n = 2 ^ 53 \<or> ?n = - (2 ^ 53)" by linarith
    have f: "floor_log2 \<bar>round53 x\<bar> = ?u + 53"
      using n by (intro floor_log2_unique) (auto simp: r abs_mult power_int_add)
    have u1: "ulp_exp (round53 x) \<le> ?u + 1" by (simp add: ulp_exp_def f)
    from n show ?thesis
    proof
      assume "?n = 2 ^ 53"
      then have "round53 x = of_int (2 ^ 52) * 2 powi (?u + 1)" by (simp add: r power_int_add)
      from this u1 show ?thesis by (rule round53_multiple)
    next
      assume "?n = - (2 ^ 53)"
      then have "round53 x = of_int (- (2 ^ 52)) * 2 powi (?u + 1)" by (simp add: r power_int_add)
      from this u1 show ?thesis by (rule round53_multiple)
    qed
  qed
qed (simp add: round53_def)


lemma floor_log2_powi: "floor_log2 (2 powi e) = e"
  by (rule floor_log2_unique) (simp_all add: powi_less_iff)

lemma round53_powi: "- 1074 \<le> e \<Longrightarrow> round53 (2 powi e) = 2 powi e"
  by (rule round53_multiple [where n = 1 and u = e]) (simp_all add: ulp_exp_def floor_log2_powi)

lemma round53_pos: "2 powi e \<le> x \<Longrightarrow> - 1074 \<le> e \<Longrightarrow> 0 < round53 x"
  using round53_mono [of "2 powi e" x] by (simp add: round53_powi) (metis less_le_trans zero_less_numeral zero_less_power_int)

text \<open>Seconds of a duration: a stored number, positive when the duration is.\<close>

lemma f_seconds_pos:
  assumes "0 < d" "in_i64 d"
  shows "\<exists>x. f_seconds d = Fin x \<and> 0 < x"
proof -
  let ?s = "d div go_second" and ?n = "d mod go_second"
  have s: "0 \<le> ?s" "?s < 2 ^ 34" using assms by (simp_all add: go_second_def in_i64_def pos_imp_zdiv_nonneg_iff)
  have n: "0 \<le> ?n" "?n < 1000000000" by (simp_all add: go_second_def)
  let ?y = "round53 (of_int ?n / 1000000000)"
  have y0: "0 \<le> ?y" using n by (intro round53_nonneg) simp
  have y1: "?y \<le> 1"
  proof -
    have "(of_int ?n :: rat) \<le> of_int 1000000000" using n unfolding of_int_le_iff by simp
    then have "?y \<le> round53 (of_int 1)" by (intro round53_mono) simp
    then show ?thesis using round53_int [of 1] by simp
  qed
  have "f_of_int ?s = Fin (of_int ?s)" "f_of_int ?n = Fin (of_int ?n)" "f_of_int go_second = Fin (of_int 1000000000)"
    using s n f_of_int_exact [of ?s] f_of_int_exact [of ?n] f_of_int_exact [of go_second] by (simp_all add: go_second_def)
  moreover have "f_round (of_int ?n / 1000000000) = Fin ?y"
    using y0 y1 by (auto simp: f_round_def Let_def)
  ultimately have e: "f_seconds d = f_round (of_int ?s + ?y)"
    using assms(1) by (simp add: f_seconds_def Let_def)
  have "(of_int ?s :: rat) < of_int (2 ^ 34)" using s unfolding of_int_less_iff by simp
  then have "of_int ?s + ?y \<le> of_int (2 ^ 34 + 1)" using y1 by simp
  then have "round53 (of_int ?s + ?y) \<le> of_int (2 ^ 34 + 1)"
    using round53_mono round53_int [of "2 ^ 34 + 1"] by fastforce
  then have "round53 (of_int ?s + ?y) < 2 ^ 1024" by (rule le_less_trans) simp
  moreover have "0 < round53 (of_int ?s + ?y)"
  proof (cases "?s = 0")
    case True
    then have "?n = d" using div_mult_mod_eq [of d go_second] by simp
    then have "1 \<le> ?n" using assms(1) by linarith
    then have "(1::rat) \<le> of_int ?n" by simp
    then have "1 / 1000000000 \<le> of_int ?n / (1000000000::rat)" by simp
    moreover have "(2::rat) powi - 30 \<le> 1 / 1000000000" by (simp add: power_int_minus)
    ultimately have "(2::rat) powi - 30 \<le> of_int ?n / 1000000000" by linarith
    then have "0 < ?y" by (rule round53_pos) simp
    with True show ?thesis by simp
  next
    case False
    with s have "1 \<le> ?s" by simp
    then have "(1::rat) \<le> of_int ?s" by simp
    with y0 have "of_int 1 \<le> of_int ?s + ?y" by simp
    then have "round53 (of_int 1) \<le> round53 (of_int ?s + ?y)" by (rule round53_mono)
    then show ?thesis using round53_int [of 1] by simp
  qed
  ultimately show ?thesis by (intro exI [of _ "round53 (of_int ?s + ?y)"]) (simp add: e f_round_def Let_def not_le)
qed

lemma f_seconds_zero: "f_seconds 0 = Fin 0"
proof -
  have "f_of_int 0 = Fin 0" "f_of_int go_second = Fin 1000000000"
    using f_of_int_exact [of 0] f_of_int_exact [of go_second] by (simp_all add: go_second_def)
  moreover have "f_round 0 = Fin 0" by (simp add: f_round_def round53_def)
  ultimately show ?thesis by (simp add: f_seconds_def)
qed

end
