(* ===== verification/FloatText.thy ===== *)
theory FloatText
  imports Float64
begin

text \<open>
  The decimal text of a \<open>float64\<close> as \<^verbatim>\<open>strconv.FormatFloat(x, 'f', -1, 64)\<close> writes it, and how to
  evaluate it on a given number without computing with large powers.
\<close>

section \<open>Text of a number\<close>

text \<open>
  \<open>strconv.FormatFloat(x, 'f', -1, 64)\<close>: the fewest decimal digits that read back as the same
  number, without an exponent.  \<open>decimal x n\<close> is the pair \<open>(m, q)\<close> of the \<open>n\<close>-digit decimal
  \<open>m * 10^q\<close> nearest to \<open>x\<close>.
\<close>

definition dec_exp :: "rat \<Rightarrow> int" where
  "dec_exp x = (case find (\<lambda>k. x < 10 powi k) [-330..310] of Some k \<Rightarrow> k | None \<Rightarrow> 310)"

definition decimal :: "rat \<Rightarrow> nat \<Rightarrow> nat \<times> int" where
  "decimal x n =
     (let q = dec_exp x - int n; m = nat (round_even (x / 10 powi q)) in
      if m = 10 ^ n then (m div 10, q + 1) else (m, q))"

definition shortest :: "rat \<Rightarrow> nat \<times> int" where
  "shortest x =
     (case find (\<lambda>n. case decimal x n of (m, q) \<Rightarrow> f_round (of_nat m * 10 powi q) = Fin x) [1..<17] of
        Some n \<Rightarrow> decimal x n | None \<Rightarrow> decimal x 17)"

definition point_text :: "nat \<times> int \<Rightarrow> string" where
  "point_text d =
     (case d of (m, q) \<Rightarrow>
       (let s = utoa m; k = int (length s) + q in
        if 0 \<le> q then s @ replicate (nat q) (CHR ''0'')
        else if k \<le> 0 then ''0.'' @ replicate (nat (- k)) (CHR ''0'') @ s
        else take (nat k) s @ ''.'' @ drop (nat k) s))"

definition formatFloat :: "f64 \<Rightarrow> string" where
  "formatFloat a =
     (case a of
        NaN \<Rightarrow> ''NaN''
      | Inf up \<Rightarrow> (if up then ''+Inf'' else ''-Inf'')
      | Fin x \<Rightarrow> (if x = 0 then ''0'' else if x < 0 then ''-'' @ point_text (shortest (- x)) else point_text (shortest x)))"

section \<open>Evaluation\<close>

lemma round_even_near: "\<bar>y - of_int n\<bar> < 1 / 2 \<Longrightarrow> round_even y = n"
proof -
  assume d: "\<bar>y - of_int n\<bar> < 1 / 2"
  show ?thesis
  proof (cases "of_int n \<le> y")
    case True
    then have "\<lfloor>y\<rfloor> = n" using d by (simp add: floor_eq_iff)
    with True d show ?thesis by (simp add: round_even_def)
  next
    case False
    have "\<lfloor>y\<rfloor> = n - 1" by (rule floor_unique) (use False d in auto)
    with False d show ?thesis by (simp add: round_even_def)
  qed
qed

lemma f_round_eval:
  assumes "2 ^ 52 \<le> y * 2 ^ p" "y * 2 ^ p < 2 ^ 53" "p \<le> 1074" "\<bar>y * 2 ^ p - of_int n\<bar> < 1 / 2"
  shows "f_round y = Fin (of_int n / 2 ^ p)"
proof -
  have y: "0 < y"
  proof (rule ccontr)
    assume "\<not> 0 < y"
    then have "y * 2 ^ p \<le> 0" by (simp add: mult_nonpos_nonneg)
    with assms(1) show False by simp
  qed
  have pp: "(2::rat) powi (52 - int p) = 2 ^ 52 / 2 ^ p" "(2::rat) powi (52 - int p + 1) = 2 ^ 53 / 2 ^ p"
    by (simp_all add: power_int_diff power_int_add)
  have "floor_log2 y = 52 - int p"
    by (rule floor_log2_unique) (unfold pp, use assms(1,2) in \<open>simp_all add: divide_le_eq less_divide_eq\<close>)
  then have u: "ulp_exp y = - int p" using y assms(3) by (simp add: ulp_exp_def)
  have "round_even (y * 2 ^ p) = n" using assms(4) by (rule round_even_near)
  then have r: "round53 y = of_int n / 2 ^ p" using y by (simp add: round53_def u power_int_minus divide_inverse)
  have "y \<le> y * 2 ^ p" using y by simp
  with assms(2) have "y \<le> 2 ^ 53" by simp
  then have "round53 y \<le> 2 ^ 53" using round53_mono [of y "of_int (2 ^ 53)"] round53_int [of "2 ^ 53"] by simp
  then have "of_int n / 2 ^ p < (2::rat) ^ 1024" unfolding r by (rule le_less_trans) simp
  moreover have "(0::rat) \<le> of_int n / 2 ^ p" using round53_nonneg [of y] y r by simp
  then have "- (2 ^ 1024) < (of_int n / 2 ^ p :: rat)" by (rule less_le_trans [rotated]) simp
  ultimately show ?thesis by (simp add: f_round_def r)
qed

lemma find_upto_first:
  assumes "\<forall>j. i \<le> j \<and> j < k \<longrightarrow> \<not> P j" and "P k" and "i \<le> k" and "k \<le> m"
  shows "find P [i..m] = Some k"
  using assms
proof (induction "nat (k - i)" arbitrary: i)
  case 0
  then have "i = k" by simp
  with 0 show ?case by (simp add: upto_rec1)
next
  case (Suc n)
  then have "find P [i + 1..m] = Some k" by (intro Suc.hyps) auto
  with Suc show ?case by (simp add: upto_rec1)
qed

lemma dec_exp_eval:
  assumes "10 powi (k - 1) \<le> x" "x < 10 powi k" "- 330 \<le> k" "k \<le> 310"
  shows "dec_exp x = k"
proof -
  have "\<not> x < 10 powi j" if "j < k" for j
  proof -
    have "(10::rat) powi j \<le> 10 powi (k - 1)" using that by (intro power_int_increasing) simp_all
    with assms(1) show ?thesis by simp
  qed
  then have "find (\<lambda>k. x < 10 powi k) [-330..310] = Some k"
    using assms by (intro find_upto_first) auto
  then show ?thesis by (simp add: dec_exp_def)
qed

lemma shortest_first:
  assumes "f_round (of_nat m * 10 powi q) = Fin x" and "decimal x 1 = (m, q)"
  shows "shortest x = (m, q)"
  using assms by (simp add: shortest_def upt_conv_Cons)

lemma shortest_second:
  assumes "f_round (of_nat m * 10 powi q) = Fin x" and "decimal x 2 = (m, q)"
    and "decimal x 1 = (m1, q1)" and "f_round (of_nat m1 * 10 powi q1) \<noteq> Fin x"
  shows "shortest x = (m, q)"
  using assms by (simp add: shortest_def upt_conv_Cons numeral_2_eq_2)

lemma decimal_eval:
  assumes "dec_exp x = k" "q = k - int n" "\<bar>x / 10 powi q - of_nat m\<bar> < 1 / 2" "m \<noteq> 10 ^ n"
  shows "decimal x n = (m, q)"
proof -
  have "round_even (x / 10 powi q) = int m" using assms(3) by (intro round_even_near) simp
  then show ?thesis using assms(1,2,4) by (simp add: decimal_def Let_def)
qed

lemma one_digit_label:
  fixes x y :: rat
  assumes "2 ^ 52 \<le> y * 2 ^ p" "y * 2 ^ p < 2 ^ 53" "p \<le> 1074" "\<bar>y * 2 ^ p - of_int n\<bar> < 1 / 2"
    and "x = of_int n / 2 ^ p" "10 powi (k - 1) \<le> x" "x < 10 powi k" "- 330 \<le> k" "k \<le> 310"
    and "\<bar>x / 10 powi (k - 1) - of_nat m\<bar> < 1 / 2" "m \<noteq> 10" "of_nat m * 10 powi (k - 1) = y"
  shows "formatFloat (f_round y) = point_text (m, k - 1)"
proof -
  have r: "f_round y = Fin x" using f_round_eval [OF assms(1-4)] assms(5) by simp
  have "decimal x 1 = (m, k - 1)"
    by (rule decimal_eval [OF dec_exp_eval [OF assms(6-9)] _ assms(10)]) (simp_all add: assms(11))
  moreover have "(0::rat) < 10 powi (k - 1)" by simp
  with assms(6) have "0 < x" by linarith
  ultimately show ?thesis using r assms(12) shortest_first [of m "k - 1" x] by (simp add: formatFloat_def)
qed

lemma two_digit_label:
  fixes x y :: rat
  assumes "2 ^ 52 \<le> y * 2 ^ p" "y * 2 ^ p < 2 ^ 53" "p \<le> 1074" "\<bar>y * 2 ^ p - of_int n\<bar> < 1 / 2"
    and "x = of_int n / 2 ^ p" "10 powi (k - 1) \<le> x" "x < 10 powi k" "- 330 \<le> k" "k \<le> 310"
    and "\<bar>x / 10 powi (k - 2) - of_nat m\<bar> < 1 / 2" "m \<noteq> 100" "of_nat m * 10 powi (k - 2) = y"
    and "decimal x 1 = (m1, k - 1)" "f_round (of_nat m1 * 10 powi (k - 1)) \<noteq> Fin x"
  shows "formatFloat (f_round y) = point_text (m, k - 2)"
proof -
  have r: "f_round y = Fin x" using f_round_eval [OF assms(1-4)] assms(5) by simp
  have "decimal x 2 = (m, k - 2)"
    by (rule decimal_eval [OF dec_exp_eval [OF assms(6-9)] _ assms(10)]) (simp_all add: assms(11))
  moreover have "(0::rat) < 10 powi (k - 1)" by simp
  with assms(6) have "0 < x" by linarith
  ultimately show ?thesis using r assms(12-14) shortest_second [of m "k - 2" x m1 "k - 1"] by (simp add: formatFloat_def)
qed

lemmas label_eval = power_int_def power_divide

lemma one_digit_labels:
  shows "formatFloat (f_round (5 / 1000)) = point_text (5, -3)"
    and "formatFloat (f_round (1 / 100)) = point_text (1, -2)"
    and "formatFloat (f_round (5 / 100)) = point_text (5, -2)"
    and "formatFloat (f_round (1 / 10)) = point_text (1, -1)"
    and "formatFloat (f_round (5 / 10)) = point_text (5, -1)"
    and "formatFloat (f_round (1 / 1)) = point_text (1, 0)"
    and "formatFloat (f_round (5 / 1)) = point_text (5, 0)"
    and "formatFloat (f_round (10 / 1)) = point_text (1, 1)"
proof -
  show "formatFloat (f_round (5 / 1000)) = point_text (5, -3)"
    using one_digit_label [of "5 / 1000" 60 5764607523034235 "5764607523034235 / 2 ^ 60" "-2" 5] by (simp add: label_eval)
  show "formatFloat (f_round (1 / 100)) = point_text (1, -2)"
    using one_digit_label [of "1 / 100" 59 5764607523034235 "5764607523034235 / 2 ^ 59" "-1" 1] by (simp add: label_eval)
  show "formatFloat (f_round (5 / 100)) = point_text (5, -2)"
    using one_digit_label [of "5 / 100" 57 7205759403792794 "7205759403792794 / 2 ^ 57" "-1" 5] by (simp add: label_eval)
  show "formatFloat (f_round (1 / 10)) = point_text (1, -1)"
    using one_digit_label [of "1 / 10" 56 7205759403792794 "7205759403792794 / 2 ^ 56" "0" 1] by (simp add: label_eval)
  show "formatFloat (f_round (5 / 10)) = point_text (5, -1)"
    using one_digit_label [of "5 / 10" 53 4503599627370496 "4503599627370496 / 2 ^ 53" "0" 5] by (simp add: label_eval)
  show "formatFloat (f_round (1 / 1)) = point_text (1, 0)"
    using one_digit_label [of "1 / 1" 52 4503599627370496 "4503599627370496 / 2 ^ 52" "1" 1] by (simp add: label_eval)
  show "formatFloat (f_round (5 / 1)) = point_text (5, 0)"
    using one_digit_label [of "5 / 1" 50 5629499534213120 "5629499534213120 / 2 ^ 50" "1" 5] by (simp add: label_eval)
  show "formatFloat (f_round (10 / 1)) = point_text (1, 1)"
    using one_digit_label [of "10 / 1" 49 5629499534213120 "5629499534213120 / 2 ^ 49" "2" 1] by (simp add: label_eval)
qed

lemma two_digit_labels:
  shows "formatFloat (f_round (25 / 1000)) = point_text (25, -3)"
    and "formatFloat (f_round (25 / 100)) = point_text (25, -2)"
    and "formatFloat (f_round (25 / 10)) = point_text (25, -1)"
proof -
  have e: "dec_exp (3602879701896397 / 144115188075855872) = - 1" "dec_exp (1 / 4) = 0" "dec_exp (5 / 2) = 1"
    by (rule dec_exp_eval; simp add: label_eval)+
  have fl: "\<lfloor>90071992547409925 / 36028797018963968 :: rat\<rfloor> = 2" "\<lfloor>5 / 2 :: rat\<rfloor> = 2"
    by (simp_all add: floor_eq_iff)
  have d: "decimal (3602879701896397 / 144115188075855872) 1 = (3, - 2)" "decimal (1 / 4) 1 = (2, - 1)" "decimal (5 / 2) 1 = (2, 0)"
    using fl by (simp_all add: decimal_def e round_even_def Let_def label_eval)
  have r: "f_round (3 / 100) = Fin (1080863910568919 / 36028797018963968)"
    "f_round (1 / 5) = Fin (3602879701896397 / 18014398509481984)" "f_round 2 = Fin 2"
    using f_round_eval [of "3 / 100" 58 8646911284551352] f_round_eval [of "1 / 5" 55 7205759403792794]
      f_round_eval [of 2 51 4503599627370496] by simp_all
  show "formatFloat (f_round (25 / 1000)) = point_text (25, -3)"
    using two_digit_label [of "25 / 1000" 58 7205759403792794 "7205759403792794 / 2 ^ 58" "-1" 25 3] d r
    by (simp add: label_eval)
  show "formatFloat (f_round (25 / 100)) = point_text (25, -2)"
    using two_digit_label [of "25 / 100" 54 4503599627370496 "4503599627370496 / 2 ^ 54" 0 25 2] d r
    by (simp add: label_eval)
  show "formatFloat (f_round (25 / 10)) = point_text (25, -1)"
    using two_digit_label [of "25 / 10" 51 5629499534213120 "5629499534213120 / 2 ^ 51" 1 25 2] d r
    by (simp add: label_eval)
qed

end
