(* ===== verification/Load.thy ===== *)
theory Load
  imports FloatText "HOL-Library.Multiset"
begin

text \<open>
  \<^verbatim>\<open>cmd/pressure/main.go\<close>, the part that generates load and sums it up: the workers of
  \<open>runLoad\<close> as steps on the shared counter and the shared list of results, \<open>summarize\<close> and
  \<open>percentile\<close> on the floats of theory \<^theory_text>\<open>Float64\<close>.  An index out of range panics:
  \<open>None\<close>.
\<close>

section \<open>Samples and reports\<close>

record sample =
  sm_status :: int
  sm_message :: string
  sm_latency :: duration
  sm_failed :: bool

text \<open>What \<open>verify\<close> found out; the entries of the write workload are the batches it checked.\<close>

datatype verification =
    Checked (vf_passed: bool) (vf_initial: int) (vf_accepted: int) (vf_persisted: int) (vf_mysql: int)
      (vf_redis: bool) (vf_duplicate: bool) (vf_seconds: f64)
  | Batches "int list" int bool f64

record report =
  rp_name :: string
  rp_workers :: int
  rp_requests :: int
  rp_elapsed :: f64
  rp_qps :: f64
  rp_accepted_qps :: f64
  rp_mean :: f64
  rp_p50 :: f64
  rp_p95 :: f64
  rp_p99 :: f64
  rp_max :: f64
  rp_errors :: int
  rp_error_rate :: f64
  rp_statuses :: "int \<Rightarrow> int option"
  rp_messages :: "string \<Rightarrow> int option"
  rp_activity :: int
  rp_verification :: "verification option"

text \<open>A counter of a Go map: absent is zero.\<close>

definition tally :: "'k \<Rightarrow> ('k \<Rightarrow> int option) \<Rightarrow> int" where
  "tally k m = (case m k of Some n \<Rightarrow> n | None \<Rightarrow> 0)"

definition count_up :: "'k \<Rightarrow> ('k \<Rightarrow> int option) \<Rightarrow> 'k \<Rightarrow> int option" where
  "count_up k m = m(k \<mapsto> tally k m + 1)"

section \<open>Percentiles\<close>

text \<open>The order of \<open>sort.Float64s\<close>: NaNs first.\<close>

definition f_before :: "f64 \<Rightarrow> f64 \<Rightarrow> bool" where
  "f_before a b \<longleftrightarrow> a < b \<or> (a = NaN \<and> b \<noteq> NaN)"

fun f_insert :: "f64 \<Rightarrow> f64 list \<Rightarrow> f64 list" where
  "f_insert x [] = [x]"
| "f_insert x (y # ys) = (if f_before y x then y # f_insert x ys else x # y # ys)"

definition f_sort :: "f64 list \<Rightarrow> f64 list" where
  "f_sort xs = foldr f_insert xs []"

definition percentile :: "(f64 \<Rightarrow> int) \<Rightarrow> f64 list \<Rightarrow> f64 \<Rightarrow> f64 option" where
  "percentile wild lats p =
     (if lats = [] then Some (Fin 0)
      else (let i = wrap64 (f_to_int wild (f_ceil (f_mul p (f_of_int (int (length lats))))) - 1) in
        if 0 \<le> i \<and> i < int (length lats) then Some (lats ! nat i) else None))"

section \<open>The summary\<close>

text \<open>The constants \<open>.50\<close>, \<open>.95\<close> and \<open>.99\<close>.\<close>

definition percent :: "nat \<Rightarrow> f64" where
  "percent m = f_round (of_nat m / 100)"

definition latency_ms :: "duration \<Rightarrow> f64" where
  "latency_ms d = f_div (f_of_int d) (f_of_int 1000000)"

definition system_error :: "sample \<Rightarrow> bool" where
  "system_error s \<longleftrightarrow> sm_failed s \<or> 500 \<le> sm_status s"

definition new_report :: "string \<Rightarrow> int \<Rightarrow> duration \<Rightarrow> int \<Rightarrow> report" where
  "new_report name workers elapsed n =
     \<lparr>rp_name = name, rp_workers = workers, rp_requests = n, rp_elapsed = f_seconds elapsed, rp_qps = Fin 0,
      rp_accepted_qps = Fin 0, rp_mean = Fin 0, rp_p50 = Fin 0, rp_p95 = Fin 0, rp_p99 = Fin 0, rp_max = Fin 0,
      rp_errors = 0, rp_error_rate = Fin 0, rp_statuses = Map.empty, rp_messages = Map.empty, rp_activity = 0,
      rp_verification = None\<rparr>"

definition add_sample :: "report \<Rightarrow> sample \<Rightarrow> report" where
  "add_sample r s =
     r\<lparr>rp_statuses := count_up (sm_status s) (rp_statuses r), rp_messages := count_up (sm_message s) (rp_messages r),
       rp_errors := (if system_error s then rp_errors r + 1 else rp_errors r),
       rp_mean := f_add (rp_mean r) (latency_ms (sm_latency s))\<rparr>"

definition summarize :: "(f64 \<Rightarrow> int) \<Rightarrow> string \<Rightarrow> int \<Rightarrow> duration \<Rightarrow> sample list \<Rightarrow> report option" where
  "summarize wild name workers elapsed samples =
     (let n = int (length samples); r = foldl add_sample (new_report name workers elapsed n) samples in
      if samples = [] then Some r
      else
        (let latencies = f_sort (map (\<lambda>s. latency_ms (sm_latency s)) samples) in
         case (percentile wild latencies (percent 50), percentile wild latencies (percent 95),
               percentile wild latencies (percent 99)) of
           (Some p50, Some p95, Some p99) \<Rightarrow>
             (let r = r\<lparr>rp_mean := f_div (rp_mean r) (f_of_int n), rp_p50 := p50, rp_p95 := p95, rp_p99 := p99,
                rp_max := last latencies, rp_error_rate := f_div (f_of_int (rp_errors r)) (f_of_int n)\<rparr> in
              Some (if 0 < elapsed
                    then r\<lparr>rp_qps := f_div (f_of_int n) (f_seconds elapsed),
                           rp_accepted_qps := f_div (f_of_int (tally 202 (rp_statuses r))) (f_seconds elapsed)\<rparr>
                    else r))
         | _ \<Rightarrow> None))"

section \<open>The workers\<close>

text \<open>
  A worker is about to ask for work, is calling with an index, or has returned.  Between taking the lock
  and releasing it nothing interleaves, so each of the two critical sections is one step; \<open>now\<close> is
  what the clock says during the step.
\<close>

datatype load_worker = Asking | Calling nat | Returned

record load =
  ld_next :: nat
  ld_results :: "sample list"
  ld_workers :: "load_worker list"

definition load_start :: "nat \<Rightarrow> load" where
  "load_start workers = \<lparr>ld_next = 0, ld_results = [], ld_workers = replicate workers Asking\<rparr>"

definition load_over :: "instant \<Rightarrow> duration \<Rightarrow> int \<Rightarrow> instant \<Rightarrow> load \<Rightarrow> bool" where
  "load_over start d reqs now st \<longleftrightarrow>
     (0 < d \<and> \<not> now < start + d) \<or> (d = 0 \<and> reqs \<le> int (ld_next st))"

inductive load_step :: "instant \<Rightarrow> duration \<Rightarrow> int \<Rightarrow> (nat \<Rightarrow> sample) \<Rightarrow> instant \<Rightarrow> load \<Rightarrow> load \<Rightarrow> bool"
  for start d reqs call now where
  l_return: "i < length (ld_workers st) \<Longrightarrow> ld_workers st ! i = Asking \<Longrightarrow> load_over start d reqs now st \<Longrightarrow>
    load_step start d reqs call now st (st\<lparr>ld_workers := (ld_workers st)[i := Returned]\<rparr>)"
| l_take: "i < length (ld_workers st) \<Longrightarrow> ld_workers st ! i = Asking \<Longrightarrow> \<not> load_over start d reqs now st \<Longrightarrow>
    load_step start d reqs call now st
      (st\<lparr>ld_next := ld_next st + 1, ld_workers := (ld_workers st)[i := Calling (ld_next st)]\<rparr>)"
| l_result: "i < length (ld_workers st) \<Longrightarrow> ld_workers st ! i = Calling k \<Longrightarrow>
    load_step start d reqs call now st
      (st\<lparr>ld_results := ld_results st @ [call k], ld_workers := (ld_workers st)[i := Asking]\<rparr>)"

definition all_returned :: "load \<Rightarrow> bool" where
  "all_returned st \<longleftrightarrow> list_all (\<lambda>x. x = Returned) (ld_workers st)"

definition runLoad :: "(f64 \<Rightarrow> int) \<Rightarrow> string \<Rightarrow> int \<Rightarrow> duration \<Rightarrow> load \<Rightarrow> report option" where
  "runLoad wild name workers elapsed st = summarize wild name workers elapsed (ld_results st)"

section \<open>Sorting\<close>

lemma f_insert_Fin: "f_insert (Fin x) (map Fin ys) = map Fin (insort x ys)"
  by (induction ys) (auto simp: f_before_def)

lemma f_sort_Fin: "f_sort (map Fin xs) = map Fin (sort xs)"
  by (induction xs) (simp_all add: f_sort_def f_insert_Fin)

lemma sorted_ranks:
  assumes "sorted xs" and "j < length xs"
  shows "j < length (filter (\<lambda>x. x \<le> xs ! j) xs)" and "length (filter (\<lambda>x. x < xs ! j) xs) \<le> j"
proof -
  have "{0..j} \<subseteq> {i. i < length xs \<and> xs ! i \<le> xs ! j}"
    using assms by (auto intro: sorted_nth_mono)
  then have "card {0..j} \<le> card {i. i < length xs \<and> xs ! i \<le> xs ! j}" by (rule card_mono [rotated]) simp
  then show "j < length (filter (\<lambda>x. x \<le> xs ! j) xs)" by (simp add: length_filter_conv_card)
  have "{i. i < length xs \<and> xs ! i < xs ! j} \<subseteq> {0..<j}"
  proof
    fix i assume i: "i \<in> {i. i < length xs \<and> xs ! i < xs ! j}"
    then have "\<not> j \<le> i" using sorted_nth_mono [OF assms(1), of j i] by auto
    then show "i \<in> {0..<j}" by simp
  qed
  then have "card {i. i < length xs \<and> xs ! i < xs ! j} \<le> card {0..<j}" by (rule card_mono [rotated]) simp
  then show "length (filter (\<lambda>x. x < xs ! j) xs) \<le> j" by (simp add: length_filter_conv_card)
qed

section \<open>Ranks in floating point\<close>

lemma f_round_small: "\<bar>x\<bar> \<le> 2 ^ 100 \<Longrightarrow> f_round x = Fin (round53 x)"
proof -
  have b: "y \<le> 2 ^ 100 \<Longrightarrow> round53 y < 2 ^ 1024" for y
  proof -
    assume "y \<le> 2 ^ 100"
    then have "round53 y \<le> round53 (2 powi 100)" by (intro round53_mono) simp
    also have "\<dots> = 2 powi 100" by (rule round53_powi) simp
    also have "\<dots> < 2 ^ 1024" by simp
    finally show ?thesis .
  qed
  assume "\<bar>x\<bar> \<le> 2 ^ 100"
  then have "x \<le> 2 ^ 100" "- x \<le> 2 ^ 100" by (simp_all only: abs_le_iff)
  from this [THEN b] have "round53 x < 2 ^ 1024" "- (2 ^ 1024) < round53 x" unfolding round53_minus by linarith+
  then show ?thesis unfolding f_round_def Let_def not_le [symmetric] by (simp only: if_False)
qed

lemma latency_finite: "in_i64 d \<Longrightarrow> \<exists>x. latency_ms d = Fin x"
proof -
  assume d: "in_i64 d"
  have r: "- (2 powi 63) \<le> round53 (of_int d)" "round53 (of_int d) \<le> 2 powi 63"
  proof -
    have "(of_int d :: rat) \<le> of_int (2 ^ 63)" "of_int (- (2 ^ 63)) \<le> (of_int d :: rat)"
      using d unfolding of_int_le_iff by (simp_all add: in_i64_def)
    then have "of_int d \<le> (2 powi 63 :: rat)" "- (2 powi 63) \<le> (of_int d :: rat)" by simp_all
    then show "- (2 powi 63) \<le> round53 (of_int d)" "round53 (of_int d) \<le> 2 powi 63"
      using round53_mono [of "of_int d" "2 powi 63"] round53_mono [of "- (2 powi 63)" "of_int d"]
      by (simp_all only: round53_minus round53_powi)
  qed
  have "\<bar>of_int d :: rat\<bar> \<le> of_int (2 ^ 63)"
    using d unfolding of_int_abs [symmetric] of_int_le_iff by (simp add: in_i64_def abs_le_iff)
  then have "f_of_int d = Fin (round53 (of_int d))"
    unfolding f_of_int_def by (intro f_round_small) simp
  moreover have "\<bar>round53 (of_int d) / 1000000\<bar> \<le> 2 ^ 100" using r by (simp add: abs_le_iff)
  moreover have "f_of_int 1000000 = Fin 1000000" using f_of_int_exact [of 1000000] by simp
  ultimately show ?thesis by (simp add: latency_ms_def f_round_small)
qed

text \<open>
  The stored factor is a little below the decimal one.  As the exact product is a multiple of a
  hundredth, the rounded product still lies above the integer before the rank and not above the rank.
\<close>

lemma float_rank:
  assumes m: "0 < m" "m \<le> 100" and n: "0 < n" "n \<le> 2 ^ 40"
    and q: "of_int m / 100 - 1 / 2 ^ 50 \<le> q" "q \<le> of_int m / 100"
  shows "f_ceil (f_mul (Fin q) (f_of_int n)) = Fin (of_int ((m * n + 99) div 100))"
proof -
  let ?k = "(m * n + 99) div 100" and ?y = "q * of_int n"
  have mn: "0 < m * n" using m n by simp
  have "100 * ?k \<le> m * n + 99" "m * n + 99 < 100 * ?k + 100"
    using div_mult_mod_eq [of "m * n + 99" 100] pos_mod_bound [of 100 "m * n + 99"] pos_mod_sign [of 100 "m * n + 99"]
    by simp_all
  then have k: "1 \<le> ?k" "m * n \<le> 100 * ?k" "100 * (?k - 1) + 1 \<le> m * n"
    using mn unfolding right_diff_distrib by linarith+
  have "m * n \<le> 100 * n" using m n by simp
  then have k2: "?k \<le> 2 ^ 40" using n by linarith
  have n0: "(0::rat) \<le> of_int n" "(of_int n :: rat) \<le> of_int (2 ^ 40)" using n unfolding of_int_le_iff by simp_all
  have "?y \<le> of_int m / 100 * of_int n" using q(2) n0 by (intro mult_right_mono)
  also have "\<dots> = of_int (m * n) / 100" by simp
  also have "\<dots> \<le> of_int (100 * ?k) / 100" using k(2) unfolding divide_le_cancel of_int_le_iff by simp
  finally have up: "?y \<le> of_int ?k" by simp
  have "of_int (100 * (?k - 1) + 1) / 100 \<le> (of_int (m * n) / 100 :: rat)"
    using k(3) unfolding divide_le_cancel of_int_le_iff by simp
  then have "of_int (?k - 1) + 1 / 100 \<le> (of_int m / 100 * of_int n :: rat)" by (simp add: add_divide_distrib)
  moreover have "(of_int m / 100 - 1 / 2 ^ 50) * of_int n \<le> ?y" using q(1) n0 by (intro mult_right_mono)
  moreover have "1 / 2 ^ 50 * of_int n \<le> (1 / 2 ^ 10 :: rat)" using n0 by simp
  moreover have "(1 :: rat) / 128 + 1 / 2 ^ 10 \<le> 1 / 100" by simp
  ultimately have low: "of_int (?k - 1) + 1 / 128 \<le> ?y" by (simp add: left_diff_distrib)
  let ?z = "of_int (?k - 1) + 1 / 128 :: rat"
  have kk: "(0::rat) \<le> of_int (?k - 1)" "(of_int (?k - 1) :: rat) \<le> of_int (2 ^ 40)"
    using k(1) k2 unfolding of_int_le_iff by simp_all
  have "round53 ?z = ?z"
  proof (rule round53_multiple)
    show "?z = of_int (128 * (?k - 1) + 1) * 2 powi (- 7)" by (simp add: power_int_minus)
    have "(2::rat) powi (- 7 + 53) = 2 ^ 46" by simp
    then show "ulp_exp ?z \<le> - 7" using kk by (intro ulp_exp_le) (simp_all add: abs_of_nonneg)
  qed
  then have r: "of_int (?k - 1) < round53 ?y" using round53_mono [OF low] by simp
  have r': "round53 ?y \<le> of_int ?k" using round53_mono [OF up] round53_int [of ?k] k(1) k2 by simp
  have "f_round ?y = Fin (round53 ?y)"
  proof (rule f_round_small)
    have "of_int ?k \<le> (of_int (2 ^ 100) :: rat)" using k2 unfolding of_int_le_iff by simp
    then show "\<bar>?y\<bar> \<le> 2 ^ 100" using up low kk by (simp add: abs_of_nonneg)
  qed
  moreover have "f_of_int n = Fin (of_int n)" using f_of_int_exact [of n] n by simp
  moreover have "\<lceil>round53 ?y\<rceil> = ?k" using r r' by (intro ceiling_unique) simp_all
  ultimately show ?thesis by (simp add: f_ceil_def)
qed

lemma percent_factors:
  "percent 50 = Fin (4503599627370496 / 2 ^ 53)"
  "percent 95 = Fin (8556839292003942 / 2 ^ 53)"
  "percent 99 = Fin (8917127262193582 / 2 ^ 53)"
  using f_round_eval [of "50 / 100" 53 4503599627370496] f_round_eval [of "95 / 100" 53 8556839292003942]
    f_round_eval [of "99 / 100" 53 8917127262193582] by (simp_all add: percent_def)

lemma percentile_rank:
  assumes "0 < m" "m \<le> 100" "of_int m / 100 - 1 / 2 ^ 50 \<le> q" "q \<le> of_int m / 100"
    and "xs \<noteq> []" "length xs \<le> 2 ^ 40"
  shows "percentile wild xs (Fin q) = Some (xs ! nat ((m * int (length xs) + 99) div 100 - 1))"
    and "nat ((m * int (length xs) + 99) div 100 - 1) < length xs"
proof -
  let ?n = "int (length xs)" let ?k = "(m * ?n + 99) div 100"
  have n: "0 < ?n" "?n \<le> 2 ^ 40" using assms(5,6) by (simp_all add: length_greater_0_conv flip: of_nat_le_iff)
  have "0 < m * ?n" "m * ?n \<le> 100 * ?n" using n assms(1,2) by simp_all
  then have k: "1 \<le> ?k" "?k \<le> ?n" by linarith+
  have "in_i64 ?k" "in_i64 (?k - 1)" using k n by (simp_all add: in_i64_def)
  then have "wrap64 (f_to_int wild (f_ceil (f_mul (Fin q) (f_of_int ?n))) - 1) = ?k - 1"
    using k by (simp add: float_rank [OF assms(1,2) n assms(3,4)] f_to_int_def Let_def)
  then show "percentile wild xs (Fin q) = Some (xs ! nat (?k - 1))"
    using k assms(5) by (simp add: percentile_def Let_def)
  show "nat (?k - 1) < length xs" using k by linarith
qed

section \<open>What a report says\<close>

lemma tally_count_up [simp]: "tally k (count_up k' m) = (if k = k' then tally k m + 1 else tally k m)"
  by (simp add: tally_def count_up_def)

lemma tally_empty [simp]: "tally k Map.empty = 0"
  by (simp add: tally_def)

lemma fold_samples:
  "rp_requests (foldl add_sample r ss) = rp_requests r"
  "tally c (rp_statuses (foldl add_sample r ss)) = tally c (rp_statuses r) + int (length (filter (\<lambda>s. sm_status s = c) ss))"
  "tally m (rp_messages (foldl add_sample r ss)) = tally m (rp_messages r) + int (length (filter (\<lambda>s. sm_message s = m) ss))"
  "rp_errors (foldl add_sample r ss) = rp_errors r + int (length (filter system_error ss))"
  by (induction ss arbitrary: r) (simp_all add: add_sample_def)

definition nearest_rank :: "nat \<Rightarrow> f64 list \<Rightarrow> f64 \<Rightarrow> bool" where
  "nearest_rank m xs v \<longleftrightarrow> v \<in> set xs \<and> m * length xs \<le> 100 * length (filter (\<lambda>x. x \<le> v) xs) \<and>
     100 * length (filter (\<lambda>x. x < v) xs) < m * length xs"

definition rank_index :: "nat \<Rightarrow> nat \<Rightarrow> nat" where
  "rank_index m n = nat ((int m * int n + 99) div 100 - 1)"

lemma percentile_nearest:
  fixes xs :: "rat list"
  assumes "0 < m" "m \<le> 100" "of_nat m / 100 - 1 / 2 ^ 50 \<le> q" "q \<le> of_nat m / 100"
    and "xs \<noteq> []" "length xs \<le> 2 ^ 40"
  shows "percentile wild (map Fin (sort xs)) (Fin q) =
      Some (Fin (sort xs ! rank_index m (length xs)))"
    and "rank_index m (length xs) < length xs"
    and "nearest_rank m (map Fin xs) (Fin (sort xs ! rank_index m (length xs)))"
proof -
  let ?j = "rank_index m (length xs)"
  note rank_index_def [simp]
  let ?k = "(int m * int (length xs) + 99) div 100"
  note r = percentile_rank(1) [of "int m" q "map Fin (sort xs)" wild] percentile_rank(2) [of "int m" q "map Fin (sort xs)"]
  have ne: "sort xs \<noteq> []" using assms(5) by (metis length_0_conv length_sort)
  show j: "?j < length xs" using r(2) assms ne by simp
  then show "percentile wild (map Fin (sort xs)) (Fin q) = Some (Fin (sort xs ! ?j))"
    using r(1) assms ne by simp
  have k: "1 \<le> ?k" "int m * int (length xs) \<le> 100 * ?k" "100 * (?k - 1) < int m * int (length xs)"
  proof -
    have "100 * ?k \<le> int m * int (length xs) + 99" "int m * int (length xs) + 99 < 100 * ?k + 100"
      using div_mult_mod_eq [of "int m * int (length xs) + 99" 100]
        pos_mod_bound [of 100 "int m * int (length xs) + 99"] pos_mod_sign [of 100 "int m * int (length xs) + 99"]
      by simp_all
    moreover have "0 < int m * int (length xs)" using assms by simp
    ultimately show "1 \<le> ?k" "int m * int (length xs) \<le> 100 * ?k" "100 * (?k - 1) < int m * int (length xs)"
      unfolding right_diff_distrib by linarith+
  qed
  have same: "length (filter P (sort xs)) = length (filter P xs)" for P
    by (metis mset_filter mset_sort size_mset)
  have "?j < length (filter (\<lambda>x. x \<le> sort xs ! ?j) xs)" "length (filter (\<lambda>x. x < sort xs ! ?j) xs) \<le> ?j"
    using sorted_ranks [of "sort xs" ?j] j by (simp_all add: same)
  moreover have "int ?j = ?k - 1" using k by simp
  ultimately have "int m * int (length xs) \<le> 100 * int (length (filter (\<lambda>x. x \<le> sort xs ! ?j) xs))"
    and "100 * int (length (filter (\<lambda>x. x < sort xs ! ?j) xs)) < int m * int (length xs)"
    using k \<open>int ?j = ?k - 1\<close> by linarith+
  then have "m * length xs \<le> 100 * length (filter (\<lambda>x. x \<le> sort xs ! ?j) xs)"
    and "100 * length (filter (\<lambda>x. x < sort xs ! ?j) xs) < m * length xs"
    unfolding of_nat_le_iff [where 'a = int, symmetric] of_nat_less_iff [where 'a = int, symmetric] of_nat_mult of_nat_numeral
    by blast+
  moreover have "sort xs ! ?j \<in> set xs" using j by (metis length_sort nth_mem set_sort)
  ultimately show "nearest_rank m (map Fin xs) (Fin (sort xs ! ?j))"
    by (simp add: nearest_rank_def filter_map comp_def)
qed

lemma rank_mono: "a \<le> b \<Longrightarrow> rank_index a n \<le> rank_index b n"
  unfolding rank_index_def
  by (intro nat_mono diff_right_mono zdiv_mono1 add_right_mono mult_right_mono) simp_all

lemma summary_fields:
  assumes "samples \<noteq> []" and "f_sort (map (\<lambda>s. latency_ms (sm_latency s)) samples) = l"
    and "percentile wild l (percent 50) = Some a" "percentile wild l (percent 95) = Some b"
    and "percentile wild l (percent 99) = Some c"
  shows "\<exists>r. summarize wild name workers elapsed samples = Some r \<and> rp_requests r = int (length samples) \<and>
    rp_p50 r = a \<and> rp_p95 r = b \<and> rp_p99 r = c \<and> rp_max r = last l \<and>
    (\<forall>k. tally k (rp_statuses r) = int (length (filter (\<lambda>s. sm_status s = k) samples))) \<and>
    (\<forall>k. tally k (rp_messages r) = int (length (filter (\<lambda>s. sm_message s = k) samples))) \<and>
    rp_errors r = int (length (filter system_error samples))"
  using assms by (simp add: summarize_def Let_def fold_samples new_report_def)

text \<open>
  C38: the percentiles of a report are what the report says they are, nearest rank, in spite of the floating
  point: for up to \<open>2^40\<close> samples \<open>summarize\<close> does not panic, P50, P95 and P99 are latencies of
  samples such that at least that many percent of the samples are not slower and less than that many percent are
  faster; they and the maximum are in order; and every status and the system errors are counted right.
\<close>

theorem percentiles_nearest_rank:
  assumes "samples \<noteq> []" and "length samples \<le> 2 ^ 40" and "\<forall>s\<in>set samples. in_i64 (sm_latency s)"
  shows "\<exists>r. summarize wild name workers elapsed samples = Some r \<and> rp_requests r = int (length samples) \<and>
    (let ms = map (\<lambda>s. latency_ms (sm_latency s)) samples in
      nearest_rank 50 ms (rp_p50 r) \<and> nearest_rank 95 ms (rp_p95 r) \<and> nearest_rank 99 ms (rp_p99 r) \<and>
      rp_p50 r \<le> rp_p95 r \<and> rp_p95 r \<le> rp_p99 r \<and> rp_p99 r \<le> rp_max r \<and> rp_max r \<in> set ms) \<and>
    (\<forall>c. tally c (rp_statuses r) = int (length (filter (\<lambda>s. sm_status s = c) samples))) \<and>
    rp_errors r = int (length (filter system_error samples))"
proof -
  let ?ms = "map (\<lambda>s. latency_ms (sm_latency s)) samples"
  have "\<forall>v\<in>set ?ms. \<exists>x. v = Fin x" using assms(3) latency_finite by auto
  then obtain xs where xs: "?ms = map Fin xs" by (metis ex_map_conv)
  then have ne: "xs \<noteq> []" and len: "length xs \<le> 2 ^ 40" and n: "length xs = length samples"
    using assms(1,2) by (auto dest: arg_cong [where f = length])
  let ?at = "\<lambda>m. sort xs ! rank_index m (length xs)"
  have p50: "percentile wild (f_sort ?ms) (percent 50) = Some (Fin (?at 50))"
    and p95: "percentile wild (f_sort ?ms) (percent 95) = Some (Fin (?at 95))"
    and p99: "percentile wild (f_sort ?ms) (percent 99) = Some (Fin (?at 99))"
    unfolding xs f_sort_Fin percent_factors by (rule percentile_nearest(1) [OF _ _ _ _ ne len]; simp)+
  have rank: "rank_index m (length xs) < length xs" "nearest_rank m (map Fin xs) (Fin (?at m))" if "0 < m" "m \<le> 100" for m
    using percentile_nearest(2,3) [OF that, of "of_nat m / 100" xs] ne len by simp_all
  have ord: "?at a \<le> ?at b" if "a \<le> b" "0 < b" "b \<le> 100" for a b
    using rank(1) [OF that(2,3)] rank_mono [OF that(1)] by (intro sorted_nth_mono) simp_all
  have ne': "sort xs \<noteq> []" using ne by (metis length_0_conv length_sort)
  have lst: "last (sort xs) = sort xs ! (length xs - 1)" using ne by (metis last_conv_nth length_0_conv length_sort)
  then have top: "?at 99 \<le> last (sort xs)" using rank(1) [of 99] by (auto intro!: sorted_nth_mono)
  have "last (sort xs) \<in> set xs" using ne by (metis last_in_set length_0_conv length_sort set_sort)
  then have mx: "last (f_sort ?ms) = Fin (last (sort xs))" "Fin (last (sort xs)) \<in> set ?ms"
    unfolding xs f_sort_Fin using last_map [of "sort xs" Fin] ne' by simp_all
  have "Fin (?at 50) \<le> Fin (?at 95)" "Fin (?at 95) \<le> Fin (?at 99)" "Fin (?at 99) \<le> Fin (last (sort xs))"
    using ord [of 50 95] ord [of 95 99] top by simp_all
  moreover have "nearest_rank 50 ?ms (Fin (?at 50))" "nearest_rank 95 ?ms (Fin (?at 95))" "nearest_rank 99 ?ms (Fin (?at 99))"
    unfolding xs by (rule rank(2); simp)+
  moreover from summary_fields [OF assms(1) refl p50 p95 p99, of name workers elapsed] obtain r where
    r: "summarize wild name workers elapsed samples = Some r" "rp_requests r = int (length samples)"
      "rp_p50 r = Fin (?at 50)" "rp_p95 r = Fin (?at 95)" "rp_p99 r = Fin (?at 99)" "rp_max r = last (f_sort ?ms)"
      "\<forall>c. tally c (rp_statuses r) = int (length (filter (\<lambda>s. sm_status s = c) samples))"
      "rp_errors r = int (length (filter system_error samples))" by blast
  ultimately show ?thesis
    unfolding Let_def by (intro exI [of _ r]) (simp only: r mx simp_thms)
qed

theorem percentiles_nearest_rank_witness:
  "\<exists>r. summarize (\<lambda>_. 0) ''n'' 2 0 [\<lparr>sm_status = 202, sm_message = '''', sm_latency = 7, sm_failed = False\<rparr>,
       \<lparr>sm_status = 500, sm_message = '''', sm_latency = 3, sm_failed = False\<rparr>] = Some r \<and>
     rp_requests r = 2 \<and> rp_p50 r \<le> rp_p99 r \<and> tally 202 (rp_statuses r) = 1 \<and> rp_errors r = 1"
proof -
  let ?s = "[\<lparr>sm_status = 202, sm_message = '''', sm_latency = 7, sm_failed = False\<rparr>,
       \<lparr>sm_status = 500, sm_message = '''', sm_latency = 3, sm_failed = False\<rparr>]"
  have "?s \<noteq> []" "length ?s \<le> 2 ^ 40" "\<forall>s\<in>set ?s. in_i64 (sm_latency s)" by (simp_all add: in_i64_def)
  from percentiles_nearest_rank [OF this, of "\<lambda>_. 0" "''n''" 2 0] obtain r where
    r: "summarize (\<lambda>_. 0) ''n'' 2 0 ?s = Some r" "rp_requests r = int (length ?s)"
      "rp_p50 r \<le> rp_p95 r" "rp_p95 r \<le> rp_p99 r"
      "\<forall>c. tally c (rp_statuses r) = int (length (filter (\<lambda>s. sm_status s = c) ?s))"
      "rp_errors r = int (length (filter system_error ?s))" unfolding Let_def by blast
  show ?thesis
    by (rule exI [of _ r], intro conjI r(1) f_le_trans [OF r(3,4)]) (use r(2,5,6) in \<open>simp_all add: system_error_def\<close>)
qed

section \<open>Every request is made once\<close>

definition pending :: "load_worker \<Rightarrow> nat list" where
  "pending w = (case w of Calling k \<Rightarrow> [k] | _ \<Rightarrow> [])"

definition in_flight :: "load \<Rightarrow> nat list" where
  "in_flight st = concat (map pending (ld_workers st))"

definition weight :: "load_worker \<Rightarrow> nat" where
  "weight w = (case w of Asking \<Rightarrow> 1 | Calling _ \<Rightarrow> 2 | Returned \<Rightarrow> 0)"

definition workers_left :: "load \<Rightarrow> nat" where
  "workers_left st = sum_list (map weight (ld_workers st))"

definition work_left :: "int \<Rightarrow> load \<Rightarrow> nat" where
  "work_left reqs st = 3 * (nat reqs - ld_next st) + workers_left st"

lemmas worker_facts = pending_def weight_def workers_left_def in_flight_def

lemma mset_concat_update:
  "i < length ws \<Longrightarrow> mset (concat (map f (ws[i := x]))) + mset (f (ws ! i)) = mset (concat (map f ws)) + mset (f x)"
  by (induction ws arbitrary: i) (auto split: nat.splits)

lemma sum_list_update_nat:
  "i < length ws \<Longrightarrow> sum_list (map f (ws[i := x])) + f (ws ! i) = sum_list (map f ws) + (f x :: nat)"
  by (induction ws arbitrary: i) (auto split: nat.splits)

lemma returned_update: "Returned \<in> set (ws[i := x]) \<Longrightarrow> x \<noteq> Returned \<Longrightarrow> Returned \<in> set ws"
  using set_update_subset_insert [of ws i x] by auto

definition load_inv :: "int \<Rightarrow> (nat \<Rightarrow> sample) \<Rightarrow> load \<Rightarrow> bool" where
  "load_inv reqs call st \<longleftrightarrow> int (ld_next st) \<le> reqs \<and> (Returned \<in> set (ld_workers st) \<longrightarrow> reqs \<le> int (ld_next st)) \<and>
     (\<exists>made. ld_results st = map call made \<and> mset made + mset (in_flight st) = mset [0..<ld_next st])"

lemma load_step_inv:
  assumes "load_step start 0 reqs call now st st'" and "load_inv reqs call st"
  shows "load_inv reqs call st'"
  using assms
proof (cases rule: load_step.cases)
  case (l_return i)
  then show ?thesis
    using assms(2) mset_concat_update [of i "ld_workers st" pending Returned]
    by (auto simp: load_inv_def load_over_def in_flight_def pending_def)
next
  case (l_take i)
  then show ?thesis
    using assms(2) mset_concat_update [of i "ld_workers st" pending "Calling (ld_next st)"]
    by (fastforce simp: load_inv_def load_over_def in_flight_def pending_def dest: returned_update)
next
  case (l_result i k)
  from assms(2) obtain made where m: "ld_results st = map call made" "mset made + mset (in_flight st) = mset [0..<ld_next st]"
    by (auto simp: load_inv_def)
  have "mset (in_flight st) = mset (concat (map pending ((ld_workers st)[i := Asking]))) + {#k#}"
    using mset_concat_update [of i "ld_workers st" pending Asking] l_result by (simp add: in_flight_def pending_def)
  with m l_result have "ld_results st' = map call (made @ [k])" "mset (made @ [k]) + mset (in_flight st') = mset [0..<ld_next st']"
    by (simp_all add: in_flight_def)
  moreover have "int (ld_next st') \<le> reqs" "Returned \<in> set (ld_workers st') \<longrightarrow> reqs \<le> int (ld_next st')"
    using assms(2) l_result by (auto simp: load_inv_def dest: returned_update)
  ultimately show ?thesis unfolding load_inv_def by blast
qed

lemma load_step_work:
  assumes "load_step start d reqs call now st st'"
  shows "d = 0 \<Longrightarrow> work_left reqs st' < work_left reqs st" and "0 < d \<Longrightarrow> start + d \<le> now \<Longrightarrow> workers_left st' < workers_left st"
  using assms
  by (cases rule: load_step.cases; fastforce simp: work_left_def workers_left_def load_over_def weight_def
      dest: sum_list_update_nat [where f = weight and x = Returned] sum_list_update_nat [where f = weight and x = Asking]
        sum_list_update_nat [where f = weight and x = "Calling (ld_next st)"])+

lemma load_progress: "\<not> all_returned st \<Longrightarrow> \<exists>st'. load_step start d reqs call now st st'"
proof -
  assume "\<not> all_returned st"
  then obtain i where i: "i < length (ld_workers st)" "ld_workers st ! i \<noteq> Returned"
    by (auto simp: all_returned_def list_all_iff in_set_conv_nth)
  show ?thesis
  proof (cases "ld_workers st ! i")
    case Asking
    then show ?thesis using i(1) by (cases "load_over start d reqs now st") (blast intro: load_step.intros)+
  next
    case (Calling k)
    then show ?thesis using i(1) by (blast intro: load_step.intros)
  qed (use i in simp)
qed

definition load_reachable :: "nat \<Rightarrow> instant \<Rightarrow> duration \<Rightarrow> int \<Rightarrow> (nat \<Rightarrow> sample) \<Rightarrow> load \<Rightarrow> bool" where
  "load_reachable n start d reqs call st \<longleftrightarrow> (\<lambda>a b. \<exists>now. load_step start d reqs call now a b)\<^sup>*\<^sup>* (load_start n) st"

lemma load_reachable_inv:
  assumes "load_reachable n start 0 reqs call st" and "0 \<le> reqs"
  shows "load_inv reqs call st"
proof -
  have "load_inv reqs call (load_start n)"
    using assms(2) by (simp add: load_inv_def load_start_def in_flight_def pending_def map_replicate_const)
  with assms(1) [unfolded load_reachable_def] show ?thesis
    by (induction rule: rtranclp_induct) (auto intro: load_step_inv)
qed

lemma load_reachable_workers: "load_reachable n start d reqs call st \<Longrightarrow> length (ld_workers st) = n"
  unfolding load_reachable_def
  by (induction rule: rtranclp_induct) (auto simp: load_start_def elim!: load_step.cases)

text \<open>
  C39: a run of a number of requests makes each of them exactly once and ends.  However the workers
  interleave, while one has not returned a step is possible, every step lowers the work left, and when all
  have returned the samples are those of the indices \<open>0\<close> to \<open>reqs - 1\<close>, each once, so the
  report counts all of them.  A run of a duration ends too: once the deadline has passed, every step lowers
  the work the workers have left.
\<close>

theorem load_makes_every_request:
  assumes "load_reachable n start 0 reqs call st" and "0 < n" and "0 \<le> reqs"
  shows "(\<not> all_returned st \<longrightarrow> (\<exists>st'. load_step start 0 reqs call now st st')) \<and>
    (\<forall>st'. load_step start 0 reqs call now st st' \<longrightarrow> work_left reqs st' < work_left reqs st) \<and>
    (all_returned st \<longrightarrow> mset (ld_results st) = image_mset call (mset [0..<nat reqs]) \<and>
      (\<forall>r. runLoad wild name workers elapsed st = Some r \<longrightarrow> rp_requests r = reqs)) \<and>
    (\<forall>d st1 st2. 0 < d \<longrightarrow> start + d \<le> now \<longrightarrow> load_step start d reqs call now st1 st2 \<longrightarrow> workers_left st2 < workers_left st1)"
proof -
  note inv = load_reachable_inv [OF assms(1,3)]
  have "mset (ld_results st) = image_mset call (mset [0..<nat reqs])" if ret: "all_returned st"
  proof -
    have "ld_workers st \<noteq> []" using load_reachable_workers [OF assms(1)] assms(2) by auto
    with ret have "Returned \<in> set (ld_workers st)" by (cases "ld_workers st") (auto simp: all_returned_def)
    then have n: "ld_next st = nat reqs" using inv by (auto simp: load_inv_def)
    have "pending w = []" if "w \<in> set (ld_workers st)" for w
      using ret that by (auto simp: all_returned_def list_all_iff pending_def)
    then have "in_flight st = []" by (simp add: in_flight_def)
    then obtain made where "ld_results st = map call made" "mset made = mset [0..<nat reqs]"
      using inv n by (auto simp: load_inv_def)
    then show ?thesis by (simp only: mset_map)
  qed
  moreover have "rp_requests r = reqs"
    if "mset (ld_results st) = image_mset call (mset [0..<nat reqs])" "runLoad wild name workers elapsed st = Some r" for r
  proof -
    have "length (ld_results st) = nat reqs" using arg_cong [OF that(1), of size] by simp
    then show ?thesis using that(2) assms(3)
      by (auto simp: runLoad_def summarize_def Let_def fold_samples new_report_def split: if_splits option.splits)
  qed
  ultimately show ?thesis using load_progress load_step_work by metis
qed

definition one_call :: "nat \<Rightarrow> sample" where
  "one_call i = \<lparr>sm_status = 202, sm_message = '''', sm_latency = int i, sm_failed = False\<rparr>"

definition one_run :: load where
  "one_run = \<lparr>ld_next = 1, ld_results = [one_call 0], ld_workers = [Returned]\<rparr>"

lemma load_reachable_step:
  "load_reachable n start d reqs call st \<Longrightarrow> load_step start d reqs call now st st' \<Longrightarrow> load_reachable n start d reqs call st'"
  unfolding load_reachable_def by (blast intro: rtranclp.rtrancl_into_rtrancl)

lemma one_run_reachable: "load_reachable 1 5 0 1 one_call one_run"
proof -
  let ?s = "\<lambda>n rs ws. \<lparr>ld_next = n, ld_results = rs, ld_workers = ws\<rparr>"
  have "load_step 5 0 1 one_call 6 (load_start 1) (?s 1 [] [Calling 0])"
    using l_take [of 0 "load_start 1" 5 0 1 6 one_call] by (simp add: load_start_def load_over_def)
  moreover have "load_step 5 0 1 one_call 6 (?s 1 [] [Calling 0]) (?s 1 [one_call 0] [Asking])"
    using l_result [of 0 "?s 1 [] [Calling 0]" 0 5 0 1 one_call 6] by simp
  moreover have "load_step 5 0 1 one_call 6 (?s 1 [one_call 0] [Asking]) one_run"
    using l_return [of 0 "?s 1 [one_call 0] [Asking]" 5 0 1 6 one_call] by (simp add: one_run_def load_over_def)
  moreover have "load_reachable 1 5 0 1 one_call (load_start 1)" by (simp add: load_reachable_def)
  ultimately show ?thesis by (blast intro: load_reachable_step)
qed

theorem load_makes_every_request_witness:
  "all_returned one_run \<and> mset (ld_results one_run) = image_mset one_call (mset [0..<1])"
  using load_makes_every_request [OF one_run_reachable] by (simp add: one_run_def all_returned_def)

end
