(* ===== verification/Pressure.thy ===== *)
theory Pressure
  imports Load Rabbit
begin

text \<open>
  \<^verbatim>\<open>cmd/pressure/main.go\<close>, the client: requests and their replies, the calls of the service's
  API, \<open>verify\<close>, the flags and the final judgement.  What comes back from the network is a script,
  one exchange and the time it took per request; the clock moves with it and with \<open>time.Sleep\<close>.  The
  header \<open>Content-Type\<close>, the same on every request, is left out.  Keys of JSON objects match up to
  the case of ASCII letters.  Theory \<^theory_text>\<open>PressureRun\<close> puts the calls together.
\<close>

section \<open>The network\<close>

text \<open>
  A request cannot be built, gets no answer (by a timeout or not), or is answered with a status and a body
  that could be read to the end or not.
\<close>

datatype exchange = Unsent | Lost bool | Reply int string bool

record client_call =
  cc_method :: string
  cc_url :: string
  cc_auth :: "string option"
  cc_body :: "json option"

record net =
  nt_clock :: instant
  nt_script :: "nat \<Rightarrow> exchange \<times> nat"
  nt_next :: nat
  nt_sent :: "client_call list"

text \<open>An error is one of the libraries', a text of this program, or a verification that did not pass.\<close>

datatype client_error = Transport | Malformed | Failure string | Unverified verification

type_synonym 'a client = "net \<Rightarrow> (client_error + 'a) \<times> net"

definition cbind :: "'a client \<Rightarrow> ('a \<Rightarrow> 'b client) \<Rightarrow> 'b client" where
  "cbind m f n = (case m n of (Inl e, n') \<Rightarrow> (Inl e, n') | (Inr x, n') \<Rightarrow> f x n')"

definition sleep :: "duration \<Rightarrow> net \<Rightarrow> net" where
  "sleep d n = n\<lparr>nt_clock := nt_clock n + d\<rparr>"

section \<open>Decoding replies\<close>

definition unmarshal_object :: "('r \<Rightarrow> string \<Rightarrow> json \<Rightarrow> 'r option) \<Rightarrow> 'r \<Rightarrow> json \<Rightarrow> 'r option" where
  "unmarshal_object field r j =
     (case j of
        JObj kvs \<Rightarrow> foldl (\<lambda>acc kv. case acc of None \<Rightarrow> None
          | Some r' \<Rightarrow> field r' (map lower_char (fst kv)) (snd kv)) (Some r) kvs
      | JNull \<Rightarrow> Some r
      | _ \<Rightarrow> None)"

definition unmarshal_list :: "(json \<Rightarrow> 'r option) \<Rightarrow> json \<Rightarrow> 'r list option" where
  "unmarshal_list element j = (case j of JArr xs \<Rightarrow> those (map element xs) | JNull \<Rightarrow> Some [] | _ \<Rightarrow> None)"

definition read_int :: "(int \<Rightarrow> 'r) \<Rightarrow> 'r \<Rightarrow> json \<Rightarrow> 'r option" where
  "read_int upd r j = (case j of JNum lit \<Rightarrow> map_option upd (parse_i64 lit) | JNull \<Rightarrow> Some r | _ \<Rightarrow> None)"

definition read_text :: "(string \<Rightarrow> 'r) \<Rightarrow> 'r \<Rightarrow> json \<Rightarrow> 'r option" where
  "read_text upd r j = (case j of JStr s \<Rightarrow> Some (upd s) | JNull \<Rightarrow> Some r | _ \<Rightarrow> None)"

record envelope =
  en_code :: int
  en_message :: string
  en_data :: "json option"

definition no_envelope :: envelope where
  "no_envelope = \<lparr>en_code = 0, en_message = '''', en_data = None\<rparr>"

definition unmarshal_envelope :: "string \<Rightarrow> envelope option" where
  "unmarshal_envelope data =
     (case parse_json data of
        Some j \<Rightarrow> unmarshal_object (\<lambda>r k v.
          if k = ''code'' then read_int (\<lambda>i. r\<lparr>en_code := i\<rparr>) r v
          else if k = ''message'' then read_text (\<lambda>s. r\<lparr>en_message := s\<rparr>) r v
          else if k = ''data'' then Some (r\<lparr>en_data := Some v\<rparr>)
          else Some r) no_envelope j
      | None \<Rightarrow> None)"

definition decode_token :: "json \<Rightarrow> string option" where
  "decode_token = unmarshal_object (\<lambda>r k v. if k = ''token'' then read_text id r v else Some r) ''''"

definition decode_id :: "json \<Rightarrow> int option" where
  "decode_id = unmarshal_object (\<lambda>r k v. if k = ''id'' then read_int id r v else Some r) 0"

record listed_order =
  lo_order_no :: string
  lo_user :: int
  lo_status :: string

record orderList =
  ol_total :: int
  ol_items :: "listed_order list"

definition decode_listed :: "json \<Rightarrow> listed_order option" where
  "decode_listed = unmarshal_object (\<lambda>r k v.
     if k = ''order_no'' then read_text (\<lambda>s. r\<lparr>lo_order_no := s\<rparr>) r v
     else if k = ''user_id'' then read_int (\<lambda>i. r\<lparr>lo_user := i\<rparr>) r v
     else if k = ''status'' then read_text (\<lambda>s. r\<lparr>lo_status := s\<rparr>) r v
     else Some r) \<lparr>lo_order_no = '''', lo_user = 0, lo_status = ''''\<rparr>"

definition decode_orders :: "orderList \<Rightarrow> json \<Rightarrow> orderList option" where
  "decode_orders old = unmarshal_object (\<lambda>r k v.
     if k = ''total'' then read_int (\<lambda>i. r\<lparr>ol_total := i\<rparr>) r v
     else if k = ''items'' then map_option (\<lambda>xs. r\<lparr>ol_items := xs\<rparr>) (unmarshal_list decode_listed v)
     else Some r) old"

definition no_orders :: orderList where
  "no_orders = \<lparr>ol_total = 0, ol_items = []\<rparr>"

text \<open>Of the items of a reconciliation only their number is used.\<close>

record stock_check =
  sc_checked :: int
  sc_missing :: int
  sc_mismatched :: int
  sc_items :: nat
  sc_failed :: int

definition decode_item :: "json \<Rightarrow> unit option" where
  "decode_item = unmarshal_object (\<lambda>r k v.
     if k = ''mysql_stock'' \<or> k = ''redis_stock'' then read_int (\<lambda>_. ()) r v
     else if k = ''redis_exists'' then (case v of JBool _ \<Rightarrow> Some r | JNull \<Rightarrow> Some r | _ \<Rightarrow> None)
     else Some r) ()"

definition decode_check :: "json \<Rightarrow> stock_check option" where
  "decode_check = unmarshal_object (\<lambda>r k v.
     if k = ''checked'' then read_int (\<lambda>i. r\<lparr>sc_checked := i\<rparr>) r v
     else if k = ''missing'' then read_int (\<lambda>i. r\<lparr>sc_missing := i\<rparr>) r v
     else if k = ''mismatched'' then read_int (\<lambda>i. r\<lparr>sc_mismatched := i\<rparr>) r v
     else if k = ''failed'' then read_int (\<lambda>i. r\<lparr>sc_failed := i\<rparr>) r v
     else if k = ''items'' then map_option (\<lambda>xs. r\<lparr>sc_items := length xs\<rparr>) (unmarshal_list decode_item v)
     else Some r) \<lparr>sc_checked = 0, sc_missing = 0, sc_mismatched = 0, sc_items = 0, sc_failed = 0\<rparr>"

definition decode_activities :: "json \<Rightarrow> (int \<times> int) list option" where
  "decode_activities = unmarshal_list (unmarshal_object (\<lambda>r k v.
     if k = ''id'' then read_int (\<lambda>i. (i, snd r)) r v
     else if k = ''stock'' then read_int (\<lambda>i. (fst r, i)) r v
     else Some r) (0, 0))"

section \<open>One request\<close>

definition client_request :: "string \<Rightarrow> string \<Rightarrow> string \<Rightarrow> string \<Rightarrow> json option \<Rightarrow>
    net \<Rightarrow> (sample \<times> envelope \<times> client_error option) \<times> net" where
  "client_request base meth route token body n =
     (let (x, took) = nt_script n (nt_next n);
          call = \<lparr>cc_method = meth, cc_url = base @ route,
            cc_auth = (if token = '''' then None else Some (''Bearer '' @ token)), cc_body = body\<rparr>;
          n1 = n\<lparr>nt_next := nt_next n + 1\<rparr>;
          n2 = n1\<lparr>nt_clock := nt_clock n + int took, nt_sent := nt_sent n @ [call]\<rparr> in
      case x of
        Unsent \<Rightarrow> ((\<lparr>sm_status = 0, sm_message = '''', sm_latency = 0, sm_failed = False\<rparr>, no_envelope, Some Transport), n1)
      | Lost timeout \<Rightarrow>
          ((\<lparr>sm_status = 0, sm_message = (if timeout then ''request_timeout'' else ''transport_error''),
             sm_latency = int took, sm_failed = True\<rparr>, no_envelope, Some Transport), n2)
      | Reply status data whole \<Rightarrow>
          (case (whole, unmarshal_envelope (take 4194304 data)) of
             (True, Some env) \<Rightarrow>
               ((\<lparr>sm_status = status, sm_message = en_message env, sm_latency = int took, sm_failed = False\<rparr>, env, None), n2)
           | (_, env) \<Rightarrow>
               ((\<lparr>sm_status = status, sm_message = ''invalid_or_incomplete_response'', sm_latency = int took,
                  sm_failed = True\<rparr>, case env of Some en \<Rightarrow> en | None \<Rightarrow> no_envelope,
                 Some (if whole then Malformed else Transport)), n2)))"

text \<open>\<open>api\<close>: the status must be the expected one, the data of the envelope is decoded.\<close>

definition api :: "string \<Rightarrow> string \<Rightarrow> string \<Rightarrow> string \<Rightarrow> json option \<Rightarrow> int \<Rightarrow> (json \<Rightarrow> 'r option) \<Rightarrow> 'r client" where
  "api base meth route token body expected decode n =
     (case client_request base meth route token body n of
        ((s, env, Some e), n') \<Rightarrow> (Inl e, n')
      | ((s, env, None), n') \<Rightarrow>
          (if sm_status s \<noteq> expected
           then (Inl (Failure (meth @ '' '' @ route @ '': status='' @ itoa (sm_status s) @ '' message='' @ en_message env)), n')
           else case en_data env of
             None \<Rightarrow> (Inl Malformed, n')
           | Some j \<Rightarrow> (case decode j of None \<Rightarrow> (Inl Malformed, n') | Some r \<Rightarrow> (Inr r, n'))))"

definition client_register :: "string \<Rightarrow> string \<Rightarrow> string client" where
  "client_register base name =
     cbind (api base ''POST'' ''/api/auth/register'' ''''
         (Some (JObj [(''password'', JStr ''pressure-test-only''), (''username'', JStr name)])) 201 decode_token)
       (\<lambda>token n. if token = '''' then (Inl (Failure ''registration returned empty token''), n) else (Inr token, n))"

definition client_activity :: "string \<Rightarrow> string \<Rightarrow> string \<Rightarrow> int \<Rightarrow> int client" where
  "client_activity base admin tag stock =
     cbind (api base ''POST'' ''/api/products'' admin
         (Some (JObj [(''name'', JStr (''pressure-'' @ tag)), (''price'', JNum ''19900''), (''stock'', JNum (itoa stock))]))
         201 decode_id)
       (\<lambda>product. api base ''POST'' ''/api/activities'' admin
         (Some (JObj [(''duration_seconds'', JNum ''3600''), (''name'', JStr (''pressure-'' @ tag)), (''price'', JNum ''18900''),
           (''product_id'', JNum (itoa product)), (''stock'', JNum (itoa stock))])) 201 decode_id)"

definition post_order :: "string \<Rightarrow> int \<Rightarrow> string \<Rightarrow> string \<Rightarrow> net \<Rightarrow> sample \<times> net" where
  "post_order base activity token requestID n =
     (case client_request base ''POST'' ''/api/orders'' token
         (Some (JObj [(''activity_id'', JNum (itoa activity)), (''request_id'', JStr requestID)])) n of
        ((s, _, _), n') \<Rightarrow> (s, n'))"

subsection \<open>The clock does not go back\<close>

lemma client_request_clock: "client_request base meth route token body n = (x, n') \<Longrightarrow> nt_clock n \<le> nt_clock n'"
  by (auto simp: client_request_def Let_def split: prod.splits exchange.splits bool.splits option.splits)

lemma api_clock: "api base meth route token body expected decode n = (x, n') \<Longrightarrow> nt_clock n \<le> nt_clock n'"
  by (auto simp: api_def dest!: client_request_clock split: prod.splits option.splits if_splits)

section \<open>Verification\<close>

definition list_route :: "int \<Rightarrow> string \<Rightarrow> string" where
  "list_route activity rest = ''/api/admin/orders?activity_id='' @ itoa activity @ rest"

text \<open>
  Waiting until no order of the activity is queued: two queries a round, 200 ms between rounds, at most
  until the deadline.  The list of a round is decoded over the one before.
\<close>

function await_settled :: "string \<Rightarrow> string \<Rightarrow> int \<Rightarrow> instant \<Rightarrow> orderList \<Rightarrow> orderList client" where
  "await_settled base admin activity deadline os n =
     (case api base ''GET'' (list_route activity ''&limit=100'') admin None 200 (decode_orders os) n of
        (Inl e, n1) \<Rightarrow> (Inl e, n1)
      | (Inr os', n1) \<Rightarrow>
          (case api base ''GET'' (list_route activity ''&status=QUEUED&limit=1'') admin None 200 (decode_orders no_orders) n1 of
             (Inl e, n2) \<Rightarrow> (Inl e, n2)
           | (Inr queued, n2) \<Rightarrow>
               (if ol_total queued = 0 then (Inr os', n2)
                else if deadline < nt_clock n2 then (Inl (Failure ''orders did not leave QUEUED within 20s''), n2)
                else await_settled base admin activity deadline os' (sleep 200000000 n2))))"
  by pat_completeness auto

termination
  by (relation "measure (\<lambda>(base, admin, activity, deadline, os, n). nat (deadline + 1 - nt_clock n))")
    (auto simp: sleep_def dest!: api_clock [OF sym])

declare await_settled.simps [simp del]

fun scan_orders :: "int list \<Rightarrow> bool \<Rightarrow> listed_order list \<Rightarrow> client_error + bool" where
  "scan_orders seen duplicate [] = Inr duplicate"
| "scan_orders seen duplicate (x # xs) =
     (if lo_status x \<noteq> ''WAIT_PAY'' then Inl (Failure (''unexpected order state '' @ lo_status x))
      else scan_orders (lo_user x # seen) (duplicate \<or> lo_user x \<in> set seen) xs)"

definition listed_stock :: "int \<Rightarrow> (int \<times> int) list \<Rightarrow> int" where
  "listed_stock activity xs = (case find (\<lambda>x. fst x = activity) xs of Some x \<Rightarrow> snd x | None \<Rightarrow> - 1)"

definition judge_orders :: "instant \<Rightarrow> int \<Rightarrow> int \<Rightarrow> orderList \<Rightarrow> stock_check \<Rightarrow> int \<Rightarrow> bool \<Rightarrow> instant \<Rightarrow> verification" where
  "judge_orders start initial accepted os check mysql duplicate now =
     (let redis = (sc_checked check = 1 \<and> sc_missing check = 0 \<and> sc_mismatched check = 0 \<and> sc_items check = 0);
          valid = (ol_total os = accepted \<and> mysql = wrap64 (initial - accepted) \<and> redis \<and> \<not> duplicate \<and>
            ol_total os = int (length (ol_items os))) in
      Checked valid initial accepted (ol_total os) mysql redis duplicate (f_seconds (now - start)))"

text \<open>An error before there is a verdict is returned with no verification.\<close>

type_synonym verdict_client = "net \<Rightarrow> (verification option \<times> string \<times> client_error option) \<times> net"

definition or_return :: "'a client \<Rightarrow> ('a \<Rightarrow> verdict_client) \<Rightarrow> verdict_client" where
  "or_return m f n = (case m n of (Inl e, n') \<Rightarrow> ((None, '''', Some e), n') | (Inr x, n') \<Rightarrow> f x n')"

definition conclude :: "orderList \<Rightarrow> verification \<Rightarrow> verdict_client" where
  "conclude os v n =
     (if \<not> vf_passed v then ((Some v, '''', Some (Unverified v)), n)
      else case ol_items os of
        [] \<Rightarrow> ((Some v, '''', Some (Failure ''no accepted order to query'')), n)
      | x # _ \<Rightarrow> ((Some v, lo_order_no x, None), n))"

definition client_verify :: "string \<Rightarrow> string \<Rightarrow> int \<Rightarrow> int \<Rightarrow> int \<Rightarrow> verdict_client" where
  "client_verify base admin activity initial accepted n =
     or_return (await_settled base admin activity (nt_clock n + 20 * go_second) no_orders) (\<lambda>os.
     or_return (api base ''POST'' ''/api/ops/stock/reconcile'' admin
       (Some (JObj [(''activity_id'', JNum (itoa activity)), (''repair'', JBool False)])) 200 decode_check) (\<lambda>check.
     or_return (api base ''GET'' ''/api/activities'' '''' None 200 decode_activities) (\<lambda>acts.
     or_return (\<lambda>m. (scan_orders [] False (ol_items os), m)) (\<lambda>duplicate m.
     conclude os (judge_orders (nt_clock n) initial accepted os check (listed_stock activity acts) duplicate (nt_clock m)) m)))) n"

lemma or_returnE:
  assumes "or_return m f n = ((v, no, None), n')"
  obtains x n1 where "m n = (Inr x, n1)" and "f x n1 = ((v, no, None), n')"
  using assms by (auto simp: or_return_def split: prod.splits sum.splits)

lemma scan_orders_ok:
  "scan_orders seen duplicate xs = Inr False \<longleftrightarrow>
     \<not> duplicate \<and> (\<forall>x\<in>set xs. lo_status x = ''WAIT_PAY'') \<and> distinct (map lo_user xs) \<and> set (map lo_user xs) \<inter> set seen = {}"
  by (induction seen duplicate xs rule: scan_orders.induct) auto

text \<open>
  A verification that reports no error has seen as many persisted orders as were accepted, every one
  waiting for payment and of a user of its own, the stock lowered by their number, and Redis in agreement.
\<close>

lemma client_verify_sound:
  assumes "client_verify base admin activity initial accepted n = ((v, no, None), n')"
  shows "\<exists>(os :: listed_order list) sec. v = Some (Checked True initial accepted accepted (wrap64 (initial - accepted)) True False sec) \<and>
    int (length os) = accepted \<and> distinct (map lo_user os) \<and> (\<forall>x\<in>set os. lo_status x = ''WAIT_PAY'') \<and>
    os \<noteq> [] \<and> no = lo_order_no (hd os)"
proof -
  from assms obtain os check mysql dup now m where
    scan: "scan_orders [] False (ol_items os) = Inr dup"
    and c: "conclude os (judge_orders (nt_clock n) initial accepted os check mysql dup now) m = ((v, no, None), n')"
    unfolding client_verify_def by (elim or_returnE, intro that) (assumption | simp)+
  from c have v: "v = Some (judge_orders (nt_clock n) initial accepted os check mysql dup now)"
      "vf_passed (judge_orders (nt_clock n) initial accepted os check mysql dup now)"
    and no: "ol_items os \<noteq> []" "no = lo_order_no (hd (ol_items os))"
    by (auto simp: conclude_def split: if_splits list.splits)
  from v(2) have "\<not> dup" "ol_total os = accepted" "ol_total os = int (length (ol_items os))"
    and j: "judge_orders (nt_clock n) initial accepted os check mysql dup now =
      Checked True initial accepted accepted (wrap64 (initial - accepted)) True False (f_seconds (now - nt_clock n))"
    by (auto simp: judge_orders_def Let_def)
  with scan have "distinct (map lo_user (ol_items os))" "\<forall>x\<in>set (ol_items os). lo_status x = ''WAIT_PAY''"
    by (simp_all add: scan_orders_ok)
  moreover have "int (length (ol_items os)) = accepted"
    using \<open>ol_total os = accepted\<close> \<open>ol_total os = int (length (ol_items os))\<close> by simp
  ultimately show ?thesis using v(1) [unfolded j] no
    by (intro exI [of _ "ol_items os"] exI [of _ "f_seconds (now - nt_clock n)"] conjI) assumption+
qed

section \<open>The workloads and the judgement\<close>

record pressure_flags =
  pf_workers :: int
  pf_users :: int
  pf_stock :: int
  pf_duplicates :: int
  pf_writes :: int
  pf_duration :: duration

definition flags_valid :: "pressure_flags \<Rightarrow> bool" where
  "flags_valid f \<longleftrightarrow> \<not> (pf_workers f < 1 \<or> pf_users f < 1 \<or> 5000 < pf_users f \<or> pf_stock f < 1 \<or> 100 < pf_stock f \<or>
     pf_users f < pf_stock f \<or> pf_duplicates f < 1 \<or> pf_writes f < 0 \<or> pf_duration f \<le> 0)"

definition batch_size :: "pressure_flags \<Rightarrow> int" where
  "batch_size f = min (pf_users f) 100"

definition batch_count :: "pressure_flags \<Rightarrow> int" where
  "batch_count f = wrap64 (pf_writes f + batch_size f - 1) div batch_size f"

definition batch_stock :: "pressure_flags \<Rightarrow> int \<Rightarrow> int" where
  "batch_stock f batch = min (batch_size f) (pf_writes f - batch * batch_size f)"

text \<open>The activity and the user of a write, as indices of \<open>activityIDs\<close> and \<open>tokens\<close>.\<close>

definition write_target :: "pressure_flags \<Rightarrow> int \<Rightarrow> int \<times> int" where
  "write_target f i = (i div batch_size f, i mod batch_size f)"

datatype complaint = Unchecked client_error | Complaint string

definition checked :: "client_error option \<Rightarrow> complaint list" where
  "checked e = (case e of Some err \<Rightarrow> [Unchecked err] | None \<Rightarrow> [])"

definition report_complaints :: "report \<Rightarrow> complaint list" where
  "report_complaints r =
     (if 0 < rp_errors r then [Complaint (rp_name r @ '': system errors detected'')] else []) @
     (if rp_name r = ''sustained_order_query'' \<and> (rp_requests r = 0 \<or> tally 200 (rp_statuses r) \<noteq> rp_requests r)
      then [Complaint ''query responses must all be 200''] else [])"

definition write_complaints :: "pressure_flags \<Rightarrow> report \<Rightarrow> client_error option list \<Rightarrow> complaint list" where
  "write_complaints f r checks =
     concat (map checked checks) @
     (if tally 202 (rp_statuses r) = pf_writes f \<and> list_all (\<lambda>e. e = None) checks then []
      else [Complaint ''valid write workload did not persist every expected order''])"

definition pressure_complaints :: "pressure_flags \<Rightarrow> report \<Rightarrow> client_error option \<Rightarrow> report \<Rightarrow> client_error option \<Rightarrow>
    (report \<times> client_error option list) option \<Rightarrow> report option \<Rightarrow> complaint list" where
  "pressure_complaints f duplicate e1 stocks e2 writes query =
     checked e1 @ checked e2 @
     (if tally 202 (rp_statuses duplicate) \<noteq> 1 then [Complaint ''same-user accepted count must equal 1''] else []) @
     (if tally 202 (rp_statuses stocks) \<noteq> pf_stock f
      then [Complaint ''multi-user accepted count must equal configured stock; inspect rate limiting/errors''] else []) @
     (case writes of None \<Rightarrow> [] | Some (r, checks) \<Rightarrow> write_complaints f r checks) @
     concat (map report_complaints
       ([duplicate, stocks] @ (case writes of None \<Rightarrow> [] | Some (r, _) \<Rightarrow> [r]) @ (case query of None \<Rightarrow> [] | Some r \<Rightarrow> [r])))"

text \<open>Every write has a batch and a user, no two writes of a batch have the same user, and a batch has as
  many writes as its activity has stock; the number of batches does not overflow below \<open>2^62\<close> writes.\<close>

lemma writes_fit:
  assumes "flags_valid f" and "0 \<le> i" "i < pf_writes f" and "pf_writes f < 2 ^ 62"
  shows "0 \<le> fst (write_target f i)" "fst (write_target f i) < batch_count f"
    and "0 \<le> snd (write_target f i)" "snd (write_target f i) < pf_users f"
    and "snd (write_target f i) < batch_stock f (fst (write_target f i))"
proof -
  have b: "0 < batch_size f" "batch_size f \<le> pf_users f" using assms(1) by (simp_all add: flags_valid_def batch_size_def)
  show "0 \<le> fst (write_target f i)" "0 \<le> snd (write_target f i)" "snd (write_target f i) < pf_users f"
    using b assms(2) less_le_trans [OF pos_mod_bound [OF b(1), of i] b(2)]
    by (simp_all add: write_target_def pos_imp_zdiv_nonneg_iff)
  have "i div batch_size f \<le> (pf_writes f - 1) div batch_size f" using assms(3) b by (intro zdiv_mono1) simp_all
  moreover have "(pf_writes f + batch_size f - 1) div batch_size f = (pf_writes f - 1) div batch_size f + 1"
    using b div_add_self2 [of "batch_size f" "pf_writes f - 1"] by (simp add: algebra_simps)
  moreover have "in_i64 (pf_writes f + batch_size f - 1)"
    using assms(2,3,4) b by (auto simp: in_i64_def batch_size_def min_def)
  ultimately show "fst (write_target f i) < batch_count f" by (simp add: write_target_def batch_count_def)
  have "i div batch_size f * batch_size f + i mod batch_size f = i" by simp
  then show "snd (write_target f i) < batch_stock f (fst (write_target f i))"
    using assms(3) pos_mod_bound [OF b(1), of i] unfolding write_target_def batch_stock_def fst_conv snd_conv min_less_iff_conj
    by linarith
qed

lemma write_target_inj: "inj_on (write_target f) {0..<pf_writes f}" if "flags_valid f"
  by (rule inj_onI) (metis write_target_def prod.inject div_mult_mod_eq)

end
