(* ===== verification/PressureRun.thy ===== *)
theory PressureRun
  imports Pressure
begin

text \<open>
  \<^verbatim>\<open>cmd/pressure/main.go\<close>, \<open>execute\<close>: from the flags to the complaints of the report.  A load is
  concurrent and has many outcomes, so a run is a relation between the network before it, the value and the network
  after it; everything else is sequential and computes.  Writing the report file is not modelled.
\<close>

section \<open>Runs\<close>

type_synonym 'a run = "net \<Rightarrow> client_error + 'a \<Rightarrow> net \<Rightarrow> bool"

definition perform :: "'a client \<Rightarrow> 'a run" where
  "perform m n r n' \<longleftrightarrow> m n = (r, n')"

definition followed_by :: "'a run \<Rightarrow> ('a \<Rightarrow> 'b run) \<Rightarrow> 'b run" where
  "followed_by m f n r n' \<longleftrightarrow> (\<exists>e. m n (Inl e) n' \<and> r = Inl e) \<or> (\<exists>x n1. m n (Inr x) n1 \<and> f x n1 r n')"

definition give :: "'a \<Rightarrow> 'a client" where
  "give x n = (Inr x, n)"

definition fail :: "client_error \<Rightarrow> 'a client" where
  "fail e n = (Inl e, n)"

fun client_each :: "('x \<Rightarrow> 'a client) \<Rightarrow> 'x list \<Rightarrow> 'a list client" where
  "client_each f [] = give []"
| "client_each f (x # xs) = cbind (f x) (\<lambda>a. cbind (client_each f xs) (\<lambda>as. give (a # as)))"

text \<open>A verification comes back with whatever it found and perhaps an error; the run goes on either way.\<close>

definition verify_run :: "verdict_client \<Rightarrow> (verification option \<times> string \<times> client_error option) client" where
  "verify_run m n = (case m n of (v, n') \<Rightarrow> (Inr v, n'))"

section \<open>A load on the network\<close>

text \<open>
  \<open>order\<close> lists the indices in the order in which their requests reach the network, \<open>times\<close> when;
  the samples are what the network answers, and the workers interleave in any way that theory \<^theory_text>\<open>Load\<close> allows.
\<close>

definition at_turn :: "net \<Rightarrow> nat \<Rightarrow> instant \<Rightarrow> net" where
  "at_turn n j t = n\<lparr>nt_next := nt_next n + j, nt_clock := t\<rparr>"

definition load_run :: "(f64 \<Rightarrow> int) \<Rightarrow> string \<Rightarrow> int \<Rightarrow> int \<Rightarrow> duration \<Rightarrow> (nat \<Rightarrow> net \<Rightarrow> sample \<times> net) \<Rightarrow> report run" where
  "load_run wild name workers reqs d c n r n' \<longleftrightarrow>
     (\<exists>call st order times rep.
        load_reachable (nat workers) (nt_clock n) d reqs call st \<and> all_returned st \<and>
        mset order = mset [0..<ld_next st] \<and>
        (\<forall>j<length order. call (order ! j) = fst (c (order ! j) (at_turn n j (times j)))) \<and>
        nt_clock n \<le> nt_clock n' \<and>
        n' = n\<lparr>nt_next := nt_next n + length order, nt_clock := nt_clock n',
          nt_sent := nt_sent n @ concat (map (\<lambda>j. drop (length (nt_sent n)) (nt_sent (snd (c (order ! j) (at_turn n j (times j))))))
            [0..<length order])\<rparr> \<and>
        runLoad wild name workers (nt_clock n' - nt_clock n) st = Some rep \<and> r = Inr rep)"

section \<open>The steps of a run\<close>

text \<open>The token of the administrator, the stamp, the tokens of the users and the two activities.\<close>

record pressure_setup =
  ps_admin :: string
  ps_stamp :: string
  ps_tokens :: "string list"
  ps_duplicate :: int
  ps_stock :: int

definition prepare :: "string \<Rightarrow> string \<Rightarrow> string \<Rightarrow> pressure_flags \<Rightarrow> pressure_setup client" where
  "prepare base username password f =
     (if \<not> flags_valid f then fail (Failure ''invalid load configuration'')
      else if password = '''' then fail (Failure ''set ORDER_ADMIN_PASSWORD; credentials are never written to reports'')
      else
        cbind (api base ''POST'' ''/api/auth/login'' ''''
          (Some (JObj [(''password'', JStr password), (''username'', JStr (if username = '''' then ''admin'' else username))]))
          200 decode_token) (\<lambda>admin.
        cbind (\<lambda>n. (Inr (itoa (nt_clock n)), n)) (\<lambda>stamp.
        cbind (client_each (\<lambda>i. client_register base (''p'' @ stamp @ ''_'' @ itoa i)) [0..pf_users f - 1]) (\<lambda>tokens.
        cbind (client_activity base admin (stamp @ ''-duplicate'') 5) (\<lambda>duplicate.
        cbind (client_activity base admin (stamp @ ''-stock'') (pf_stock f)) (\<lambda>stock.
        give \<lparr>ps_admin = admin, ps_stamp = stamp, ps_tokens = tokens, ps_duplicate = duplicate, ps_stock = stock\<rparr>))))))"

definition duplicate_run :: "(f64 \<Rightarrow> int) \<Rightarrow> string \<Rightarrow> pressure_flags \<Rightarrow> pressure_setup \<Rightarrow> report run" where
  "duplicate_run wild base f s =
     load_run wild ''same_user_duplicate'' (pf_workers f) (pf_duplicates f) 0
       (\<lambda>k. post_order base (ps_duplicate s) (ps_tokens s ! 0) (''d'' @ ps_stamp s @ ''-'' @ itoa (int k)))"

definition stock_run :: "(f64 \<Rightarrow> int) \<Rightarrow> string \<Rightarrow> pressure_flags \<Rightarrow> pressure_setup \<Rightarrow> report run" where
  "stock_run wild base f s =
     load_run wild ''multi_user_stock'' (pf_workers f) (pf_users f) 0
       (\<lambda>k. post_order base (ps_stock s) (ps_tokens s ! k) (''s'' @ ps_stamp s @ ''-'' @ itoa (int k)))"

definition write_request :: "string \<Rightarrow> pressure_flags \<Rightarrow> pressure_setup \<Rightarrow> int list \<Rightarrow> nat \<Rightarrow> net \<Rightarrow> sample \<times> net" where
  "write_request base f s ids k =
     (case write_target f (int k) of (batch, user) \<Rightarrow>
        post_order base (ids ! nat batch) (ps_tokens s ! nat user) (''w'' @ ps_stamp s @ ''-'' @ itoa (int k)))"

definition check_batches :: "string \<Rightarrow> pressure_flags \<Rightarrow> pressure_setup \<Rightarrow> int list \<Rightarrow> client_error option list client" where
  "check_batches base f s ids =
     client_each (\<lambda>(batch, i).
         cbind (verify_run (client_verify base (ps_admin s) i (batch_stock f (int batch)) (batch_stock f (int batch))))
           (\<lambda>(_, _, e). give e))
       (enumerate 0 ids)"

definition write_run :: "(f64 \<Rightarrow> int) \<Rightarrow> string \<Rightarrow> pressure_flags \<Rightarrow> pressure_setup \<Rightarrow>
    (report \<times> client_error option list) option run" where
  "write_run wild base f s =
     (if pf_writes f \<le> 0 then perform (give None)
      else
        followed_by (perform (client_each (\<lambda>batch.
            client_activity base (ps_admin s) (ps_stamp s @ ''-write-'' @ itoa batch) (batch_stock f batch))
          [0..batch_count f - 1])) (\<lambda>ids.
        followed_by (load_run wild ''valid_order_writes'' (pf_workers f) (pf_writes f) 0 (write_request base f s ids)) (\<lambda>r.
        followed_by (perform (\<lambda>n. (Inr (nt_clock n), n))) (\<lambda>settle_start.
        followed_by (perform (check_batches base f s ids)) (\<lambda>checks.
        perform (\<lambda>n. give (Some (r\<lparr>rp_verification := Some (Batches ids (pf_writes f)
            (tally 202 (rp_statuses r) = pf_writes f \<and> list_all (\<lambda>e. e = None) checks)
            (f_seconds (nt_clock n - settle_start)))\<rparr>, checks)) n))))))"

definition query_run :: "(f64 \<Rightarrow> int) \<Rightarrow> string \<Rightarrow> pressure_flags \<Rightarrow> pressure_setup \<Rightarrow> string \<Rightarrow> report option run" where
  "query_run wild base f s orderNo =
     (let read = (\<lambda>k n. case client_request base ''GET'' (''/api/orders/'' @ orderNo) (ps_tokens s ! 0) None n of
            ((sm, _, _), n') \<Rightarrow> (sm, n')) in
      if orderNo = '''' then perform (give None)
      else
        followed_by (load_run wild ''warmup'' (pf_workers f) (pf_workers f) 0 read) (\<lambda>_.
        followed_by (load_run wild ''sustained_order_query'' (pf_workers f) 0 (pf_duration f) read) (\<lambda>r.
        perform (give (Some r)))))"

definition execute :: "(f64 \<Rightarrow> int) \<Rightarrow> string \<Rightarrow> string \<Rightarrow> string \<Rightarrow> pressure_flags \<Rightarrow> (report list \<times> complaint list) run" where
  "execute wild base username password f =
     followed_by (perform (prepare base username password f)) (\<lambda>s.
     followed_by (duplicate_run wild base f s) (\<lambda>d.
     followed_by (stock_run wild base f s) (\<lambda>t.
     followed_by (perform (verify_run (client_verify base (ps_admin s) (ps_duplicate s) 5 (tally 202 (rp_statuses d))))) (\<lambda>(v1, orderNo, e1).
     followed_by (perform (verify_run (client_verify base (ps_admin s) (ps_stock s) (pf_stock f) (tally 202 (rp_statuses t))))) (\<lambda>(v2, _, e2).
     followed_by (write_run wild base f s) (\<lambda>w.
     followed_by (query_run wild base f s orderNo) (\<lambda>q.
     (let d' = d\<lparr>rp_activity := ps_duplicate s, rp_verification := v1\<rparr>;
          t' = t\<lparr>rp_activity := ps_stock s, rp_verification := v2\<rparr> in
      perform (give ([d', t'] @ (case w of None \<Rightarrow> [] | Some (r, _) \<Rightarrow> [r]) @ (case q of None \<Rightarrow> [] | Some r \<Rightarrow> [r]),
        pressure_complaints f d' e1 t' e2 w q))))))))))"


section \<open>Every index of a load has its token and activity\<close>

lemma cbind_ok: "cbind m f n = (Inr y, n') \<longleftrightarrow> (\<exists>x n1. m n = (Inr x, n1) \<and> f x n1 = (Inr y, n'))"
  by (auto simp: cbind_def split: prod.splits sum.splits)

lemma give_ok [simp]: "give x n = (r, n') \<longleftrightarrow> r = Inr x \<and> n' = n"
  by (auto simp: give_def)

lemma fail_not_ok [simp]: "fail e n \<noteq> (Inr x, n')"
  by (simp add: fail_def)

lemma client_each_length: "client_each f xs n = (Inr as, n') \<Longrightarrow> length as = length xs"
  by (induction xs arbitrary: as n n') (auto simp: cbind_ok)

lemma prepared:
  assumes "prepare base u p f n = (Inr s, n')"
  shows "flags_valid f" and "int (length (ps_tokens s)) = pf_users f"
proof -
  show v: "flags_valid f" using assms by (auto simp: prepare_def split: if_splits)
  then have "0 < pf_users f" by (simp add: flags_valid_def)
  then show "int (length (ps_tokens s)) = pf_users f"
    using assms by (auto simp: prepare_def cbind_ok dest!: client_each_length split: if_splits)
qed

lemma followed_by_ok: "followed_by m f n (Inr y) n' \<longleftrightarrow> (\<exists>x n1. m n (Inr x) n1 \<and> f x n1 (Inr y) n')"
  by (auto simp: followed_by_def)

lemma followed_byE:
  assumes "followed_by m f n (Inr y) n'"
  obtains x n1 where "m n (Inr x) n1" and "f x n1 (Inr y) n'"
  using assms by (auto simp: followed_by_ok)

lemma load_indices:
  assumes "load_reachable k start 0 reqs call st" and "0 \<le> reqs" and "mset order = mset [0..<ld_next st]" and "j < length order"
  shows "int (order ! j) < reqs"
proof -
  have "order ! j \<in> set order" using assms(4) by simp
  then have "order ! j < ld_next st" using mset_eq_setD [OF assms(3)] by auto
  then show ?thesis using load_reachable_inv [OF assms(1,2)] by (simp add: load_inv_def)
qed

section \<open>What a run that passes has shown\<close>

lemma fold_samples_name: "rp_name (foldl add_sample r ss) = rp_name r"
  by (induction ss arbitrary: r) (simp_all add: add_sample_def)

lemma summary_counts:
  assumes "summarize wild name workers elapsed ss = Some r"
  shows "rp_name r = name" and "rp_requests r = int (length ss)" and "0 \<le> rp_errors r"
  using assms
  by (auto simp: summarize_def Let_def fold_samples fold_samples_name new_report_def split: if_splits option.splits)

lemma load_run_counts:
  assumes "load_run wild name workers reqs d c n (Inr r) n'"
  shows "rp_name r = name" and "0 \<le> rp_errors r" and "d = 0 \<Longrightarrow> 0 < workers \<Longrightarrow> 0 \<le> reqs \<Longrightarrow> rp_requests r = reqs"
proof -
  from assms obtain call st where st: "load_reachable (nat workers) (nt_clock n) d reqs call st" "all_returned st"
    and rep: "runLoad wild name workers (nt_clock n' - nt_clock n) st = Some r"
    unfolding load_run_def by auto
  from summary_counts [OF rep [unfolded runLoad_def]] show "rp_name r = name" "0 \<le> rp_errors r" by simp_all
  show "rp_requests r = reqs" if "d = 0" "0 < workers" "0 \<le> reqs"
    using load_makes_every_request [of "nat workers" "nt_clock n" reqs call st] st rep that by auto
qed

lemma no_error: "checked e = [] \<longleftrightarrow> e = None"
  by (simp add: checked_def split: option.splits)

lemma quiet_report: "report_complaints r = [] \<longleftrightarrow> rp_errors r \<le> 0 \<and>
    (rp_name r = ''sustained_order_query'' \<longrightarrow> rp_requests r \<noteq> 0 \<and> tally 200 (rp_statuses r) = rp_requests r)"
  by (auto simp: report_complaints_def)

lemma write_run_counts:
  assumes "write_run wild base f s n (Inr w) n'" and "flags_valid f"
  shows "case w of None \<Rightarrow> pf_writes f \<le> 0 | Some (r, checks) \<Rightarrow> rp_requests r = pf_writes f \<and> 0 \<le> rp_errors r"
proof (cases "pf_writes f \<le> 0")
  case True
  then show ?thesis using assms(1) by (auto simp: write_run_def perform_def)
next
  case False
  from assms(1) obtain ids n1 r n2 where
    l: "load_run wild ''valid_order_writes'' (pf_workers f) (pf_writes f) 0 (write_request base f s ids) n1 (Inr r) n2"
    and w: "\<exists>v checks. w = Some (r\<lparr>rp_verification := v\<rparr>, checks)"
    unfolding write_run_def by (auto elim!: followed_byE simp: False perform_def) blast
  have "0 < pf_workers f" using assms(2) by (simp add: flags_valid_def)
  then show ?thesis using load_run_counts [OF l] w False by auto
qed

lemma query_run_counts:
  assumes "query_run wild base f s no n (Inr (Some r)) n'"
  shows "0 \<le> rp_errors r"
proof -
  from assms obtain c n1 n2 where "load_run wild ''sustained_order_query'' (pf_workers f) 0 (pf_duration f) c n1 (Inr r) n2"
    by (auto simp: query_run_def Let_def followed_by_ok perform_def split: if_splits)
  then show ?thesis by (rule load_run_counts(2))
qed

lemma verified_run:
  assumes "perform (verify_run (client_verify base admin a initial accepted)) n (Inr (v, no, None)) n'"
  shows "\<exists>sec. v = Some (Checked True initial accepted accepted (wrap64 (initial - accepted)) True False sec)"
proof -
  from assms have "client_verify base admin a initial accepted n = ((v, no, None), n')"
    by (auto simp: perform_def verify_run_def split: prod.splits)
  from client_verify_sound [OF this] show ?thesis by blast
qed

text \<open>
  A run that passes has shown what it is for.  Of the requests of one user, all made, one was accepted; of as
  many requests as there are users, exactly as many as there was stock; for both the service persisted as many
  orders, lowered the stock by their number and agrees with Redis; every write was made and accepted; no
  request failed in the service; and the sustained queries, when there were any, were all answered.
\<close>

theorem passed_run_shows:
  assumes "execute wild base u p f n (Inr (reports, [])) n'"
  shows "\<exists>d t rest sec sec'. reports = d # t # rest \<and>
    rp_requests d = pf_duplicates f \<and> tally 202 (rp_statuses d) = 1 \<and>
    rp_verification d = Some (Checked True 5 1 1 4 True False sec) \<and>
    rp_requests t = pf_users f \<and> tally 202 (rp_statuses t) = pf_stock f \<and>
    rp_verification t = Some (Checked True (pf_stock f) (pf_stock f) (pf_stock f) 0 True False sec') \<and>
    (0 < pf_writes f \<longrightarrow> (\<exists>r\<in>set rest. rp_requests r = pf_writes f \<and> tally 202 (rp_statuses r) = pf_writes f)) \<and>
    (\<forall>r\<in>set reports. rp_errors r = 0 \<and> (rp_name r = ''sustained_order_query'' \<longrightarrow>
       rp_requests r \<noteq> 0 \<and> tally 200 (rp_statuses r) = rp_requests r))"
proof -
  from assms obtain s n1 d n2 t n3 v1 no e1 n4 v2 no' e2 n5 w n6 q where
    prep: "prepare base u p f n = (Inr s, n1)" and
    dup: "duplicate_run wild base f s n1 (Inr d) n2" and stk: "stock_run wild base f s n2 (Inr t) n3" and
    ver1: "perform (verify_run (client_verify base (ps_admin s) (ps_duplicate s) 5 (tally 202 (rp_statuses d)))) n3 (Inr (v1, no, e1)) n4" and
    ver2: "perform (verify_run (client_verify base (ps_admin s) (ps_stock s) (pf_stock f) (tally 202 (rp_statuses t)))) n4 (Inr (v2, no', e2)) n5" and
    wr: "write_run wild base f s n5 (Inr w) n6" and qr: "query_run wild base f s no n6 (Inr q) n'" and
    rep: "reports = [d\<lparr>rp_activity := ps_duplicate s, rp_verification := v1\<rparr>, t\<lparr>rp_activity := ps_stock s, rp_verification := v2\<rparr>] @
       (case w of None \<Rightarrow> [] | Some (r, _) \<Rightarrow> [r]) @ (case q of None \<Rightarrow> [] | Some r \<Rightarrow> [r])" and
    quiet: "pressure_complaints f (d\<lparr>rp_activity := ps_duplicate s, rp_verification := v1\<rparr>) e1
       (t\<lparr>rp_activity := ps_stock s, rp_verification := v2\<rparr>) e2 w q = []"
    unfolding execute_def by (auto elim!: followed_byE simp: perform_def Let_def)
  note v = prepared(1) [OF prep]
  then have pos: "0 < pf_workers f" "0 \<le> pf_duplicates f" "0 \<le> pf_users f" "pf_stock f \<le> 100" "0 < pf_stock f"
    by (auto simp: flags_valid_def)
  have cd: "rp_requests d = pf_duplicates f" "0 \<le> rp_errors d"
    using load_run_counts [OF dup [unfolded duplicate_run_def]] pos by simp_all
  have ct: "rp_requests t = pf_users f" "0 \<le> rp_errors t"
    using load_run_counts [OF stk [unfolded stock_run_def]] pos by simp_all
  from quiet have e: "e1 = None" "e2 = None" and acc: "tally 202 (rp_statuses d) = 1" "tally 202 (rp_statuses t) = pf_stock f"
    and qw: "case w of None \<Rightarrow> True | Some (r, checks) \<Rightarrow> tally 202 (rp_statuses r) = pf_writes f"
    and qr': "\<forall>r\<in>set reports. report_complaints r = []"
    unfolding rep pressure_complaints_def by (auto simp: no_error write_complaints_def split: if_splits option.splits)
  have small: "wrap64 4 = 4" "wrap64 0 = 0" by (simp_all add: wrap64_def)
  obtain sec where v1: "v1 = Some (Checked True 5 1 1 4 True False sec)"
    using verified_run ver1 [unfolded e acc] small by fastforce
  obtain sec' where v2: "v2 = Some (Checked True (pf_stock f) (pf_stock f) (pf_stock f) 0 True False sec')"
    using verified_run ver2 [unfolded e acc] small by fastforce
  have "0 \<le> rp_errors r" if "r \<in> set reports" for r
    using that cd(2) ct(2) write_run_counts [OF wr v] qr query_run_counts
    unfolding rep by (auto split: option.splits prod.splits)
  then have good: "\<forall>r\<in>set reports. rp_errors r = 0 \<and> (rp_name r = ''sustained_order_query'' \<longrightarrow>
       rp_requests r \<noteq> 0 \<and> tally 200 (rp_statuses r) = rp_requests r)"
    using qr' unfolding quiet_report by (meson order_antisym)
  have writes: "0 < pf_writes f \<Longrightarrow> \<exists>r checks. w = Some (r, checks) \<and> rp_requests r = pf_writes f \<and> tally 202 (rp_statuses r) = pf_writes f"
    using write_run_counts [OF wr v] qw by (auto split: option.splits prod.splits)
  show ?thesis
    by (rule exI, rule exI, rule exI, rule exI [of _ sec], rule exI [of _ sec'], intro conjI, rule rep [unfolded append_Cons append_Nil])
      (use cd(1) ct(1) acc v1 v2 good writes in auto)
qed

end
