(* ===== verification/Links.thy ===== *)
theory Links
  imports Config
begin

text \<open>
  The connections the program opens: \<^verbatim>\<open>NewRabbitQueue\<close>, \<^verbatim>\<open>Consume\<close> and \<^verbatim>\<open>Close\<close> of
  \<^verbatim>\<open>internal/service/rabbitmq.go\<close>, \<^verbatim>\<open>NewRedisStockStore\<close> and \<^verbatim>\<open>Close\<close> of
  \<^verbatim>\<open>internal/service/redis_stock.go\<close>, \<^verbatim>\<open>Open\<close> of \<^verbatim>\<open>internal/database/database.go\<close>, and the
  order in which \<^verbatim>\<open>cmd/server/main.go\<close> opens them.  What the drivers do is reduced to what the code
  has to look after: a call may fail (\<open>lk_fault\<close>), a successful dial yields a handle that stays open until it
  is closed.  Closing a handle is taken to release it; the error of a close is dropped by the code.
\<close>

section \<open>Handles\<close>

record links =
  lk_fault :: "nat \<Rightarrow> string option"
  lk_tick :: nat
  lk_open :: "nat list"
  lk_fresh :: nat
  lk_queues :: "string list"

type_synonym 'a linked = "links \<Rightarrow> (string + 'a) \<times> links"

definition lret :: "'a \<Rightarrow> 'a linked" where
  "lret x l = (Inr x, l)"

definition lfail :: "string \<Rightarrow> 'a linked" where
  "lfail e l = (Inl e, l)"

definition lbind :: "'a linked \<Rightarrow> ('a \<Rightarrow> 'b linked) \<Rightarrow> 'b linked" where
  "lbind m f l = (case m l of (Inl e, l') \<Rightarrow> (Inl e, l') | (Inr x, l') \<Rightarrow> f x l')"

text \<open>A call that may fail, and one that opens a handle.\<close>

definition link_call :: "unit linked" where
  "link_call l = (let l' = l\<lparr>lk_tick := Suc (lk_tick l)\<rparr> in
     case lk_fault l (lk_tick l) of Some e \<Rightarrow> (Inl e, l') | None \<Rightarrow> (Inr (), l'))"

definition link_open :: "nat linked" where
  "link_open = lbind link_call (\<lambda>_ l. (Inr (lk_fresh l), l\<lparr>lk_open := lk_fresh l # lk_open l, lk_fresh := Suc (lk_fresh l)\<rparr>))"

definition link_close :: "nat \<Rightarrow> links \<Rightarrow> links" where
  "link_close h l = l\<lparr>lk_tick := Suc (lk_tick l), lk_open := filter (\<lambda>x. x \<noteq> h) (lk_open l)\<rparr>"

definition declare_queue :: "string \<Rightarrow> unit linked" where
  "declare_queue name = lbind link_call (\<lambda>_ l. (Inr (), l\<lparr>lk_queues := List.insert name (lk_queues l)\<rparr>))"

text \<open>\<open>if err != nil { close the handles; return err }\<close>\<close>

definition or_close :: "nat list \<Rightarrow> 'a linked \<Rightarrow> ('a \<Rightarrow> 'b linked) \<Rightarrow> 'b linked" where
  "or_close hs m f l = (case m l of (Inl e, l') \<Rightarrow> (Inl e, fold link_close hs l') | (Inr x, l') \<Rightarrow> f x l')"

section \<open>The broker\<close>

record RabbitQueue =
  rq_conn :: nat
  rq_publisher :: nat
  rq_queue :: string
  rq_deadLetterQueue :: string

definition NewRabbitQueue :: "string \<Rightarrow> RabbitQueue linked" where
  "NewRabbitQueue name =
     lbind link_open (\<lambda>conn.
     or_close [conn] link_open (\<lambda>publisher.
     or_close [publisher, conn] (declare_queue name) (\<lambda>_.
     or_close [publisher, conn] (declare_queue (name @ ''.dlq'')) (\<lambda>_.
     lret \<lparr>rq_conn = conn, rq_publisher = publisher, rq_queue = name, rq_deadLetterQueue = name @ ''.dlq''\<rparr>))))"

text \<open>The channel of the deliveries.\<close>

definition rabbit_Consume :: "RabbitQueue \<Rightarrow> nat linked" where
  "rabbit_Consume q =
     lbind link_open (\<lambda>consumer.
     or_close [consumer] (declare_queue (rq_queue q)) (\<lambda>_.
     or_close [consumer] link_call (\<lambda>_.
     or_close [consumer] link_call (\<lambda>_.
     lret consumer))))"

definition rabbit_Close :: "RabbitQueue \<Rightarrow> unit linked" where
  "rabbit_Close q l = lbind link_call (\<lambda>_. lret ()) (link_close (rq_conn q) (link_close (rq_publisher q) l))"

section \<open>Redis and the database\<close>

definition NewRedisStockStore :: "nat linked" where
  "NewRedisStockStore =
     lbind (\<lambda>l. (Inr (lk_fresh l), l\<lparr>lk_open := lk_fresh l # lk_open l, lk_fresh := Suc (lk_fresh l)\<rparr>)) (\<lambda>client.
     or_close [client] link_call (\<lambda>_. lret client))"

text \<open>The pool: open connections (0: no limit), idle connections, their life time.\<close>

datatype pool = SingleConnection | Pool int int duration

definition pool_settings :: "Config \<Rightarrow> pool" where
  "pool_settings cfg =
     (if cf_DBDriver cfg = ''sqlite'' \<or> cf_DBDriver cfg = '''' then SingleConnection
      else Pool (cf_DBMaxOpenConns cfg) (cf_DBMaxIdleConns cfg) (seconds_duration (cf_DBConnMaxLifetimeSeconds cfg)))"

text \<open>
  The statements of the migration are one call each here; what they do to the tables is
  \<open>open_migrations\<close> of theory \<^theory_text>\<open>Store\<close>.
\<close>

definition database_Open :: "Config \<Rightarrow> (nat \<times> pool) linked" where
  "database_Open cfg =
     lbind (if cf_DBDriver cfg = ''mysql'' then lret ()
            else if cf_DBDriver cfg = ''sqlite'' \<or> cf_DBDriver cfg = '''' then link_call
            else lfail (''unsupported db driver: '' @ cf_DBDriver cfg)) (\<lambda>_.
     lbind link_open (\<lambda>db.
     lbind link_call (\<lambda>_.
     lbind link_call (\<lambda>_.
     lbind link_call (\<lambda>_.
     lbind link_call (\<lambda>_.
     lbind link_call (\<lambda>_.
     lret (db, pool_settings cfg))))))))"

text \<open>\<open>main\<close>: the database, then Redis and the broker when they are enabled; the first error ends the program.\<close>

definition main_connect :: "Config \<Rightarrow> (nat \<times> nat option \<times> RabbitQueue option) linked" where
  "main_connect cfg =
     lbind (database_Open cfg) (\<lambda>(db, _).
     lbind (if cf_RedisEnabled cfg then lbind NewRedisStockStore (\<lambda>c. lret (Some c)) else lret None) (\<lambda>redis.
     lbind (if cf_RabbitEnabled cfg then lbind (NewRabbitQueue (cf_RabbitQueue cfg)) (\<lambda>q. lret (Some q)) else lret None) (\<lambda>rabbit.
     lret (db, redis, rabbit))))"

section \<open>No handle is lost\<close>

text \<open>The handles a run leaves open: those before, and on success those of the value.\<close>

definition links_wf :: "links \<Rightarrow> bool" where
  "links_wf l \<longleftrightarrow> (\<forall>h\<in>set (lk_open l). h < lk_fresh l)"

definition accounts :: "('a \<Rightarrow> nat list) \<Rightarrow> 'a linked \<Rightarrow> bool" where
  "accounts owns m \<longleftrightarrow> (\<forall>l r l'. links_wf l \<longrightarrow> m l = (r, l') \<longrightarrow>
     links_wf l' \<and> lk_fresh l \<le> lk_fresh l' \<and>
     lk_open l' = (case r of Inl _ \<Rightarrow> lk_open l | Inr x \<Rightarrow> owns x @ lk_open l))"

lemmas link_defs = lret_def lfail_def lbind_def link_call_def link_open_def link_close_def declare_queue_def or_close_def

lemma filter_fresh:
  assumes "\<forall>h\<in>set hs. h < (n :: nat)"
  shows "filter (\<lambda>x. x \<noteq> n) hs = hs" "filter (\<lambda>x. x \<noteq> Suc n) hs = hs" "filter (\<lambda>x. x \<noteq> Suc n \<and> x \<noteq> n) hs = hs"
  using assms by (auto simp: filter_id_conv)

lemmas account_eval = accounts_def link_defs links_wf_def filter_fresh Let_def

lemma queue_accounts: "accounts (\<lambda>q. [rq_publisher q, rq_conn q]) (NewRabbitQueue name)"
  by (auto simp: NewRabbitQueue_def account_eval split: option.splits prod.splits sum.splits)

lemma consumer_accounts: "accounts (\<lambda>c. [c]) (rabbit_Consume q)"
  by (auto simp: rabbit_Consume_def account_eval split: option.splits prod.splits sum.splits)

lemma client_accounts: "accounts (\<lambda>c. [c]) NewRedisStockStore"
  by (auto simp: NewRedisStockStore_def account_eval split: option.splits prod.splits sum.splits)

lemma queue_declared:
  "NewRabbitQueue name l = (Inr q, l') \<Longrightarrow> {name, name @ ''.dlq''} \<subseteq> set (lk_queues l') \<and> rq_queue q = name"
  by (auto simp: NewRabbitQueue_def link_defs Let_def split: option.splits)

lemma queue_closed:
  "lk_open (snd (rabbit_Close q l)) = filter (\<lambda>h. h \<noteq> rq_conn q \<and> h \<noteq> rq_publisher q) (lk_open l)"
  by (auto simp: rabbit_Close_def link_defs Let_def split: option.splits intro!: filter_cong)

text \<open>\<open>Open\<close> keeps the pool open when a migration fails; \<open>main\<close> ends the process then.\<close>

lemma database_open_accounts:
  "database_Open cfg l = (Inr (db, p), l') \<Longrightarrow> links_wf l \<Longrightarrow>
     links_wf l' \<and> lk_open l' = db # lk_open l \<and> p = pool_settings cfg"
  by (auto simp: database_Open_def account_eval less_SucI split: option.splits if_splits)

lemma database_open_error:
  "database_Open cfg l = (Inl e, l') \<Longrightarrow> lk_open l' = lk_open l \<or> lk_open l' = lk_fresh l # lk_open l"
  by (auto simp: database_Open_def account_eval split: option.splits if_splits)

lemma lbindE:
  assumes "lbind m f l = (Inr y, l')"
  obtains x l1 where "m l = (Inr x, l1)" and "f x l1 = (Inr y, l')"
  using assms by (auto simp: lbind_def split: prod.splits sum.splits)

lemma accounts_run:
  "accounts owns m \<Longrightarrow> links_wf l \<Longrightarrow> m l = (r, l') \<Longrightarrow>
     links_wf l' \<and> lk_open l' = (case r of Inl _ \<Rightarrow> lk_open l | Inr x \<Rightarrow> owns x @ lk_open l)"
  unfolding accounts_def by blast

lemma accountsD: "accounts owns m \<Longrightarrow> links_wf l \<Longrightarrow> m l = (Inr x, l') \<Longrightarrow> links_wf l' \<and> lk_open l' = owns x @ lk_open l"
  using accounts_run [of owns m l "Inr x" l'] by simp

lemma accounts_case:
  "accounts owns m \<Longrightarrow> links_wf l \<Longrightarrow>
     (case m l of (Inl _, l') \<Rightarrow> lk_open l' = lk_open l | (Inr x, l') \<Rightarrow> lk_open l' = owns x @ lk_open l)"
  using accounts_run [of owns m l "fst (m l)" "snd (m l)"] by (cases "m l"; cases "fst (m l)") simp_all

lemma optional_accounts:
  assumes "(if b then lbind m (\<lambda>c. lret (Some c)) else lret None) l = (Inr x, l')" and "accounts owns m" and "links_wf l"
  shows "links_wf l' \<and> lk_open l' = (case x of None \<Rightarrow> [] | Some c \<Rightarrow> owns c) @ lk_open l \<and> (x \<noteq> None \<longleftrightarrow> b)"
proof (cases b)
  case True
  with assms(1) have "lbind m (\<lambda>c. lret (Some c)) l = (Inr x, l')" by (simp only: if_True)
  then obtain c where "m l = (Inr c, l')" "x = Some c" by (elim lbindE) (simp add: lret_def)
  with accountsD [OF assms(2,3)] True show ?thesis by auto
next
  case False
  with assms(1,3) show ?thesis by (auto simp: lret_def)
qed

lemma main_connect_accounts:
  assumes "main_connect cfg l = (Inr (db, redis, rabbit), l')" and "links_wf l"
  shows "lk_open l' = (case rabbit of None \<Rightarrow> [] | Some q \<Rightarrow> [rq_publisher q, rq_conn q]) @
      (case redis of None \<Rightarrow> [] | Some c \<Rightarrow> [c]) @ [db] @ lk_open l \<and>
    (rabbit \<noteq> None \<longleftrightarrow> cf_RabbitEnabled cfg) \<and> (redis \<noteq> None \<longleftrightarrow> cf_RedisEnabled cfg)"
  using assms(1) unfolding main_connect_def
proof (elim lbindE)
  fix x l1
  assume db: "database_Open cfg l = (Inr x, l1)"
    and rest: "(case x of (db, _) \<Rightarrow> lbind (if cf_RedisEnabled cfg then lbind NewRedisStockStore (\<lambda>c. lret (Some c)) else lret None) (\<lambda>redis.
     lbind (if cf_RabbitEnabled cfg then lbind (NewRabbitQueue (cf_RabbitQueue cfg)) (\<lambda>q. lret (Some q)) else lret None) (\<lambda>rabbit.
     lret (db, redis, rabbit)))) l1 = (Inr (db, redis, rabbit), l')"
  obtain d p where x: "x = (d, p)" by (cases x)
  from rest [unfolded x prod.case] obtain l2
    where rd: "(if cf_RedisEnabled cfg then lbind NewRedisStockStore (\<lambda>c. lret (Some c)) else lret None) l1 = (Inr redis, l2)"
      and rb: "(if cf_RabbitEnabled cfg then lbind (NewRabbitQueue (cf_RabbitQueue cfg)) (\<lambda>q. lret (Some q)) else lret None) l2 = (Inr rabbit, l')"
      and d: "d = db"
    by (elim lbindE) (simp add: lret_def)
  from database_open_accounts [OF db [unfolded x] assms(2)] d have 1: "links_wf l1" "lk_open l1 = db # lk_open l" by simp_all
  from optional_accounts [OF rd client_accounts 1(1)] have 2: "links_wf l2"
    "lk_open l2 = (case redis of None \<Rightarrow> [] | Some c \<Rightarrow> [c]) @ lk_open l1" "redis \<noteq> None \<longleftrightarrow> cf_RedisEnabled cfg" by simp_all
  from optional_accounts [OF rb queue_accounts 2(1)] 1(2) 2 show ?thesis by simp
qed

text \<open>
  C20: an opened connection is closed again or handed over.  When the broker's queue, a consumer or the Redis
  client cannot be set up, whichever step fails, everything opened on the way has been closed; when it can,
  exactly the handles of the result are open in addition, the queue and its dead-letter queue are
  declared, and closing the queue closes both of its handles.  A server that has connected holds the database
  and, in addition, Redis exactly when it is enabled and the broker exactly when it is enabled, and no other handle.
\<close>

theorem connections_accounted:
  assumes "links_wf l"
  shows "(case NewRabbitQueue name l of
      (Inl _, l') \<Rightarrow> lk_open l' = lk_open l
    | (Inr q, l') \<Rightarrow> lk_open l' = [rq_publisher q, rq_conn q] @ lk_open l \<and> {name, name @ ''.dlq''} \<subseteq> set (lk_queues l') \<and>
        lk_open (snd (rabbit_Close q l')) = lk_open l) \<and>
    (case rabbit_Consume q l of (Inl _, l') \<Rightarrow> lk_open l' = lk_open l | (Inr c, l') \<Rightarrow> lk_open l' = [c] @ lk_open l) \<and>
    (case NewRedisStockStore l of (Inl _, l') \<Rightarrow> lk_open l' = lk_open l | (Inr c, l') \<Rightarrow> lk_open l' = [c] @ lk_open l) \<and>
    (case main_connect cfg l of (Inl _, l') \<Rightarrow> True
     | (Inr (db, redis, rabbit), l') \<Rightarrow>
         lk_open l' = (case rabbit of None \<Rightarrow> [] | Some q \<Rightarrow> [rq_publisher q, rq_conn q]) @
           (case redis of None \<Rightarrow> [] | Some c \<Rightarrow> [c]) @ [db] @ lk_open l \<and>
         (redis \<noteq> None \<longleftrightarrow> cf_RedisEnabled cfg) \<and> (rabbit \<noteq> None \<longleftrightarrow> cf_RabbitEnabled cfg))"
proof (intro conjI)
  have fresh: "rq_conn x = lk_fresh l \<and> rq_publisher x = Suc (lk_fresh l)" if "NewRabbitQueue name l = (Inr x, l')" for x l'
    using that by (auto simp: NewRabbitQueue_def link_defs Let_def split: option.splits)
  show "case NewRabbitQueue name l of
      (Inl _, l') \<Rightarrow> lk_open l' = lk_open l
    | (Inr q, l') \<Rightarrow> lk_open l' = [rq_publisher q, rq_conn q] @ lk_open l \<and> {name, name @ ''.dlq''} \<subseteq> set (lk_queues l') \<and>
        lk_open (snd (rabbit_Close q l')) = lk_open l"
  proof (cases "NewRabbitQueue name l")
    case (Pair r l')
    show ?thesis
    proof (cases r)
      case (Inl e)
      with Pair accounts_run [OF queue_accounts assms Pair] show ?thesis by simp
    next
      case (Inr q)
      with Pair have run: "NewRabbitQueue name l = (Inr q, l')" by simp
      from accountsD [OF queue_accounts assms run] queue_declared [OF run] fresh [OF run] assms
      show ?thesis by (auto simp: run queue_closed links_wf_def filter_id_conv)
    qed
  qed
  show "case rabbit_Consume q l of (Inl _, l') \<Rightarrow> lk_open l' = lk_open l | (Inr c, l') \<Rightarrow> lk_open l' = [c] @ lk_open l"
    by (rule accounts_case [OF consumer_accounts assms])
  show "case NewRedisStockStore l of (Inl _, l') \<Rightarrow> lk_open l' = lk_open l | (Inr c, l') \<Rightarrow> lk_open l' = [c] @ lk_open l"
    by (rule accounts_case [OF client_accounts assms])
  show "case main_connect cfg l of (Inl _, l') \<Rightarrow> True
     | (Inr (db, redis, rabbit), l') \<Rightarrow>
         lk_open l' = (case rabbit of None \<Rightarrow> [] | Some q \<Rightarrow> [rq_publisher q, rq_conn q]) @
           (case redis of None \<Rightarrow> [] | Some c \<Rightarrow> [c]) @ [db] @ lk_open l \<and>
         (redis \<noteq> None \<longleftrightarrow> cf_RedisEnabled cfg) \<and> (rabbit \<noteq> None \<longleftrightarrow> cf_RabbitEnabled cfg)"
    using main_connect_accounts [OF _ assms] by (auto split: prod.splits sum.splits)
qed

text \<open>The fourth call fails: declaring the dead-letter queue, when connection and channel are open.\<close>

definition dead_letter_refused :: links where
  "dead_letter_refused = \<lparr>lk_fault = (\<lambda>k. if k = 3 then Some ''closed'' else None), lk_tick = 0, lk_open = [], lk_fresh = 0, lk_queues = []\<rparr>"

theorem connections_accounted_witness:
  "lk_open (snd (NewRabbitQueue ''q'' dead_letter_refused)) = [] \<and> isl (fst (NewRabbitQueue ''q'' dead_letter_refused))"
proof -
  have "links_wf dead_letter_refused" by (simp add: links_wf_def dead_letter_refused_def)
  note c = connections_accounted [OF this, of "''q''", THEN conjunct1]
  have "isl (fst (NewRabbitQueue ''q'' dead_letter_refused))"
    by (simp add: NewRabbitQueue_def link_defs Let_def dead_letter_refused_def)
  then obtain e l' where "NewRabbitQueue ''q'' dead_letter_refused = (Inl e, l')"
    by (cases "NewRabbitQueue ''q'' dead_letter_refused") (auto simp: isl_def)
  with c show ?thesis by (simp add: dead_letter_refused_def)
qed

end
