(* ===== verification/Limiter.thy ===== *)
theory Limiter
  imports Float64
begin

text \<open>
  \<^verbatim>\<open>internal/middleware/rate_limit.go\<close>: the token bucket in front of the order endpoint.  Its
  numbers are \<open>float64\<close> and every operation rounds; the mutex makes \<open>allow\<close> one step on the
  state.  The clock readings are arguments.
\<close>

record TokenBucketConfig =
  tc_rps :: f64
  tc_burst :: int

record TokenBucketLimiter =
  tb_rps :: f64
  tb_burst :: f64
  tb_tokens :: f64
  tb_last :: instant

definition NewTokenBucketLimiter :: "(f64 \<Rightarrow> int) \<Rightarrow> TokenBucketConfig \<Rightarrow> instant \<Rightarrow> TokenBucketLimiter" where
  "NewTokenBucketLimiter wild cfg now =
     (let rps = (if tc_rps cfg \<le> Fin 0 then Fin 20 else tc_rps cfg);
          burst0 = (if tc_burst cfg \<le> 0 then f_to_int wild rps else tc_burst cfg);
          burst = (if burst0 \<le> 0 then 1 else burst0) in
      \<lparr>tb_rps = rps, tb_burst = f_of_int burst, tb_tokens = f_of_int burst, tb_last = now\<rparr>)"

definition refill :: "instant \<Rightarrow> TokenBucketLimiter \<Rightarrow> TokenBucketLimiter" where
  "refill now l =
     (let elapsed = f_seconds (time_sub now (tb_last l)) in
      if Fin 0 < elapsed then
        (let tokens = f_add (tb_tokens l) (f_mul elapsed (tb_rps l)) in
         l\<lparr>tb_tokens := (if tb_burst l < tokens then tb_burst l else tokens), tb_last := now\<rparr>)
      else l)"

definition allow :: "instant \<Rightarrow> TokenBucketLimiter \<Rightarrow> bool \<times> TokenBucketLimiter" where
  "allow now l0 =
     (let l = refill now l0 in
      if tb_tokens l < Fin 1 then (False, l)
      else (True, l\<lparr>tb_tokens := f_sub (tb_tokens l) (Fin 1)\<rparr>))"

fun arrivals :: "instant list \<Rightarrow> TokenBucketLimiter \<Rightarrow> bool list \<times> TokenBucketLimiter" where
  "arrivals [] l = ([], l)"
| "arrivals (t # ts) l = (let (b, l1) = allow t l; (bs, l2) = arrivals ts l1 in (b # bs, l2))"

lemma arrivals_Cons [simp]:
  "fst (arrivals (t # ts) l) = fst (allow t l) # fst (arrivals ts (snd (allow t l)))"
  "snd (arrivals (t # ts) l) = snd (arrivals ts (snd (allow t l)))"
  by (simp_all add: split_beta Let_def)

declare arrivals.simps(2) [simp del]

lemma time_sub_same [simp]: "time_sub t t = 0"
  by (simp add: time_sub_def in_i64_def)

section \<open>The bucket stays between empty and full\<close>

definition bucket_ok :: "TokenBucketLimiter \<Rightarrow> bool" where
  "bucket_ok l \<longleftrightarrow> Fin 0 < tb_rps l \<and> (\<exists>b t. 1 \<le> b \<and> b \<le> 2 ^ 52 \<and> tb_burst l = Fin (of_int b) \<and>
     tb_tokens l = Fin t \<and> round53 t = t \<and> 0 \<le> t \<and> t \<le> of_int b)"

lemma new_bucket_ok:
  assumes "Fin 0 < tc_rps cfg" and "1 \<le> tc_burst cfg" and "tc_burst cfg \<le> 2 ^ 52"
  shows "bucket_ok (NewTokenBucketLimiter wild cfg now)"
proof -
  have "f_of_int (tc_burst cfg) = Fin (of_int (tc_burst cfg))" using assms by (intro f_of_int_exact) simp
  moreover have "round53 (of_int (tc_burst cfg)) = of_int (tc_burst cfg)" using assms by (intro round53_int) simp
  moreover have "\<not> tc_rps cfg \<le> Fin 0" using assms(1) by (cases "tc_rps cfg") auto
  ultimately show ?thesis using assms by (simp add: NewTokenBucketLimiter_def Let_def bucket_ok_def)
qed

lemma refill_ok:
  assumes ok: "bucket_ok l"
  shows "bucket_ok (refill now l)" and "tb_burst (refill now l) = tb_burst l" and "tb_rps (refill now l) = tb_rps l"
    and "tb_tokens l \<le> tb_tokens (refill now l)"
proof -
  from ok obtain b t where b: "1 \<le> b" "b \<le> 2 ^ 52" "tb_burst l = Fin (of_int b)" "tb_tokens l = Fin t" "round53 t = t"
    "0 \<le> t" "t \<le> of_int b" and rps: "Fin 0 < tb_rps l" unfolding bucket_ok_def by blast
  have rb: "round53 (of_int b) = of_int b" using b by (intro round53_int) simp
  have "bucket_ok (refill now l) \<and> tb_tokens l \<le> tb_tokens (refill now l)"
  proof (cases "Fin 0 < f_seconds (time_sub now (tb_last l))")
    case False
    then show ?thesis using ok b by (simp add: refill_def Let_def)
  next
    case True
    let ?add = "f_mul (f_seconds (time_sub now (tb_last l))) (tb_rps l)"
    have add: "Fin 0 \<le> ?add"
      using True rps by (cases "f_seconds (time_sub now (tb_last l))"; cases "tb_rps l")
        (auto simp: f_signed_inf_def intro: f_round_nonneg)
    show ?thesis
    proof (cases ?add)
      case (Fin a)
      with add have "0 \<le> a" by simp
      then have tr: "t \<le> round53 (t + a)" using round53_mono [of t "t + a"] b(5) by simp
      have "t < 2 ^ 1024"
      proof -
        have "of_int b \<le> (of_int (2 ^ 52) :: rat)" using b(2) unfolding of_int_le_iff .
        then have "t \<le> 2 ^ 52" using b(7) by simp
        then show ?thesis by (rule le_less_trans) simp
      qed
      then show ?thesis
        using True b rps tr Fin rb
        by (auto simp: refill_def Let_def bucket_ok_def f_round_def not_less intro!: exI [of _ b])
    qed (use True b rps rb add in \<open>auto simp: refill_def Let_def bucket_ok_def intro!: exI [of _ b]\<close>)
  qed
  then show "bucket_ok (refill now l)" "tb_tokens l \<le> tb_tokens (refill now l)" by blast+
  show "tb_burst (refill now l) = tb_burst l" "tb_rps (refill now l) = tb_rps l" by (simp_all add: refill_def Let_def)
qed

text \<open>Taking a token is exact: no rounding error accumulates while the clock stands still.\<close>

lemma take_token:
  assumes ok: "bucket_ok l" and t: "tb_tokens l = Fin t" "1 \<le> t"
  shows "f_sub (tb_tokens l) (Fin 1) = Fin (t - 1)" and "bucket_ok (l\<lparr>tb_tokens := Fin (t - 1)\<rparr>)"
proof -
  from ok t obtain b where b: "1 \<le> b" "b \<le> 2 ^ 52" "tb_burst l = Fin (of_int b)" "round53 t = t" "t \<le> of_int b"
    and rps: "Fin 0 < tb_rps l" unfolding bucket_ok_def by auto
  have "of_int b \<le> (of_int (2 ^ 52) :: rat)" using b(2) unfolding of_int_le_iff .
  then have lt: "t \<le> 2 ^ 52" using b(5) by simp
  then have r: "round53 (t - 1) = t - 1" using b(4) t(2) by (intro round53_pred) simp_all
  have "t - 1 < 2 ^ 1024" using lt by (intro le_less_trans [of "t - 1" "2 ^ 52"]) simp_all
  then have "f_round (t - 1) = Fin (t - 1)" using r t(2) by (intro f_round_exact) simp_all
  then show "f_sub (tb_tokens l) (Fin 1) = Fin (t - 1)" by (simp add: f_sub_def t)
  show "bucket_ok (l\<lparr>tb_tokens := Fin (t - 1)\<rparr>)"
    using b rps r t(2) by (auto simp: bucket_ok_def intro!: exI [of _ b])
qed

lemma allow_ok:
  assumes "bucket_ok l"
  shows "bucket_ok (snd (allow now l))"
proof -
  note r = refill_ok [OF assms, of now]
  show ?thesis
  proof (cases "tb_tokens (refill now l) < Fin 1")
    case True
    then show ?thesis using r by (simp add: allow_def Let_def)
  next
    case False
    from r(1) obtain t where t: "tb_tokens (refill now l) = Fin t" unfolding bucket_ok_def by blast
    with False have "1 \<le> t" by simp
    from take_token [OF r(1) t this] False show ?thesis by (simp add: allow_def Let_def)
  qed
qed

lemma arrivals_ok: "bucket_ok l \<Longrightarrow> bucket_ok (snd (arrivals ts l))"
  by (induction ts arbitrary: l) (simp_all add: allow_ok)

text \<open>A second look at the clock that shows the same time adds nothing.\<close>

lemma refill_again: "refill now ((refill now l)\<lparr>tb_tokens := x\<rparr>) = (refill now l)\<lparr>tb_tokens := x\<rparr>"
  by (simp add: refill_def Let_def f_seconds_zero)

lemma allow_again:
  assumes "bucket_ok (l\<lparr>tb_tokens := Fin t\<rparr>)" and "l = refill now l0"
  shows "arrivals (replicate n now) (l\<lparr>tb_tokens := Fin t\<rparr>) =
    (replicate (min n (nat \<lfloor>t\<rfloor>)) True @ replicate (n - nat \<lfloor>t\<rfloor>) False, l\<lparr>tb_tokens := Fin (t - of_nat (min n (nat \<lfloor>t\<rfloor>)))\<rparr>)"
  using assms
proof (induction n arbitrary: t)
  case (Suc n)
  have r: "refill now (l\<lparr>tb_tokens := Fin t\<rparr>) = l\<lparr>tb_tokens := Fin t\<rparr>"
    unfolding Suc.prems(2) by (rule refill_again)
  have t0: "0 \<le> t" using Suc.prems(1) by (auto simp: bucket_ok_def)
  show ?case
  proof (cases "1 \<le> t")
    case True
    from take_token [OF Suc.prems(1) _ True] have step: "f_sub (Fin t) (Fin 1) = Fin (t - 1)"
      "bucket_ok (l\<lparr>tb_tokens := Fin (t - 1)\<rparr>)" by simp_all
    obtain k where k: "nat \<lfloor>t\<rfloor> = Suc k" using True by (metis gr0_conv_Suc le_floor_iff of_int_1 zero_less_nat_eq zero_less_one order_less_le_trans)
    have k1: "nat \<lfloor>t - 1\<rfloor> = k" using k by simp
    from Suc.IH [OF step(2) Suc.prems(2)] have "arrivals (replicate n now) (l\<lparr>tb_tokens := Fin (t - 1)\<rparr>) =
      (replicate (min n k) True @ replicate (n - k) False, l\<lparr>tb_tokens := Fin (t - 1 - of_nat (min n k))\<rparr>)"
      by (simp only: k1)
    with True step(1) show ?thesis by (simp add: arrivals.simps(2) allow_def r Let_def k)
  next
    case False
    have z: "\<lfloor>t\<rfloor> = 0" using False t0 by (simp add: floor_eq_iff)
    from False Suc.IH [OF Suc.prems] z show ?thesis by (simp add: arrivals.simps(2) allow_def r Let_def)
  qed
qed simp

lemma allow_first: "allow now l = allow now (refill now l)"
proof -
  have "refill now (refill now l) = refill now l" using refill_again [where now = now and l = l and x = "tb_tokens (refill now l)"] by simp
  then show ?thesis by (simp add: allow_def)
qed

text \<open>
  C16: a burst is cut off exactly.  However many requests arrive at one reading of the clock, the
  limiter admits the first ones, as many as there are whole tokens after the refill, and refuses
  the rest; that is never more than the configured burst.  The condition is that the bucket is sound, a
  positive rate and a burst from 1 to \<open>2^52\<close>; \<open>NewTokenBucketLimiter\<close> makes such a bucket from such a rate
  and burst, and every request keeps it so.
\<close>

theorem limiter_burst:
  assumes "bucket_ok l"
  shows "\<exists>t. tb_tokens (refill now l) = Fin t \<and> Fin t \<le> tb_burst l \<and>
    fst (arrivals (replicate n now) l) = replicate (min n (nat \<lfloor>t\<rfloor>)) True @ replicate (n - nat \<lfloor>t\<rfloor>) False"
proof -
  note r = refill_ok [OF assms, of now]
  from r(1) obtain t where t: "tb_tokens (refill now l) = Fin t" "Fin t \<le> tb_burst (refill now l)"
    unfolding bucket_ok_def by auto
  have e: "(refill now l)\<lparr>tb_tokens := Fin t\<rparr> = refill now l" using t(1) by (cases "refill now l") simp
  have "arrivals (replicate n now) l = arrivals (replicate n now) (refill now l) \<or> n = 0"
    by (cases n) (simp_all add: arrivals.simps(2) allow_first [of now l, symmetric])
  then have "fst (arrivals (replicate n now) l) = fst (arrivals (replicate n now) (refill now l))" by auto
  also have "\<dots> = replicate (min n (nat \<lfloor>t\<rfloor>)) True @ replicate (n - nat \<lfloor>t\<rfloor>) False"
    using allow_again [where l = "refill now l" and t = t and ?l0.0 = l and now = now and n = n] r(1) e by simp
  finally show ?thesis using t r(2) by (intro exI [of _ t]) simp
qed

theorem limiter_burst_witness:
  "fst (arrivals [7, 7, 7] (NewTokenBucketLimiter (\<lambda>_. 0) \<lparr>tc_rps = Fin 1, tc_burst = 2\<rparr> 7)) = [True, True, False]"
proof -
  let ?l = "NewTokenBucketLimiter (\<lambda>_. 0) \<lparr>tc_rps = Fin 1, tc_burst = 2\<rparr> 7"
  have ok: "bucket_ok ?l" by (rule new_bucket_ok) simp_all
  have "refill 7 ?l = ?l"
    by (simp add: refill_def Let_def NewTokenBucketLimiter_def f_seconds_zero)
  moreover have "tb_tokens ?l = Fin 2" using f_of_int_exact [of 2] by (simp add: NewTokenBucketLimiter_def Let_def)
  ultimately obtain t where "t = 2" "fst (arrivals (replicate 3 7) ?l) = replicate (min 3 (nat \<lfloor>t\<rfloor>)) True @ replicate (3 - nat \<lfloor>t\<rfloor>) False"
    using limiter_burst [OF ok, of 7 3] by auto
  then show ?thesis by (simp add: numeral_eq_Suc)
qed

text \<open>
  A rate that is not a number switches the limiter off.  From the first request after
  start-up on, every request is admitted, because no comparison with a NaN holds.
\<close>

theorem limiter_nan_admits_all:
  assumes "tb_rps l = NaN" and "tb_last l < now" and "in_i64 (now - tb_last l)"
  shows "list_all id (fst (arrivals (now # ts) l))"
proof -
  have all: "list_all id (fst (arrivals ts l))" if "tb_tokens l = NaN" "tb_rps l = NaN" for ts and l :: TokenBucketLimiter
    using that
  proof (induction ts arbitrary: l)
    case (Cons t ts)
    have n: "tb_tokens (refill t l) = NaN" "tb_rps (refill t l) = NaN"
      using Cons.prems by (simp_all add: refill_def Let_def)
    then have "allow t l = (True, (refill t l)\<lparr>tb_tokens := NaN\<rparr>)"
      by (simp add: allow_def Let_def f_sub_def)
    with Cons.IH [of "(refill t l)\<lparr>tb_tokens := NaN\<rparr>"] n show ?case by simp
  qed simp
  obtain x where x: "f_seconds (now - tb_last l) = Fin x" "0 < x" using f_seconds_pos assms by force
  have "tb_tokens (refill now l) = NaN" "tb_rps (refill now l) = NaN"
    using assms x by (simp_all add: refill_def Let_def time_sub_def)
  then have "allow now l = (True, (refill now l)\<lparr>tb_tokens := NaN\<rparr>)" "tb_rps (refill now l) = NaN"
    by (simp_all add: allow_def Let_def f_sub_def)
  with all [of "(refill now l)\<lparr>tb_tokens := NaN\<rparr>" ts] show ?thesis by simp
qed

theorem limiter_nan_admits_all_witness:
  "list_all id (fst (arrivals [1, 1, 1, 1] (NewTokenBucketLimiter (\<lambda>_. 0) \<lparr>tc_rps = NaN, tc_burst = 1\<rparr> 0)))"
  by (rule limiter_nan_admits_all) (simp_all add: NewTokenBucketLimiter_def Let_def in_i64_def)

end
