(* ===== verification/Metrics.thy ===== *)
theory Metrics
  imports FloatText "HOL-Library.AList_Mapping" "HOL-Library.Word" "HOL-Library.List_Lexorder" "HOL-Library.Char_ord"
begin

text \<open>
  \<^verbatim>\<open>internal/metrics/metrics.go\<close>: counters of HTTP requests and business events, latency
  histograms, and their rendering in the text format of Prometheus.  Counters are \<open>uint64\<close>, that is
  64-bit words; the maps are finite mappings; the lock makes every operation one step.  Keys are
  ordered the way \<^verbatim>\<open>sort.Slice\<close> compares them, as instances of \<open>linorder\<close>.
\<close>

section \<open>Keys\<close>

datatype requestKey = RequestKey (rk_method: string) (rk_path: string) (rk_status: string)
datatype businessKey = BusinessKey (bk_event: string) (bk_result: string)
datatype bucketKey = BucketKey (bu_request: requestKey) (bu_le: string)

definition request_before :: "requestKey \<Rightarrow> requestKey \<Rightarrow> bool" where
  "request_before a b \<longleftrightarrow>
     (if rk_path a \<noteq> rk_path b then rk_path a < rk_path b
      else if rk_method a \<noteq> rk_method b then rk_method a < rk_method b
      else rk_status a < rk_status b)"

instantiation requestKey :: linorder
begin

definition less_requestKey :: "requestKey \<Rightarrow> requestKey \<Rightarrow> bool" where
  "less_requestKey a b \<longleftrightarrow> request_before a b"

definition less_eq_requestKey :: "requestKey \<Rightarrow> requestKey \<Rightarrow> bool" where
  "less_eq_requestKey a b \<longleftrightarrow> a = b \<or> a < b"

instance
proof
  fix x y z :: requestKey
  show "x < y \<longleftrightarrow> x \<le> y \<and> \<not> y \<le> x" by (auto simp: less_requestKey_def request_before_def less_eq_requestKey_def split: if_splits)
  show "x \<le> x" by (simp add: less_eq_requestKey_def)
  show "x \<le> y \<Longrightarrow> y \<le> z \<Longrightarrow> x \<le> z"
    by (auto simp: less_requestKey_def request_before_def less_eq_requestKey_def split: if_splits)
  show "x \<le> y \<Longrightarrow> y \<le> x \<Longrightarrow> x = y" by (auto simp: less_requestKey_def request_before_def less_eq_requestKey_def split: if_splits)
  show "x \<le> y \<or> y \<le> x"
    by (cases x; cases y) (auto simp: less_requestKey_def request_before_def less_eq_requestKey_def)
qed

end

definition business_before :: "businessKey \<Rightarrow> businessKey \<Rightarrow> bool" where
  "business_before a b \<longleftrightarrow>
     (if bk_event a \<noteq> bk_event b then bk_event a < bk_event b else bk_result a < bk_result b)"

instantiation businessKey :: linorder
begin

definition less_businessKey :: "businessKey \<Rightarrow> businessKey \<Rightarrow> bool" where
  "less_businessKey a b \<longleftrightarrow> business_before a b"

definition less_eq_businessKey :: "businessKey \<Rightarrow> businessKey \<Rightarrow> bool" where
  "less_eq_businessKey a b \<longleftrightarrow> a = b \<or> a < b"

instance
proof
  fix x y z :: businessKey
  show "x < y \<longleftrightarrow> x \<le> y \<and> \<not> y \<le> x" by (auto simp: less_businessKey_def business_before_def less_eq_businessKey_def split: if_splits)
  show "x \<le> x" by (simp add: less_eq_businessKey_def)
  show "x \<le> y \<Longrightarrow> y \<le> z \<Longrightarrow> x \<le> z"
    by (auto simp: less_businessKey_def business_before_def less_eq_businessKey_def split: if_splits)
  show "x \<le> y \<Longrightarrow> y \<le> x \<Longrightarrow> x = y" by (auto simp: less_businessKey_def business_before_def less_eq_businessKey_def split: if_splits)
  show "x \<le> y \<or> y \<le> x" by (cases x; cases y) (auto simp: less_businessKey_def business_before_def less_eq_businessKey_def)
qed

end

section \<open>The store\<close>

record metric_store =
  httpRequests :: "(requestKey, 64 word) mapping"
  httpDurationSum :: "(requestKey, f64) mapping"
  httpDuration :: "(bucketKey, 64 word) mapping"
  businessEvents :: "(businessKey, 64 word) mapping"

definition NewStore :: metric_store where
  "NewStore = \<lparr>httpRequests = Mapping.empty, httpDurationSum = Mapping.empty, httpDuration = Mapping.empty,
     businessEvents = Mapping.empty\<rparr>"

definition latencyBins :: "f64 list" where
  "latencyBins = map (\<lambda>(a, b). f_round (of_int a / of_int b))
     [(5, 1000), (1, 100), (25, 1000), (5, 100), (1, 10), (25, 100), (5, 10), (1, 1), (25, 10), (5, 1), (10, 1)]"

text \<open>\<open>m[k]++\<close> and \<open>m[k]\<close>: a key that is absent counts as zero.\<close>

definition inc :: "'k \<Rightarrow> ('k, 64 word) mapping \<Rightarrow> ('k, 64 word) mapping" where
  "inc k m = Mapping.map_default k 0 (\<lambda>v. v + 1) m"

definition count_of :: "('k, 64 word) mapping \<Rightarrow> 'k \<Rightarrow> 64 word" where
  "count_of m k = (case Mapping.lookup m k of Some v \<Rightarrow> v | None \<Rightarrow> 0)"

definition ObserveHTTPRequest :: "string \<Rightarrow> string \<Rightarrow> int \<Rightarrow> duration \<Rightarrow> metric_store \<Rightarrow> metric_store" where
  "ObserveHTTPRequest method path status d s =
     (let key = RequestKey method path (itoa status); seconds = f_seconds d;
          s1 = s\<lparr>httpRequests := inc key (httpRequests s),
                 httpDurationSum := Mapping.map_default key (Fin 0) (\<lambda>v. f_add v seconds) (httpDurationSum s)\<rparr> in
      foldl (\<lambda>st bin. if seconds \<le> bin
               then st\<lparr>httpDuration := inc (BucketKey key (formatFloat bin)) (httpDuration st)\<rparr> else st)
        s1 latencyBins)"

definition IncBusinessEvent :: "string \<Rightarrow> string \<Rightarrow> metric_store \<Rightarrow> metric_store" where
  "IncBusinessEvent event result s =
     s\<lparr>businessEvents := inc (BusinessKey event result) (businessEvents s)\<rparr>"

section \<open>Rendering\<close>

definition replace_char :: "char \<Rightarrow> string \<Rightarrow> string \<Rightarrow> string" where
  "replace_char c by s = concat (map (\<lambda>x. if x = c then by else [x]) s)"

definition escapeLabel :: "string \<Rightarrow> string" where
  "escapeLabel value =
     replace_char (CHR 0x22) [CHR 0x5C, CHR 0x22]
       (replace_char (CHR 0x0A) [CHR 0x5C, CHR ''n'']
         (replace_char (CHR 0x5C) [CHR 0x5C, CHR 0x5C] value))"

definition labelValue :: "string \<Rightarrow> string" where
  "labelValue value = [CHR 0x22] @ escapeLabel value @ [CHR 0x22]"

definition sortedRequestKeys :: "(requestKey, 'v) mapping \<Rightarrow> requestKey list" where
  "sortedRequestKeys values = Mapping.ordered_keys values"

definition sortedBusinessKeys :: "(businessKey, 'v) mapping \<Rightarrow> businessKey list" where
  "sortedBusinessKeys values = Mapping.ordered_keys values"

definition nl :: string where
  "nl = [CHR 0x0A]"

definition word_text :: "64 word \<Rightarrow> string" where
  "word_text v = utoa (unat v)"

definition request_labels :: "requestKey \<Rightarrow> string" where
  "request_labels key =
     ''method='' @ labelValue (rk_method key) @ '',path='' @ labelValue (rk_path key) @
     '',status='' @ labelValue (rk_status key)"

definition request_line :: "metric_store \<Rightarrow> requestKey \<Rightarrow> string" where
  "request_line s key =
     ''go_order_http_requests_total{'' @ request_labels key @ ''} '' @ word_text (count_of (httpRequests s) key) @ nl"

definition bucket_line :: "requestKey \<Rightarrow> string \<Rightarrow> 64 word \<Rightarrow> string" where
  "bucket_line key le v =
     ''go_order_http_request_duration_seconds_bucket{'' @ request_labels key @ '',le='' @ labelValue le @ ''} '' @
     word_text v @ nl"

definition histogram_lines :: "metric_store \<Rightarrow> requestKey \<Rightarrow> string" where
  "histogram_lines s key =
     concat (map (\<lambda>bin. let le = formatFloat bin in
       bucket_line key le (count_of (httpDuration s) (BucketKey key le))) latencyBins) @
     bucket_line key ''+Inf'' (count_of (httpRequests s) key) @
     ''go_order_http_request_duration_seconds_sum{'' @ request_labels key @ ''} '' @
       formatFloat (case Mapping.lookup (httpDurationSum s) key of Some v \<Rightarrow> v | None \<Rightarrow> Fin 0) @ nl @
     ''go_order_http_request_duration_seconds_count{'' @ request_labels key @ ''} '' @
       word_text (count_of (httpRequests s) key) @ nl"

definition business_line :: "metric_store \<Rightarrow> businessKey \<Rightarrow> string" where
  "business_line s key =
     ''go_order_business_events_total{event='' @ labelValue (bk_event key) @ '',result='' @
     labelValue (bk_result key) @ ''} '' @ word_text (count_of (businessEvents s) key) @ nl"

definition RenderPrometheus :: "metric_store \<Rightarrow> string" where
  "RenderPrometheus s =
     ''# HELP go_order_http_requests_total Total HTTP requests handled by the service.'' @ nl @
     ''# TYPE go_order_http_requests_total counter'' @ nl @
     concat (map (request_line s) (sortedRequestKeys (httpRequests s))) @
     ''# HELP go_order_http_request_duration_seconds HTTP request latency histogram.'' @ nl @
     ''# TYPE go_order_http_request_duration_seconds histogram'' @ nl @
     concat (map (histogram_lines s) (sortedRequestKeys (httpRequests s))) @
     ''# HELP go_order_business_events_total Business events emitted by order workflows.'' @ nl @
     ''# TYPE go_order_business_events_total counter'' @ nl @
     concat (map (business_line s) (sortedBusinessKeys (businessEvents s)))"

section \<open>The labels of the bins\<close>

lemma bin_labels:
  "map formatFloat latencyBins =
     [''0.005'', ''0.01'', ''0.025'', ''0.05'', ''0.1'', ''0.25'', ''0.5'', ''1'', ''2.5'', ''5'', ''10'']"
proof -
  have u: "utoa 1 = ''1''" "utoa 5 = ''5''" "utoa 25 = ''25''"
    by (simp_all add: utoa.simps digit_char_def)
  have z: "replicate 2 c = [c, c]" for c :: char by (simp add: numeral_2_eq_2)
  show ?thesis
    using one_digit_labels two_digit_labels by (simp add: latencyBins_def point_text_def Let_def u [simplified] z)
qed

section \<open>Labels cannot be forged\<close>

text \<open>A reader of the text format: the value up to the closing quote, and what follows it.\<close>

fun read_label :: "string \<Rightarrow> (string \<times> string) option" where
  "read_label [] = None"
| "read_label (c # s) =
     (if c = CHR 0x22 then Some ([], s)
      else if c = CHR 0x5C then
        (case s of [] \<Rightarrow> None
         | d # s' \<Rightarrow> map_option (apfst ((#) (if d = CHR ''n'' then CHR 0x0A else d))) (read_label s'))
      else if c = CHR 0x0A then None
      else map_option (apfst ((#) c)) (read_label s))"

definition escape_one :: "char \<Rightarrow> string" where
  "escape_one c =
     (if c = CHR 0x5C then [CHR 0x5C, CHR 0x5C] else if c = CHR 0x0A then [CHR 0x5C, CHR ''n'']
      else if c = CHR 0x22 then [CHR 0x5C, CHR 0x22] else [c])"

lemma replace_char_append: "replace_char c r (a @ b) = replace_char c r a @ replace_char c r b"
  by (simp add: replace_char_def)

lemma escapeLabel_chars: "escapeLabel v = concat (map escape_one v)"
proof (induction v)
  case (Cons c v)
  have "escapeLabel (c # v) = escapeLabel [c] @ escapeLabel v"
    using replace_char_append [of _ _ "[c]" v] by (simp add: escapeLabel_def replace_char_append replace_char_def)
  moreover have "escapeLabel [c] = escape_one c"
    by (simp add: escapeLabel_def replace_char_def escape_one_def)
  ultimately show ?case using Cons by simp
qed (simp add: escapeLabel_def replace_char_def)

text \<open>
  C18: a label value is read back exactly as it was, whatever bytes it holds, and a rendered label
  never contains a line break; so no request path or method can forge a second metric line.
\<close>

theorem label_round_trip:
  "read_label (escapeLabel v @ [CHR 0x22] @ rest) = Some (v, rest) \<and> CHR 0x0A \<notin> set (labelValue v)"
proof -
  have "read_label (concat (map escape_one v) @ CHR 0x22 # rest) = Some (v, rest)"
    by (induction v) (auto simp: escape_one_def)
  moreover have "CHR 0x0A \<notin> set (concat (map escape_one v))"
    by (induction v) (auto simp: escape_one_def)
  ultimately show ?thesis by (simp add: escapeLabel_chars labelValue_def)
qed

section \<open>What the counters count\<close>

record observation =
  ob_method :: string
  ob_path :: string
  ob_status :: int
  ob_duration :: duration

definition observe :: "observation list \<Rightarrow> metric_store \<Rightarrow> metric_store" where
  "observe obs s = foldl (\<lambda>st ob. ObserveHTTPRequest (ob_method ob) (ob_path ob) (ob_status ob) (ob_duration ob) st) s obs"

definition ob_key :: "observation \<Rightarrow> requestKey" where
  "ob_key ob = RequestKey (ob_method ob) (ob_path ob) (itoa (ob_status ob))"

lemma count_inc: "count_of (inc k m) k' = count_of m k' + (if k' = k then 1 else 0)"
  by (auto simp: count_of_def inc_def lookup_map_default' lookup_default_def split: option.splits)

definition bin_hits :: "f64 \<Rightarrow> f64 list \<Rightarrow> string \<Rightarrow> nat" where
  "bin_hits d bins le = length (filter (\<lambda>bin. d \<le> bin \<and> formatFloat bin = le) bins)"

lemma observe_buckets:
  "count_of (httpDuration (foldl (\<lambda>st bin. if d \<le> bin
      then st\<lparr>httpDuration := inc (BucketKey key (formatFloat bin)) (httpDuration st)\<rparr> else st) s bins)) (BucketKey k le) =
   count_of (httpDuration s) (BucketKey k le) + (if k = key then of_nat (bin_hits d bins le) else 0)"
  by (induction bins arbitrary: s) (auto simp: bin_hits_def count_inc)

lemma observe_others:
  "httpRequests (foldl (\<lambda>st bin. if d \<le> bin
      then st\<lparr>httpDuration := inc (BucketKey key (formatFloat bin)) (httpDuration st)\<rparr> else st) s bins) = httpRequests s"
  by (induction bins arbitrary: s) auto

lemma bin_hits_label: "bin \<in> set latencyBins \<Longrightarrow> bin_hits d latencyBins (formatFloat bin) = (if d \<le> bin then 1 else 0)"
proof -
  assume bin: "bin \<in> set latencyBins"
  have "distinct (map formatFloat latencyBins)" unfolding bin_labels by simp
  then have d: "distinct latencyBins" "inj_on formatFloat (set latencyBins)" by (simp_all add: distinct_map)
  then have "filter (\<lambda>b. d \<le> b \<and> formatFloat b = formatFloat bin) latencyBins = filter (\<lambda>b. d \<le> b \<and> b = bin) latencyBins"
    using bin by (auto intro!: filter_cong dest: inj_onD)
  also have "length \<dots> = length (filter (\<lambda>b. b = bin) (filter (\<lambda>b. d \<le> b) latencyBins))" by (simp add: conj_commute)
  also have "\<dots> = (if d \<le> bin then 1 else 0)"
    using d(1) bin by (subst distinct_length_filter) (auto simp: Int_def conj_ac cong: conj_cong)
  finally show ?thesis by (simp add: bin_hits_def)
qed

lemma counts_by_key:
  shows "count_of (httpRequests (observe obs NewStore)) key = of_nat (length (filter (\<lambda>ob. ob_key ob = key) obs))"
    and "map (\<lambda>bin. count_of (httpDuration (observe obs NewStore)) (BucketKey key (formatFloat bin))) latencyBins =
      map (\<lambda>bin. of_nat (length (filter (\<lambda>ob. ob_key ob = key \<and> f_seconds (ob_duration ob) \<le> bin) obs))) latencyBins"
proof -
  have "count_of (httpRequests (observe obs s)) key =
      count_of (httpRequests s) key + of_nat (length (filter (\<lambda>ob. ob_key ob = key) obs))" for s
    by (induction obs arbitrary: s)
       (auto simp: observe_def ObserveHTTPRequest_def Let_def observe_others count_inc ob_key_def)
  then show "count_of (httpRequests (observe obs NewStore)) key = of_nat (length (filter (\<lambda>ob. ob_key ob = key) obs))"
    by (simp add: NewStore_def count_of_def)
  have "count_of (httpDuration (observe obs s)) (BucketKey key (formatFloat bin)) =
      count_of (httpDuration s) (BucketKey key (formatFloat bin)) +
      of_nat (length (filter (\<lambda>ob. ob_key ob = key \<and> f_seconds (ob_duration ob) \<le> bin) obs))"
    if "bin \<in> set latencyBins" for s bin
    by (induction obs arbitrary: s)
       (auto simp: observe_def ObserveHTTPRequest_def Let_def observe_buckets bin_hits_label [OF that] ob_key_def)
  then show "map (\<lambda>bin. count_of (httpDuration (observe obs NewStore)) (BucketKey key (formatFloat bin))) latencyBins =
      map (\<lambda>bin. of_nat (length (filter (\<lambda>ob. ob_key ob = key \<and> f_seconds (ob_duration ob) \<le> bin) obs))) latencyBins"
    by (simp add: NewStore_def count_of_def)
qed

text \<open>
  C19: the metrics are the histogram of the requests.  After any sequence of requests on a fresh
  store the counter of a method, path and status is the number of those requests, and its bucket
  \<open>le\<close> the number of those that took at most \<open>le\<close> seconds (both modulo \<open>2^64\<close>, as \<open>uint64\<close>
  counts), for each of the eleven bounds.
\<close>

theorem metrics_count:
  "count_of (httpRequests (observe obs NewStore)) key = of_nat (length (filter (\<lambda>ob. ob_key ob = key) obs)) \<and>
   map (\<lambda>bin. count_of (httpDuration (observe obs NewStore)) (BucketKey key (formatFloat bin))) latencyBins =
   map (\<lambda>bin. of_nat (length (filter (\<lambda>ob. ob_key ob = key \<and> f_seconds (ob_duration ob) \<le> bin) obs))) latencyBins"
  using counts_by_key by blast

lemma keys_inc: "Mapping.keys (inc k m) = insert k (Mapping.keys m)"
  by (simp add: inc_def)

lemma observed_keys: "Mapping.keys (httpRequests (observe obs s)) = ob_key ` set obs \<union> Mapping.keys (httpRequests s)"
  by (induction obs arbitrary: s)
     (auto simp: observe_def ObserveHTTPRequest_def Let_def observe_others keys_inc ob_key_def)

text \<open>
  The report is complete and in order: it has one request line for each method, path and
  status that was observed, no other, and these keys strictly increase in the order of path, method
  and status.
\<close>

theorem report_keys:
  "set (sortedRequestKeys (httpRequests (observe obs NewStore))) = ob_key ` set obs \<and>
   sorted_wrt (\<lambda>a b. rk_path a < rk_path b \<or> rk_path a = rk_path b \<and>
      (rk_method a < rk_method b \<or> rk_method a = rk_method b \<and> rk_status a < rk_status b))
     (sortedRequestKeys (httpRequests (observe obs NewStore)))"
proof -
  have k: "Mapping.keys (httpRequests (observe obs NewStore)) = ob_key ` set obs"
    by (simp add: observed_keys NewStore_def)
  have "sorted_wrt (<) (sorted_list_of_set (ob_key ` set obs))" by simp
  then have "sorted_wrt (\<lambda>a b. rk_path a < rk_path b \<or> rk_path a = rk_path b \<and>
      (rk_method a < rk_method b \<or> rk_method a = rk_method b \<and> rk_status a < rk_status b)) (sorted_list_of_set (ob_key ` set obs))"
    by (rule sorted_wrt_mono_rel [rotated]) (auto simp: less_requestKey_def request_before_def split: if_splits)
  then show ?thesis by (simp add: sortedRequestKeys_def Mapping.ordered_keys_def k)
qed

end
