(* ===== verification/Http.thy ===== *)
theory Http
  imports System Limiter Metrics
begin

text \<open>
  Requests, replies and the middleware of \<^verbatim>\<open>internal/middleware\<close> and \<^verbatim>\<open>internal/response\<close>.  A
  handler is a computation on the state of the server (the world of the services, the metrics, the
  limiter, the access log and the headers of the reply) that gives the response it writes, or none; a middleware is a
  function from the handlers it precedes to a handler, which calls them (\<open>c.Next()\<close>) or answers
  itself (\<open>c.Abort()\<close>).

  The HTTP server, \<^verbatim>\<open>gin\<close>'s router and binding and the package \<^verbatim>\<open>golang-jwt\<close> are the outside's:
  the text of a token is read by the parameter \<open>parse\<close> (the claims of a token that is well-formed,
  signed with the secret and not expired at the given instant, \<open>None\<close> otherwise).
\<close>

section \<open>Replies\<close>

datatype payload =
    PDeleted | PAcceptedOrder string string int | POrder order | POrders "order list" | PCancel CancelOrderResult
  | PExpired int | PCompensation CompensationResult | PReconcile StockReconcileResult | PPayment PaymentResult
  | PLogs "operation_log list" | PProduct product | PProducts "product list" | PActivity activity
  | PActivities "activity list" | PCartItem "cart_item \<times> product" | PCartItems "(cart_item \<times> product) list"
  | PAddress address | PAddresses "address list" | PCoupon coupon | PCoupons "coupon list"
  | PUserCoupon "user_coupon \<times> coupon" | PUserCoupons "(user_coupon \<times> coupon) list" | PSession user string
  | POverview AdminOverview | POrderList AdminOrderList

datatype body = Envelope int string "payload option" | HealthBody string | TextBody string

record response =
  rs_status :: int
  rs_body :: body

definition response_OK :: "payload \<Rightarrow> response" where
  "response_OK d = \<lparr>rs_status = 200, rs_body = Envelope 0 ''ok'' (Some d)\<rparr>"

definition response_Created :: "payload \<Rightarrow> response" where
  "response_Created d = \<lparr>rs_status = 201, rs_body = Envelope 0 ''created'' (Some d)\<rparr>"

definition response_Accepted :: "payload \<Rightarrow> response" where
  "response_Accepted d = \<lparr>rs_status = 202, rs_body = Envelope 0 ''accepted'' (Some d)\<rparr>"

definition response_Error :: "int \<Rightarrow> string \<Rightarrow> response" where
  "response_Error status message = \<lparr>rs_status = status, rs_body = Envelope status message None\<rparr>"

section \<open>The server and its handlers\<close>

record request =
  rq_method :: string
  rq_url :: string
  rq_header :: "string \<Rightarrow> string"
  rq_query :: "string \<Rightarrow> string"
  rq_body :: string
  rq_client :: string
  rq_gone :: "instant option"

record reqctx =
  cx_request :: request
  cx_full_path :: string
  cx_param :: "string \<Rightarrow> string"
  cx_user :: "nat option"
  cx_role :: "string option"
  cx_trace :: "string option"
  cx_deadline :: "instant option"

record access_entry =
  ac_trace :: string
  ac_method :: string
  ac_path :: string
  ac_status :: int
  ac_latency :: duration
  ac_client :: string

record server =
  sv_world :: world
  sv_metrics :: metric_store
  sv_limiter :: TokenBucketLimiter
  sv_access :: "access_entry list"
  sv_headers :: "(string \<times> string) list"

type_synonym 'a http = "server \<Rightarrow> 'a \<times> server"
type_synonym handler = "reqctx \<Rightarrow> response option http"
type_synonym middleware = "handler \<Rightarrow> handler"

definition hret :: "'a \<Rightarrow> 'a http" where
  "hret x = (\<lambda>sv. (x, sv))"

definition hbind :: "'a http \<Rightarrow> ('a \<Rightarrow> 'b http) \<Rightarrow> 'b http" where
  "hbind m f = (\<lambda>sv. case m sv of (x, sv') \<Rightarrow> f x sv')"

text \<open>A call of a service, its error as a value.\<close>

definition service :: "'a go \<Rightarrow> (goerr + 'a) http" where
  "service m = (\<lambda>sv. case m (sv_world sv) of (r, w') \<Rightarrow> (r, sv\<lparr>sv_world := w'\<rparr>))"

definition hclock :: "instant http" where
  "hclock = (\<lambda>sv. let w = sv_world sv in
     (clock (ext w) (tick w), sv\<lparr>sv_world := w\<lparr>tick := Suc (tick w)\<rparr>\<rparr>))"

definition business :: "string \<Rightarrow> string \<Rightarrow> unit http" where
  "business event result = (\<lambda>sv. ((), sv\<lparr>sv_metrics := IncBusinessEvent event result (sv_metrics sv)\<rparr>))"

definition reply :: "response \<Rightarrow> response option http" where
  "reply r = hret (Some r)"

section \<open>Authentication and roles\<close>

definition header_prefix :: string where
  "header_prefix = ''Bearer ''"

definition Auth :: "(string \<Rightarrow> string \<Rightarrow> instant \<Rightarrow> Claims option) \<Rightarrow> string \<Rightarrow> middleware" where
  "Auth parse secret next c =
     (let auth = rq_header (cx_request c) ''Authorization'' in
      if auth = '''' \<or> take 7 auth \<noteq> header_prefix then reply (response_Error 401 ''missing bearer token'')
      else
        hbind hclock (\<lambda>now.
        case parse secret (drop 7 auth) now of
           None \<Rightarrow> reply (response_Error 401 ''invalid token'')
         | Some claims \<Rightarrow>
             if cl_user claims = 0 \<or> \<not> IsValidUserRole (cl_role claims)
             then reply (response_Error 401 ''invalid token'')
             else next (c\<lparr>cx_user := Some (cl_user claims), cx_role := Some (cl_role claims)\<rparr>)))"

definition UserID :: "reqctx \<Rightarrow> nat" where
  "UserID c = (case cx_user c of None \<Rightarrow> 0 | Some uid \<Rightarrow> uid)"

definition UserRole :: "reqctx \<Rightarrow> string" where
  "UserRole c = (case cx_role c of None \<Rightarrow> '''' | Some role \<Rightarrow> role)"

definition RequireRole :: "string list \<Rightarrow> middleware" where
  "RequireRole roles next c =
     (if UserRole c \<notin> set roles then reply (response_Error 403 ''forbidden'') else next c)"

section \<open>Rate limit\<close>

definition limiter_Middleware :: middleware where
  "limiter_Middleware next c =
     hbind hclock (\<lambda>now. \<lambda>sv.
       case allow now (sv_limiter sv) of (ok, l') \<Rightarrow>
         (let sv' = sv\<lparr>sv_limiter := l'\<rparr> in
          if \<not> ok then hbind (business ''rate_limit'' ''blocked'') (\<lambda>_. reply (response_Error 429 ''too many requests'')) sv'
          else next c sv'))"

section \<open>Time limit\<close>

text \<open>
  \<open>ctx.Err()\<close>: what ended the context of the request first, the client going away or the deadline.
\<close>

definition ctx_err :: "instant option \<Rightarrow> instant option \<Rightarrow> instant \<Rightarrow> ext_error option" where
  "ctx_err gone deadline now =
     (let over = (case deadline of None \<Rightarrow> False | Some d \<Rightarrow> d \<le> now);
          left = (case gone of None \<Rightarrow> False
                  | Some g \<Rightarrow> g \<le> now \<and> (case deadline of None \<Rightarrow> True | Some d \<Rightarrow> g < d)) in
      if left then Some CtxCanceled else if over then Some CtxDeadlineExceeded else None)"

definition request_err :: "reqctx \<Rightarrow> instant \<Rightarrow> ext_error option" where
  "request_err c now = ctx_err (rq_gone (cx_request c)) (cx_deadline c) now"

definition RequestTimeout :: "duration \<Rightarrow> middleware" where
  "RequestTimeout timeout next c =
     (if timeout \<le> 0 then next c
      else
        hbind hclock (\<lambda>start.
        (let c' = c\<lparr>cx_deadline := Some (start + timeout)\<rparr> in
         hbind (next c') (\<lambda>r.
         hbind hclock (\<lambda>now.
         if request_err c' now = Some CtxDeadlineExceeded \<and> r = None
         then reply (response_Error 504 ''request timeout'') else hret r)))))"

section \<open>Tracing, metrics, access log\<close>

definition newTraceID :: "string http" where
  "newTraceID = (\<lambda>sv.
     let w = sv_world sv; w1 = w\<lparr>tick := Suc (tick w)\<rparr>; nano = itoa (clock (ext w1) (tick w1)) in
     (case entropy (ext w) (tick w) of
        None \<Rightarrow> ''trace_'' @ nano
      | Some byte \<Rightarrow> ''trace_'' @ nano @ ''_'' @ hex_text (map (\<lambda>i. byte i mod 256) [0..<6]),
      sv\<lparr>sv_world := w1\<lparr>tick := Suc (tick w1)\<rparr>\<rparr>))"

definition TraceID :: middleware where
  "TraceID next c =
     (let given = rq_header (cx_request c) ''X-Trace-ID'' in
      hbind (if given = '''' then newTraceID else hret given) (\<lambda>traceID.
      (\<lambda>sv. next (c\<lparr>cx_trace := Some traceID\<rparr>)
         (sv\<lparr>sv_headers := sv_headers sv @ [(''X-Trace-ID'', traceID)]\<rparr>))))"

definition TraceIDFromContext :: "reqctx \<Rightarrow> string" where
  "TraceIDFromContext c = (case cx_trace c of None \<Rightarrow> '''' | Some t \<Rightarrow> t)"

text \<open>
  \<open>c.Writer.Status()\<close>: the status written, else 404 for a path without a route and 200 otherwise.
\<close>

definition writer_status :: "reqctx \<Rightarrow> response option \<Rightarrow> int" where
  "writer_status c r =
     (case r of Some x \<Rightarrow> rs_status x | None \<Rightarrow> if cx_full_path c = '''' then 404 else 200)"

definition metrics_Middleware :: middleware where
  "metrics_Middleware next c =
     hbind hclock (\<lambda>start.
     hbind (next c) (\<lambda>r.
     hbind hclock (\<lambda>now.
     (let path = (if cx_full_path c = '''' then rq_url (cx_request c) else cx_full_path c) in
      (\<lambda>sv. (r, sv\<lparr>sv_metrics := ObserveHTTPRequest (rq_method (cx_request c)) path (writer_status c r)
                      (time_sub now start) (sv_metrics sv)\<rparr>))))))"

definition AccessLog :: middleware where
  "AccessLog next c =
     hbind hclock (\<lambda>start.
     hbind (next c) (\<lambda>r.
     hbind hclock (\<lambda>now.
     (\<lambda>sv. (r, sv\<lparr>sv_access := sv_access sv @
        [\<lparr>ac_trace = TraceIDFromContext c, ac_method = rq_method (cx_request c), ac_path = rq_url (cx_request c),
          ac_status = writer_status c r, ac_latency = time_sub now start, ac_client = rq_client (cx_request c)\<rparr>]\<rparr>)))))"

end
