(* ===== verification/Handlers.thy ===== *)
theory Handlers
  imports Http Config
begin

text \<open>
  \<^verbatim>\<open>internal/handler\<close>: every endpoint's handler.  Binding a request body (\<open>c.ShouldBindJSON\<close>:
  JSON decoding and the \<open>binding:"..."\<close> rules) is \<^verbatim>\<open>gin\<close>'s, a parameter per input type that gives
  the input or the text of its error.
\<close>

record binders =
  bi_credentials :: "string \<Rightarrow> string + (string \<times> string)"
  bi_product :: "string \<Rightarrow> string + CreateProductInput"
  bi_activity :: "string \<Rightarrow> string + CreateActivityInput"
  bi_status :: "string \<Rightarrow> string + string"
  bi_address :: "string \<Rightarrow> string + CreateAddressInput"
  bi_cart_item :: "string \<Rightarrow> string + AddCartItemInput"
  bi_quantity :: "string \<Rightarrow> string + int"
  bi_coupon :: "string \<Rightarrow> string + CreateCouponInput"
  bi_order :: "string \<Rightarrow> string + CreateOrderInput"
  bi_checkout :: "string \<Rightarrow> string + CheckoutCartInput"
  bi_expire :: "string \<Rightarrow> string + int"
  bi_compensate :: "string \<Rightarrow> string + (int \<times> int)"
  bi_reconcile :: "string \<Rightarrow> string + (nat \<times> bool)"
  bi_payment :: "string \<Rightarrow> string + PaymentCallbackInput"

record app =
  ap_services :: deployment
  ap_bind :: binders
  ap_parse :: "string \<Rightarrow> string \<Rightarrow> instant \<Rightarrow> Claims option"
  ap_config :: Config
  ap_route :: "string \<Rightarrow> string \<Rightarrow> (string \<times> (string \<Rightarrow> string)) option"

section \<open>Shared shapes\<close>

text \<open>\<open>if err := c.ShouldBindJSON(&req); err != nil { 400 }\<close>, and a path parameter that must be a number.\<close>

definition bound :: "(string \<Rightarrow> string + 'i) \<Rightarrow> ('i \<Rightarrow> response option http) \<Rightarrow> handler" where
  "bound bind f c =
     (case bind (rq_body (cx_request c)) of
        Inl e \<Rightarrow> reply (response_Error 400 e)
      | Inr req \<Rightarrow> f req)"

definition with_id :: "string \<Rightarrow> (nat \<Rightarrow> response option http) \<Rightarrow> handler" where
  "with_id message f c =
     (case ParseUint (cx_param c ''id'') of
        None \<Rightarrow> reply (response_Error 400 message)
      | Some n \<Rightarrow> f n)"

text \<open>The result of a service, with the status of its error.\<close>

definition answer :: "(goerr \<Rightarrow> int) \<Rightarrow> ('a \<Rightarrow> response) \<Rightarrow> 'a go \<Rightarrow> response option http" where
  "answer status ok m =
     hbind (service m) (\<lambda>r.
       case r of
         Inl err \<Rightarrow> reply (response_Error (status err) (err_text err))
       | Inr x \<Rightarrow> reply (ok x))"

abbreviation bad_request :: "goerr \<Rightarrow> int" where
  "bad_request \<equiv> (\<lambda>_. 400)"

abbreviation internal_error :: "goerr \<Rightarrow> int" where
  "internal_error \<equiv> (\<lambda>_. 500)"

section \<open>Errors of the order service\<close>

definition orderErrorStatus :: "goerr \<Rightarrow> int" where
  "orderErrorStatus err =
     (case err of
        Ext CtxDeadlineExceeded \<Rightarrow> 504
      | Ext CtxCanceled \<Rightarrow> 408
      | ErrActivityNotFound \<Rightarrow> 404
      | ErrOrderNotFound \<Rightarrow> 404
      | ErrActivityNotAvailable \<Rightarrow> 409
      | ErrSoldOut \<Rightarrow> 409
      | ErrDuplicateOrder \<Rightarrow> 409
      | ErrIllegalTransition \<Rightarrow> 409
      | _ \<Rightarrow> 400)"

definition orderErrorMetric :: "goerr \<Rightarrow> string" where
  "orderErrorMetric err =
     (case err of
        ErrActivityNotFound \<Rightarrow> ''activity_not_found''
      | ErrOrderNotFound \<Rightarrow> ''order_not_found''
      | ErrActivityNotAvailable \<Rightarrow> ''activity_not_available''
      | ErrSoldOut \<Rightarrow> ''sold_out''
      | ErrDuplicateOrder \<Rightarrow> ''duplicate_order''
      | ErrIllegalTransition \<Rightarrow> ''illegal_transition''
      | _ \<Rightarrow> ''error'')"

section \<open>Orders\<close>

text \<open>The request's context is asked for its error when the service starts.\<close>

definition order_CreateOrder :: "app \<Rightarrow> handler" where
  "order_CreateOrder a c =
     bound (bi_order (ap_bind a)) (\<lambda>req.
       hbind hclock (\<lambda>now.
       hbind (service (CreateOrderContext (dp_orders (ap_services a)) (request_err c now) (UserID c) req)) (\<lambda>r.
         case r of
           Inl err \<Rightarrow>
             hbind (business ''activity_order'' (orderErrorMetric err)) (\<lambda>_.
             reply (response_Error (orderErrorStatus err) (err_text err)))
         | Inr (ord, stockLeft) \<Rightarrow>
             hbind (business ''activity_order'' ''accepted'') (\<lambda>_.
             reply (response_Accepted (PAcceptedOrder (o_order_no ord) (o_status ord) stockLeft)))))) c"

definition order_CheckoutCart :: "app \<Rightarrow> handler" where
  "order_CheckoutCart a c =
     bound (bi_checkout (ap_bind a)) (\<lambda>req.
       answer bad_request (\<lambda>ord. response_Created (POrder ord)) (CheckoutCart (UserID c) req)) c"

definition order_ListOrders :: "app \<Rightarrow> handler" where
  "order_ListOrders a c = answer internal_error (\<lambda>os. response_OK (POrders os)) (ListOrders (UserID c))"

definition order_GetOrder :: "app \<Rightarrow> handler" where
  "order_GetOrder a c =
     answer orderErrorStatus (\<lambda>ord. response_OK (POrder ord)) (GetOrder (UserID c) (cx_param c ''order_no''))"

definition order_CancelOrder :: "app \<Rightarrow> handler" where
  "order_CancelOrder a c =
     answer orderErrorStatus (\<lambda>res. response_OK (PCancel res))
       (CancelOrder (dp_orders (ap_services a)) (UserID c) (cx_param c ''order_no''))"

definition order_ExpireOrders :: "app \<Rightarrow> handler" where
  "order_ExpireOrders a c =
     bound (bi_expire (ap_bind a)) (\<lambda>n.
       answer internal_error (\<lambda>k. response_OK (PExpired k)) (ExpireOrders (dp_orders (ap_services a)) n)) c"

definition order_Compensate :: "app \<Rightarrow> handler" where
  "order_Compensate a c =
     bound (bi_compensate (ap_bind a)) (\<lambda>(q, p).
       answer internal_error (\<lambda>res. response_OK (PCompensation res)) (Compensate (dp_orders (ap_services a)) q p)) c"

definition order_ReconcileStock :: "app \<Rightarrow> handler" where
  "order_ReconcileStock a c =
     bound (bi_reconcile (ap_bind a)) (\<lambda>(id, repair).
       answer internal_error (\<lambda>res. response_OK (PReconcile res)) (ReconcileStock (dp_orders (ap_services a)) id repair)) c"

definition order_PaymentCallback :: "app \<Rightarrow> handler" where
  "order_PaymentCallback a c =
     bound (bi_payment (ap_bind a)) (\<lambda>req.
       hbind (service (PaymentCallback req)) (\<lambda>r.
         case r of
           Inl err \<Rightarrow>
             hbind (business ''payment_callback'' (orderErrorMetric err)) (\<lambda>_.
             reply (response_Error (orderErrorStatus err) (err_text err)))
         | Inr res \<Rightarrow>
             hbind (business ''payment_callback'' ''processed'') (\<lambda>_.
             reply (response_OK (PPayment res))))) c"

definition order_ListLogs :: "app \<Rightarrow> handler" where
  "order_ListLogs a c = answer internal_error (\<lambda>ls. response_OK (PLogs ls)) ListLogs"

section \<open>Catalog\<close>

definition catalog_CreateProduct :: "app \<Rightarrow> handler" where
  "catalog_CreateProduct a c =
     bound (bi_product (ap_bind a)) (\<lambda>req.
       answer bad_request (\<lambda>p. response_Created (PProduct p)) (CreateProduct req)) c"

definition catalog_ListProducts :: "app \<Rightarrow> handler" where
  "catalog_ListProducts a c = answer internal_error (\<lambda>ps. response_OK (PProducts ps)) ListProducts"

definition catalog_CreateActivity :: "app \<Rightarrow> handler" where
  "catalog_CreateActivity a c =
     bound (bi_activity (ap_bind a)) (\<lambda>req.
       answer bad_request (\<lambda>act. response_Created (PActivity act))
         (CreateActivity (os_cache (dp_orders (ap_services a))) req)) c"

definition catalog_ListActivities :: "app \<Rightarrow> handler" where
  "catalog_ListActivities a c = answer internal_error (\<lambda>as. response_OK (PActivities as)) ListActivities"

definition catalog_UpdateActivityStatus :: "app \<Rightarrow> handler" where
  "catalog_UpdateActivityStatus a c =
     with_id ''invalid activity id'' (\<lambda>id.
       bound (bi_status (ap_bind a)) (\<lambda>status.
         answer bad_request (\<lambda>act. response_OK (PActivity act)) (UpdateActivityStatus id status)) c) c"

section \<open>Cart, addresses, coupons\<close>

definition cart_AddItem_handler :: "app \<Rightarrow> handler" where
  "cart_AddItem_handler a c =
     bound (bi_cart_item (ap_bind a)) (\<lambda>req.
       answer bad_request (\<lambda>i. response_Created (PCartItem i)) (cart_AddItem (UserID c) req)) c"

definition cart_ListItems :: "app \<Rightarrow> handler" where
  "cart_ListItems a c = answer internal_error (\<lambda>is. response_OK (PCartItems is)) (cart_List (UserID c))"

definition cart_UpdateItem :: "app \<Rightarrow> handler" where
  "cart_UpdateItem a c =
     with_id ''invalid cart item id'' (\<lambda>id.
       bound (bi_quantity (ap_bind a)) (\<lambda>q.
         answer bad_request (\<lambda>i. response_OK (PCartItem i)) (cart_UpdateQuantity (UserID c) id q)) c) c"

definition cart_DeleteItem_handler :: "app \<Rightarrow> handler" where
  "cart_DeleteItem_handler a c =
     with_id ''invalid cart item id'' (\<lambda>id.
       answer bad_request (\<lambda>_. response_OK PDeleted) (cart_DeleteItem (UserID c) id)) c"

definition address_CreateAddress :: "app \<Rightarrow> handler" where
  "address_CreateAddress a c =
     bound (bi_address (ap_bind a)) (\<lambda>req.
       answer bad_request (\<lambda>ad. response_Created (PAddress ad)) (address_Create (UserID c) req)) c"

definition address_ListAddresses :: "app \<Rightarrow> handler" where
  "address_ListAddresses a c = answer internal_error (\<lambda>as. response_OK (PAddresses as)) (address_List (UserID c))"

definition address_SetDefault_handler :: "app \<Rightarrow> handler" where
  "address_SetDefault_handler a c =
     with_id ''invalid address id'' (\<lambda>id.
       answer bad_request (\<lambda>ad. response_OK (PAddress ad)) (address_SetDefault (UserID c) id)) c"

definition coupon_CreateCoupon :: "app \<Rightarrow> handler" where
  "coupon_CreateCoupon a c =
     bound (bi_coupon (ap_bind a)) (\<lambda>req.
       answer bad_request (\<lambda>k. response_Created (PCoupon k)) (coupon_Create req)) c"

definition coupon_ListCoupons :: "app \<Rightarrow> handler" where
  "coupon_ListCoupons a c = answer internal_error (\<lambda>ks. response_OK (PCoupons ks)) coupon_List"

definition coupon_ClaimCoupon :: "app \<Rightarrow> handler" where
  "coupon_ClaimCoupon a c =
     with_id ''invalid coupon id'' (\<lambda>id.
       answer bad_request (\<lambda>k. response_Created (PUserCoupon k)) (coupon_Claim (UserID c) id)) c"

definition coupon_MyCoupons_handler :: "app \<Rightarrow> handler" where
  "coupon_MyCoupons_handler a c =
     answer internal_error (\<lambda>ks. response_OK (PUserCoupons ks)) (coupon_MyCoupons (UserID c))"

section \<open>Accounts and administration\<close>

definition auth_Register_handler :: "app \<Rightarrow> handler" where
  "auth_Register_handler a c =
     bound (bi_credentials (ap_bind a)) (\<lambda>(name, pw).
       answer bad_request (\<lambda>(u, t). response_Created (PSession u t)) (auth_Register (dp_auth (ap_services a)) name pw)) c"

definition auth_Login_handler :: "app \<Rightarrow> handler" where
  "auth_Login_handler a c =
     bound (bi_credentials (ap_bind a)) (\<lambda>(name, pw).
       answer (\<lambda>_. 401) (\<lambda>(u, t). response_OK (PSession u t)) (auth_Login (dp_auth (ap_services a)) name pw)) c"

definition admin_Overview_handler :: "app \<Rightarrow> handler" where
  "admin_Overview_handler a c = answer internal_error (\<lambda>o'. response_OK (POverview o')) admin_Overview"

definition parseUintQuery :: "reqctx \<Rightarrow> string \<Rightarrow> nat" where
  "parseUintQuery c key =
     (let value = rq_query (cx_request c) key in
      if value = '''' then 0 else case ParseUint value of None \<Rightarrow> 0 | Some n \<Rightarrow> n)"

definition parseIntQuery :: "reqctx \<Rightarrow> string \<Rightarrow> int" where
  "parseIntQuery c key =
     (let value = rq_query (cx_request c) key in
      if value = '''' then 0 else case Atoi value of None \<Rightarrow> 0 | Some n \<Rightarrow> n)"

definition admin_ListOrders_handler :: "app \<Rightarrow> handler" where
  "admin_ListOrders_handler a c =
     answer internal_error (\<lambda>l. response_OK (POrderList l))
       (admin_ListOrders \<lparr>aq_status = rq_query (cx_request c) ''status'', aq_user = parseUintQuery c ''user_id'',
          aq_activity = parseUintQuery c ''activity_id'', aq_limit = parseIntQuery c ''limit''\<rparr>)"

definition metrics_Handler :: handler where
  "metrics_Handler c = (\<lambda>sv. (Some \<lparr>rs_status = 200, rs_body = TextBody (RenderPrometheus (sv_metrics sv))\<rparr>, sv))"

definition health :: handler where
  "health c = reply \<lparr>rs_status = 200, rs_body = HealthBody ''ok''\<rparr>"

end
