(* ===== verification/Server.thy ===== *)
theory Server
  imports Handlers
begin

text \<open>
  \<^verbatim>\<open>cmd/server/main.go\<close>: how the services are built from the configuration, the routes with the
  guards of their groups, and the serving of one request through the middleware.  Which route a
  request takes is decided by \<^verbatim>\<open>gin\<close>'s router: the parameter \<open>ap_route\<close> gives the registered
  path of a method and a URL, with the values of its parameters.
\<close>

section \<open>Building the services\<close>

definition build_services :: "signer \<Rightarrow> Config \<Rightarrow> deployment" where
  "build_services sign cfg =
     \<lparr>dp_orders = SetRabbitMaxRetries (cf_RabbitMaxRetries cfg) (NewOrderService (cf_RedisEnabled cfg) (cf_RabbitEnabled cfg)),
      dp_auth = \<lparr>as_secret = cf_JWTSecret cfg, as_sign = sign\<rparr>\<rparr>"

definition compensation_config :: "Config \<Rightarrow> CompensationWorkerConfig" where
  "compensation_config cfg =
     \<lparr>wc_enabled = cf_CompensationEnabled cfg, wc_interval = cf_CompensationIntervalSeconds cfg,
      wc_queued_timeout = cf_CompensationQueuedTimeoutSeconds cfg, wc_pay_timeout = cf_CompensationPayTimeoutSeconds cfg\<rparr>"

definition order_limiter :: "(f64 \<Rightarrow> int) \<Rightarrow> Config \<Rightarrow> instant \<Rightarrow> TokenBucketLimiter" where
  "order_limiter wild cfg now =
     NewTokenBucketLimiter wild \<lparr>tc_rps = cf_RateLimitRPS cfg, tc_burst = cf_RateLimitBurst cfg\<rparr> now"

text \<open>The start-up writes: the migrations of the database, then the administrator's account.\<close>

definition start_up :: "Config \<Rightarrow> unit go" where
  "start_up cfg =
     thenE open_migrations
    (thenE (if cf_AdminUsername cfg \<noteq> '''' then thenE (auth_EnsureAdmin (cf_AdminUsername cfg) (cf_AdminPassword cfg)) (ret ())
            else ret ())
      (thenE (StartCompensationWorkerContext (compensation_config cfg)) (ret ())))"

section \<open>Routes\<close>

type_synonym route = "(string \<times> string) \<times> handler"

definition open_routes :: "app \<Rightarrow> route list" where
  "open_routes a =
     [((''POST'', ''/api/auth/register''), auth_Register_handler a),
      ((''POST'', ''/api/auth/login''), auth_Login_handler a),
      ((''GET'', ''/api/products''), catalog_ListProducts a),
      ((''GET'', ''/api/activities''), catalog_ListActivities a),
      ((''GET'', ''/api/coupons''), coupon_ListCoupons a),
      ((''POST'', ''/api/payments/callback''), order_PaymentCallback a)]"

definition protected_routes :: "app \<Rightarrow> route list" where
  "protected_routes a =
     [((''POST'', ''/api/addresses''), address_CreateAddress a),
      ((''GET'', ''/api/addresses''), address_ListAddresses a),
      ((''POST'', ''/api/addresses/:id/default''), address_SetDefault_handler a),
      ((''POST'', ''/api/cart/items''), cart_AddItem_handler a),
      ((''GET'', ''/api/cart/items''), cart_ListItems a),
      ((''PATCH'', ''/api/cart/items/:id''), cart_UpdateItem a),
      ((''DELETE'', ''/api/cart/items/:id''), cart_DeleteItem_handler a),
      ((''POST'', ''/api/coupons/:id/claim''), coupon_ClaimCoupon a),
      ((''GET'', ''/api/my-coupons''), coupon_MyCoupons_handler a),
      ((''POST'', ''/api/orders''),
        if cf_RateLimitEnabled (ap_config a) then limiter_Middleware (order_CreateOrder a) else order_CreateOrder a),
      ((''POST'', ''/api/orders/checkout''), order_CheckoutCart a),
      ((''GET'', ''/api/orders''), order_ListOrders a),
      ((''GET'', ''/api/orders/:order_no''), order_GetOrder a),
      ((''POST'', ''/api/orders/:order_no/cancel''), order_CancelOrder a)]"

definition admin_routes :: "app \<Rightarrow> route list" where
  "admin_routes a =
     [((''POST'', ''/api/products''), catalog_CreateProduct a),
      ((''POST'', ''/api/activities''), catalog_CreateActivity a),
      ((''PATCH'', ''/api/activities/:id/status''), catalog_UpdateActivityStatus a),
      ((''POST'', ''/api/coupons''), coupon_CreateCoupon a),
      ((''POST'', ''/api/orders/expire''), order_ExpireOrders a),
      ((''POST'', ''/api/ops/compensate''), order_Compensate a),
      ((''POST'', ''/api/ops/stock/reconcile''), order_ReconcileStock a),
      ((''GET'', ''/api/admin/overview''), admin_Overview_handler a),
      ((''GET'', ''/api/admin/orders''), admin_ListOrders_handler a),
      ((''GET'', ''/api/order-logs''), order_ListLogs a)]"

definition guard_with :: "middleware \<Rightarrow> route list \<Rightarrow> route list" where
  "guard_with m rs = map (\<lambda>(k, h). (k, m h)) rs"

definition routes :: "app \<Rightarrow> route list" where
  "routes a =
     (let protect = Auth (ap_parse a) (cf_JWTSecret (ap_config a)) in
      [((''GET'', ''/health''), health), ((''GET'', ''/metrics''), metrics_Handler)] @
      open_routes a @
      guard_with protect (protected_routes a) @
      guard_with protect (guard_with (RequireRole [UserRoleAdmin]) (admin_routes a)))"

section \<open>Serving\<close>

definition global_middleware :: "app \<Rightarrow> middleware" where
  "global_middleware a h =
     TraceID (metrics_Middleware (AccessLog (RequestTimeout (seconds_duration (cf_RequestTimeoutSeconds (ap_config a))) h)))"

definition new_context :: "request \<Rightarrow> string \<Rightarrow> (string \<Rightarrow> string) \<Rightarrow> reqctx" where
  "new_context rq path params =
     \<lparr>cx_request = rq, cx_full_path = path, cx_param = params, cx_user = None, cx_role = None, cx_trace = None,
      cx_deadline = None\<rparr>"

text \<open>A path without a route runs the global middleware only; \<^verbatim>\<open>gin\<close> then answers 404.\<close>

definition matched :: "app \<Rightarrow> request \<Rightarrow> string \<times> (string \<Rightarrow> string)" where
  "matched a rq = (case ap_route a (rq_method rq) (rq_url rq) of None \<Rightarrow> ('''', \<lambda>_. '''') | Some x \<Rightarrow> x)"

definition route_handler :: "app \<Rightarrow> request \<Rightarrow> handler" where
  "route_handler a rq =
     (case map_of (routes a) (rq_method rq, fst (matched a rq)) of None \<Rightarrow> (\<lambda>_. hret None) | Some h \<Rightarrow> h)"

definition request_context :: "app \<Rightarrow> request \<Rightarrow> reqctx" where
  "request_context a rq = new_context rq (fst (matched a rq)) (snd (matched a rq))"

definition serve :: "app \<Rightarrow> request \<Rightarrow> response http" where
  "serve a rq sv =
     (let c = request_context a rq in
      case global_middleware a (route_handler a rq) c (sv\<lparr>sv_headers := []\<rparr>) of
        (Some r, sv') \<Rightarrow> (r, sv')
      | (None, sv') \<Rightarrow> (\<lparr>rs_status = writer_status c None, rs_body = TextBody ''404 page not found''\<rparr>, sv'))"

fun serve_all :: "app \<Rightarrow> request list \<Rightarrow> response list http" where
  "serve_all a [] sv = ([], sv)"
| "serve_all a (rq # rqs) sv = (let (r, sv1) = serve a rq sv; (rs, sv2) = serve_all a rqs sv1 in (r # rs, sv2))"

end
