(* ===== verification/HttpRules.thy ===== *)
theory HttpRules
  imports Server
begin

text \<open>
  Lifting a relation on worlds through handlers and middleware, and its two uses: what every request
  does to the tables, and what a refused request leaves alone.
\<close>

section \<open>Relations on worlds\<close>

definition htracks :: "(world \<Rightarrow> world \<Rightarrow> bool) \<Rightarrow> 'a http \<Rightarrow> bool" where
  "htracks P m \<longleftrightarrow> (\<forall>sv. P (sv_world sv) (sv_world (snd (m sv))))"

lemma htracksD: "htracks P m \<Longrightarrow> m sv = (x, sv') \<Longrightarrow> P (sv_world sv) (sv_world sv')"
  unfolding htracks_def by (metis snd_conv)

lemma htracks_at: "htracks P m \<Longrightarrow> sv_world sv' = sv_world sv \<Longrightarrow> P (sv_world sv) (sv_world (snd (m sv')))"
  unfolding htracks_def by metis

locale world_preorder =
  fixes P :: "world \<Rightarrow> world \<Rightarrow> bool"
  assumes P_refl: "P w w"
    and P_trans: "P w1 w2 \<Longrightarrow> P w2 w3 \<Longrightarrow> P w1 w3"
    and P_tick: "tick w \<le> k \<Longrightarrow> P w (w\<lparr>tick := k\<rparr>)"
begin

lemma h_ret: "htracks P (hret x)"
  by (simp add: htracks_def hret_def P_refl)

lemma h_reply: "htracks P (reply r)"
  by (simp add: reply_def h_ret)

lemma h_clock: "htracks P hclock"
  by (simp add: htracks_def hclock_def Let_def P_tick)

lemma h_business: "htracks P (business e r)"
  by (simp add: htracks_def business_def P_refl)

lemma h_bind: "htracks P m \<Longrightarrow> (\<And>x. htracks P (f x)) \<Longrightarrow> htracks P (hbind m f)"
  unfolding htracks_def hbind_def by (auto split: prod.splits) (metis P_trans snd_conv)

lemma h_service: "(\<And>w r w'. m w = (r, w') \<Longrightarrow> P w w') \<Longrightarrow> htracks P (service m)"
  by (auto simp: htracks_def service_def split: prod.splits)

lemma h_case_sum:
  "(\<And>e. htracks P (f e)) \<Longrightarrow> (\<And>x. htracks P (g x)) \<Longrightarrow> htracks P (case r of Inl e \<Rightarrow> f e | Inr x \<Rightarrow> g x)"
  by (cases r) auto

lemma h_case_prod: "(\<And>x y. htracks P (f x y)) \<Longrightarrow> htracks P (case p of (x, y) \<Rightarrow> f x y)"
  by (cases p) auto

lemma h_trace_id: "htracks P newTraceID"
  by (auto simp: htracks_def newTraceID_def Let_def intro: P_trans P_tick)

lemma h_answer: "(\<And>w r w'. m w = (r, w') \<Longrightarrow> P w w') \<Longrightarrow> htracks P (answer st ok m)"
  unfolding answer_def by (intro h_bind h_service h_case_sum h_reply)

lemma h_bound: "(\<And>req. bind (rq_body (cx_request c)) = Inr req \<Longrightarrow> htracks P (f req)) \<Longrightarrow> htracks P (bound bind f c)"
  by (auto simp: bound_def h_reply split: sum.splits)

lemma h_with_id: "(\<And>k. htracks P (f k)) \<Longrightarrow> htracks P (with_id msg f c)"
  by (auto simp: with_id_def h_reply split: option.splits)

lemma h_auth: "(\<And>c. htracks P (h c)) \<Longrightarrow> htracks P (Auth parse secret h c)"
  by (auto simp: Auth_def Let_def intro!: h_reply h_bind h_clock split: option.splits)

lemma h_role: "(\<And>c. htracks P (h c)) \<Longrightarrow> htracks P (RequireRole roles h c)"
  by (auto simp: RequireRole_def h_reply)

lemma h_limiter:
  assumes "\<And>c. htracks P (h c)"
  shows "htracks P (limiter_Middleware h c)"
  unfolding limiter_Middleware_def
proof (rule h_bind [OF h_clock])
  fix now
  have b: "htracks P (hbind (business e r) (\<lambda>_. reply x))" for e r x by (intro h_bind h_business h_reply)
  show "htracks P (\<lambda>sv. case allow now (sv_limiter sv) of (ok, l') \<Rightarrow>
      (let sv' = sv\<lparr>sv_limiter := l'\<rparr> in
       if \<not> ok then hbind (business ''rate_limit'' ''blocked'') (\<lambda>_. reply (response_Error 429 ''too many requests'')) sv'
       else h c sv'))"
    by (subst htracks_def) (simp add: Let_def htracks_at [OF b] htracks_at [OF assms] split: prod.splits)
qed

lemma h_timeout: "(\<And>c. htracks P (h c)) \<Longrightarrow> htracks P (RequestTimeout t h c)"
  unfolding RequestTimeout_def Let_def by (auto intro!: h_bind h_clock h_reply h_ret)

lemma h_pure: "(\<And>sv. sv_world (snd (m sv)) = sv_world sv) \<Longrightarrow> htracks P m"
  by (simp add: htracks_def P_refl)

lemma h_metrics: "(\<And>c. htracks P (h c)) \<Longrightarrow> htracks P (metrics_Middleware h c)"
  unfolding metrics_Middleware_def Let_def by (intro h_bind h_clock) (auto intro: h_pure)

lemma h_access: "(\<And>c. htracks P (h c)) \<Longrightarrow> htracks P (AccessLog h c)"
  unfolding AccessLog_def by (intro h_bind h_clock) (auto intro: h_pure)

lemma h_trace: "(\<And>c. htracks P (h c)) \<Longrightarrow> htracks P (TraceID h c)"
proof -
  assume h: "\<And>c. htracks P (h c)"
  have "htracks P (\<lambda>sv. h c' (sv\<lparr>sv_headers := hs sv\<rparr>))" for c' hs
    by (subst htracks_def) (simp add: htracks_at [OF h])
  then show ?thesis unfolding TraceID_def Let_def by (auto intro!: h_bind h_trace_id h_ret)
qed

lemma h_global: "(\<And>c. htracks P (h c)) \<Longrightarrow> htracks P (global_middleware a h c)"
  unfolding global_middleware_def by (intro h_trace h_metrics h_access h_timeout)

text \<open>A request whose route's handler respects the relation does.\<close>

lemma h_route: "(\<And>k h c. map_of (routes a) k = Some h \<Longrightarrow> htracks P (h c)) \<Longrightarrow> htracks P (route_handler a rq c)"
  by (auto simp: route_handler_def h_ret split: option.splits)

lemma h_serve:
  assumes "\<And>c. htracks P (route_handler a rq c)"
  shows "htracks P (serve a rq)"
proof -
  have g: "htracks P (global_middleware a (route_handler a rq) (request_context a rq))"
    by (rule h_global) (rule assms)
  have "P (sv_world sv) (sv_world (snd (global_middleware a (route_handler a rq) (request_context a rq) (sv\<lparr>sv_headers := []\<rparr>))))" for sv
    by (rule htracks_at [OF g]) simp
  then show ?thesis
    by (auto simp: htracks_def serve_def Let_def split: prod.splits option.splits) (metis snd_conv)+
qed

lemma h_serve_all: "(\<And>rq. htracks P (serve a rq)) \<Longrightarrow> htracks P (serve_all a rqs)"
proof (induction rqs)
  case (Cons rq rqs)
  then show ?case unfolding htracks_def by (auto split: prod.splits) (metis P_trans snd_conv)
qed (simp add: htracks_def P_refl)

lemmas h_basic = h_ret h_reply h_clock h_business

end

text \<open>A relation on tables is a relation on worlds that no reading of the clock touches.\<close>

sublocale table_preorder \<subseteq> over_tables: world_preorder "\<lambda>w w'. R (tables w) (tables w')"
  by unfold_locales (auto intro: R_refl R_trans)

text \<open>Nothing but the clock moves, and it moves forward.\<close>

definition idle :: "world \<Rightarrow> world \<Rightarrow> bool" where
  "idle w w' \<longleftrightarrow> tick w \<le> tick w' \<and> w' = w\<lparr>tick := tick w'\<rparr>"

interpretation idle: world_preorder idle
proof
  show "idle w w" for w by (simp add: idle_def)
  show "idle w1 w2 \<Longrightarrow> idle w2 w3 \<Longrightarrow> idle w1 w3" for w1 w2 w3
    by (cases w1; cases w2; cases w3) (simp add: idle_def)
  show "tick w \<le> k \<Longrightarrow> idle w (w\<lparr>tick := k\<rparr>)" for w k by (simp add: idle_def)
qed

lemma idle_tables: "idle w w' \<Longrightarrow> tables w' = tables w"
  unfolding idle_def by (metis world.select_convs(3) world.surjective world.update_convs(2))

section \<open>What a reply says about the run\<close>

text \<open>
  A statement that relates the world before, the response and the world after, and does not mind
  the clock readings of the middleware, passes from a handler that always responds to the server.  It
  may be confined to worlds that satisfy \<open>S\<close>, such as those of the outside \<open>e\<close> from the \<open>n\<close>-th
  reading of the clock on (\<open>since e n\<close>).
\<close>

definition hpost :: "(world \<Rightarrow> bool) \<Rightarrow> (world \<Rightarrow> response \<Rightarrow> world \<Rightarrow> bool) \<Rightarrow> response option http \<Rightarrow> bool" where
  "hpost S Q m \<longleftrightarrow> (\<forall>sv x sv'. S (sv_world sv) \<longrightarrow> m sv = (x, sv') \<longrightarrow> (\<exists>r. x = Some r \<and> Q (sv_world sv) r (sv_world sv')))"

lemma hpostD: "hpost S Q m \<Longrightarrow> S (sv_world sv) \<Longrightarrow> m sv = (x, sv') \<Longrightarrow> \<exists>r. x = Some r \<and> Q (sv_world sv) r (sv_world sv')"
  unfolding hpost_def by blast

definition since :: "outside \<Rightarrow> nat \<Rightarrow> world \<Rightarrow> bool" where
  "since e n w \<longleftrightarrow> ext w = e \<and> n \<le> tick w"

lemma idle_kept: "idle w w' \<Longrightarrow> ext w' = ext w \<and> tick w \<le> tick w'"
  by (cases w; cases w') (simp add: idle_def)

lemma since_idle: "since e n w \<Longrightarrow> idle w w' \<Longrightarrow> since e n w'"
  by (drule idle_kept) (simp add: since_def)

lemma hclock_idle: "hclock sv = (x, sv') \<Longrightarrow> idle (sv_world sv) (sv_world sv')"
  by (auto simp: hclock_def Let_def idle_def)

lemma trace_idle: "newTraceID sv = (x, sv') \<Longrightarrow> idle (sv_world sv) (sv_world sv')"
  by (auto simp: newTraceID_def Let_def idle_def)

definition same_request :: "reqctx \<Rightarrow> reqctx \<Rightarrow> bool" where
  "same_request c c' \<longleftrightarrow> c' = c\<lparr>cx_trace := cx_trace c', cx_deadline := cx_deadline c'\<rparr>"

lemma same_request_refl [simp]: "same_request c c"
  by (simp add: same_request_def)

lemma same_request_step [simp]:
  "same_request c c' \<Longrightarrow> same_request c (c'\<lparr>cx_trace := t\<rparr>)" "same_request c c' \<Longrightarrow> same_request c (c'\<lparr>cx_deadline := d\<rparr>)"
  by (cases c; cases c'; simp add: same_request_def)+

lemma same_request_fields:
  "same_request c c' \<Longrightarrow> cx_request c' = cx_request c \<and> cx_param c' = cx_param c \<and> cx_user c' = cx_user c \<and> cx_role c' = cx_role c"
  by (cases c; cases c') (simp add: same_request_def)

locale reply_statement =
  fixes S :: "world \<Rightarrow> bool" and Q :: "world \<Rightarrow> response \<Rightarrow> world \<Rightarrow> bool"
  assumes onward: "S w \<Longrightarrow> idle w w1 \<Longrightarrow> S w1"
    and before: "idle w w1 \<Longrightarrow> Q w1 r w2 \<Longrightarrow> Q w r w2"
    and after: "Q w r w1 \<Longrightarrow> idle w1 w2 \<Longrightarrow> Q w r w2"
begin

definition told :: "response option http \<Rightarrow> bool" where
  "told m \<longleftrightarrow> hpost S Q m"

lemma toldI:
  "(\<And>sv x sv'. S (sv_world sv) \<Longrightarrow> m sv = (x, sv') \<Longrightarrow> \<exists>r. x = Some r \<and> Q (sv_world sv) r (sv_world sv')) \<Longrightarrow> told m"
  unfolding told_def hpost_def by blast

lemma toldD: "told m \<Longrightarrow> S (sv_world sv) \<Longrightarrow> m sv = (x, sv') \<Longrightarrow> \<exists>r. x = Some r \<and> Q (sv_world sv) r (sv_world sv')"
  unfolding told_def by (rule hpostD)

lemma told_after_clock: "(\<And>now. told (f now)) \<Longrightarrow> told (hbind hclock f)"
proof (rule toldI)
  fix sv x sv'
  assume f: "\<And>now. told (f now)" and s: "S (sv_world sv)" and run: "hbind hclock f sv = (x, sv')"
  obtain t sv1 where c: "hclock sv = (t, sv1)" by (cases "hclock sv")
  with run have "f t sv1 = (x, sv')" by (simp add: hbind_def)
  from toldD [OF f onward [OF s hclock_idle [OF c]] this] before [OF hclock_idle [OF c]]
  show "\<exists>r. x = Some r \<and> Q (sv_world sv) r (sv_world sv')" by blast
qed

lemma told_then_idle:
  assumes "told m" and "\<And>x sv y sv'. k (Some x) sv = (y, sv') \<Longrightarrow> y = Some x \<and> idle (sv_world sv) (sv_world sv')"
  shows "told (hbind m k)"
proof (rule toldI)
  fix sv x sv'
  assume s: "S (sv_world sv)" and run: "hbind m k sv = (x, sv')"
  obtain y sv1 where m: "m sv = (y, sv1)" by (cases "m sv")
  from toldD [OF assms(1) s m] obtain r where r: "y = Some r" "Q (sv_world sv) r (sv_world sv1)" by blast
  from run m r(1) have "k (Some r) sv1 = (x, sv')" by (simp add: hbind_def)
  from assms(2) [OF this] r(2) after show "\<exists>r. x = Some r \<and> Q (sv_world sv) r (sv_world sv')" by blast
qed

lemma told_global:
  assumes h: "\<And>c'. same_request c c' \<Longrightarrow> told (h c')"
  shows "told (global_middleware a h c)"
proof -
  have timeout: "told (RequestTimeout t h c')" if "same_request c c'" for c' t
  proof (cases "t \<le> 0")
    case True
    with h [OF that] show ?thesis by (simp add: RequestTimeout_def)
  next
    case False
    have "told (h (c'\<lparr>cx_deadline := Some (start + t)\<rparr>))" for start using that by (intro h) simp
    then show ?thesis
      unfolding RequestTimeout_def Let_def if_not_P [OF False]
      by (intro told_after_clock told_then_idle)
         (auto simp: hbind_def hret_def split: prod.splits dest: hclock_idle)
  qed
  have access: "told (AccessLog (RequestTimeout t h) c')" if "same_request c c'" for c' t
    unfolding AccessLog_def
    by (intro told_after_clock told_then_idle timeout that) (auto simp: hbind_def split: prod.splits dest: hclock_idle)
  have metrics: "told (metrics_Middleware (AccessLog (RequestTimeout t h)) c')" if "same_request c c'" for c' t
    unfolding metrics_Middleware_def Let_def
    by (intro told_after_clock told_then_idle access that) (auto simp: hbind_def split: prod.splits dest: hclock_idle)
  let ?M = "metrics_Middleware (AccessLog (RequestTimeout (seconds_duration (cf_RequestTimeoutSeconds (ap_config a))) h))"
  show ?thesis
  proof (rule toldI)
    fix sv x sv'
    assume s: "S (sv_world sv)" and run: "global_middleware a h c sv = (x, sv')"
    obtain t sv1 where t: "(if rq_header (cx_request c) ''X-Trace-ID'' = '''' then newTraceID
        else hret (rq_header (cx_request c) ''X-Trace-ID'')) sv = (t, sv1)" by fastforce
    then have i: "idle (sv_world sv) (sv_world sv1)"
      by (auto simp: hret_def split: if_splits dest: trace_idle) (simp add: idle_def)
    from run t have "?M (c\<lparr>cx_trace := Some t\<rparr>) (sv1\<lparr>sv_headers := sv_headers sv1 @ [(''X-Trace-ID'', t)]\<rparr>) = (x, sv')"
      by (simp add: global_middleware_def TraceID_def Let_def hbind_def)
    from toldD [OF metrics _ this] onward [OF s i] i before show "\<exists>r. x = Some r \<and> Q (sv_world sv) r (sv_world sv')" by auto
  qed
qed

lemma told_serve:
  assumes "\<And>c'. same_request (request_context a rq) c' \<Longrightarrow> told (route_handler a rq c')"
    and "serve a rq sv = (r, sv')" and "S (sv_world sv)"
  shows "Q (sv_world sv) r (sv_world sv')"
proof -
  obtain x sv1 where g: "global_middleware a (route_handler a rq) (request_context a rq) (sv\<lparr>sv_headers := []\<rparr>) = (x, sv1)"
    by fastforce
  from toldD [OF told_global [OF assms(1)] _ g] assms(2,3) g show ?thesis by (auto simp: serve_def Let_def)
qed

end

end
