(* ===== verification/HttpScenario.thy ===== *)
theory HttpScenario
  imports Server Scenario
begin

text \<open>
  A concrete server for the witnesses: the shop of \<^theory_text>\<open>Scenario\<close> behind the default configuration, a
  router that takes every URL for the path of a route, and two sessions, \<open>alice\<close> (user 7) and
  \<open>root\<close> (an administrator).
\<close>

definition demo_binders :: binders where
  "demo_binders = \<lparr>bi_credentials = (\<lambda>_. Inl ''bad''), bi_product = (\<lambda>_. Inl ''bad''), bi_activity = (\<lambda>_. Inl ''bad''),
     bi_status = (\<lambda>_. Inl ''bad''), bi_address = (\<lambda>_. Inl ''bad''), bi_cart_item = (\<lambda>_. Inl ''bad''),
     bi_quantity = (\<lambda>_. Inl ''bad''), bi_coupon = (\<lambda>_. Inl ''bad''),
     bi_order = (\<lambda>_. Inr \<lparr>co_activity = 1, co_request_id = ''r''\<rparr>),
     bi_checkout = (\<lambda>_. Inl ''bad''), bi_expire = (\<lambda>_. Inl ''bad''), bi_compensate = (\<lambda>_. Inl ''bad''),
     bi_reconcile = (\<lambda>_. Inl ''bad''), bi_payment = (\<lambda>_. Inl ''bad'')\<rparr>"

definition demo_parse :: "string \<Rightarrow> string \<Rightarrow> instant \<Rightarrow> Claims option" where
  "demo_parse secret tok now =
     (if tok = ''alice'' then Some \<lparr>cl_user = 7, cl_role = UserRoleUser, cl_expires = 1000, cl_issued = 0\<rparr>
      else if tok = ''root'' then Some \<lparr>cl_user = 1, cl_role = UserRoleAdmin, cl_expires = 1000, cl_issued = 0\<rparr>
      else None)"

definition demo_config :: Config where
  "demo_config = Load (\<lambda>_. None) (\<lambda>_. '''')"

definition demo_app :: app where
  "demo_app = \<lparr>ap_services = build_services (\<lambda>_ _. Inr ''t'') demo_config, ap_bind = demo_binders,
     ap_parse = demo_parse, ap_config = demo_config, ap_route = (\<lambda>_ url. Some (url, \<lambda>_. ''A1''))\<rparr>"

definition demo_request :: "string \<Rightarrow> string \<Rightarrow> string \<Rightarrow> request" where
  "demo_request m url tok = \<lparr>rq_method = m, rq_url = url,
     rq_header = (\<lambda>k. if k = ''Authorization'' then ''Bearer '' @ tok else ''''), rq_query = (\<lambda>_. ''''),
     rq_body = '''', rq_client = '''', rq_gone = None\<rparr>"

definition demo_server :: server where
  "demo_server = \<lparr>sv_world = demo, sv_metrics = NewStore, sv_limiter = order_limiter (\<lambda>_. 0) demo_config 0,
     sv_access = [], sv_headers = []\<rparr>"

lemma demo_config_fields [simp]:
  "cf_RequestTimeoutSeconds demo_config = 5" "cf_JWTSecret demo_config = ''dev-order-lab-secret''"
  "cf_RateLimitEnabled demo_config = False" "cf_RedisEnabled demo_config = False" "cf_RabbitEnabled demo_config = False"
  "cf_RabbitMaxRetries demo_config = 3"
  by (simp_all add: demo_config_def Load_def getenvInt_def getenv_def getenvBool_def Let_def)

lemma demo_app_fields [simp]:
  "ap_config demo_app = demo_config" "ap_parse demo_app = demo_parse" "ap_bind demo_app = demo_binders"
  "ap_route demo_app m url = Some (url, \<lambda>_. ''A1'')"
  "dp_orders (ap_services demo_app) = \<lparr>os_cache = False, os_rabbit = False, os_max_retries = 3\<rparr>"
  by (simp_all add: demo_app_def build_services_def NewOrderService_def SetRabbitMaxRetries_def)

lemma demo_request_fields [simp]:
  "rq_method (demo_request m url tok) = m" "rq_url (demo_request m url tok) = url" "rq_gone (demo_request m url tok) = None"
  "rq_header (demo_request m url tok) ''Authorization'' = ''Bearer '' @ tok"
  "rq_header (demo_request m url tok) ''X-Trace-ID'' = ''''"
  by (simp_all add: demo_request_def)

lemma demo_server_world [simp]: "sv_world demo_server = demo"
  by (simp add: demo_server_def)

lemmas http_eval = serve_def global_middleware_def TraceID_def metrics_Middleware_def AccessLog_def RequestTimeout_def
  hbind_def hret_def hclock_def newTraceID_def reply_def business_def service_def bound_def answer_def
  Auth_def header_prefix_def RequireRole_def UserRole_def UserID_def request_err_def ctx_err_def
  matched_def request_context_def new_context_def response_Error_def response_Accepted_def response_OK_def
  seconds_duration_def go_second_def IsValidUserRole_def

end
