(* ===== verification/HttpProps.thy ===== *)
theory HttpProps
  imports HttpRules HttpScenario OrderProps
begin

text \<open>
  What clients can rely on over HTTP: whatever requests arrive, the ledger of orders, stock and
  payments stays consistent; administration needs an administrator's token; an answer 202 is an
  order and every refusal changes nothing; a session from a login is accepted by the guards.
\<close>

section \<open>Every handler keeps the ledger\<close>

text \<open>Binding gives Go integers, which fit 64 bits.\<close>

definition binds_in_range :: "binders \<Rightarrow> bool" where
  "binds_in_range b \<longleftrightarrow> (\<forall>s i. bi_product b s = Inr i \<longrightarrow> in_i64 (cp_stock i)) \<and>
     (\<forall>s i. bi_activity b s = Inr i \<longrightarrow> in_i64 (ca_stock i))"

abbreviation hobeys :: "world \<Rightarrow> world \<Rightarrow> bool" where
  "hobeys \<equiv> \<lambda>w w'. obeys (tables w) (tables w')"

lemma h_obeys: "tracks obeys m \<Longrightarrow> htracks hobeys (answer st ok m)"
  by (rule ledger.over_tables.h_answer) (rule tracksD)

lemma h_obeys_service: "tracks obeys m \<Longrightarrow> htracks hobeys (service m)"
  by (rule ledger.over_tables.h_service) (rule tracksD)

lemma obeys_reading_services:
  "tracks obeys (ListOrders u)" "tracks obeys (GetOrder u no)" "tracks obeys ListLogs"
  "tracks obeys ListProducts" "tracks obeys ListActivities" "tracks obeys admin_Overview" "tracks obeys (admin_ListOrders q)"
  unfolding ListOrders_def GetOrder_def ListLogs_def ListProducts_def ListActivities_def admin_Overview_def
    admin_ListOrders_def countOrdersByStatus_def sum_by_def Let_def
  by (intro obeys_intros ledger.tracks_stmt; auto simp: obeys_def split: if_splits)+

lemmas obeys_services = obeys_CreateOrderContext obeys_CheckoutCart obeys_CancelOrder obeys_ExpireOrders
  obeys_Compensate obeys_ReconcileStock obeys_PaymentCallback obeys_UpdateActivityStatus
  obeys_CreateProduct obeys_CreateActivity customer_sides [THEN obeys_sides] obeys_reading_services

lemmas handler_defs = order_CheckoutCart_def order_ListOrders_def order_GetOrder_def
  order_CancelOrder_def order_ExpireOrders_def order_Compensate_def order_ReconcileStock_def order_ListLogs_def
  catalog_ListProducts_def catalog_ListActivities_def
  catalog_UpdateActivityStatus_def cart_AddItem_handler_def cart_ListItems_def cart_UpdateItem_def cart_DeleteItem_handler_def
  address_CreateAddress_def address_ListAddresses_def address_SetDefault_handler_def coupon_CreateCoupon_def
  coupon_ListCoupons_def coupon_ClaimCoupon_def coupon_MyCoupons_handler_def auth_Register_handler_def auth_Login_handler_def
  admin_Overview_handler_def admin_ListOrders_handler_def

lemmas h_ledger = ledger.over_tables.h_bound ledger.over_tables.h_with_id ledger.over_tables.h_case_prod h_obeys

lemma plain_handlers_obey:
  "htracks hobeys (order_CheckoutCart a c)" "htracks hobeys (order_ListOrders a c)" "htracks hobeys (order_GetOrder a c)"
  "htracks hobeys (order_CancelOrder a c)" "htracks hobeys (order_ExpireOrders a c)" "htracks hobeys (order_Compensate a c)"
  "htracks hobeys (order_ReconcileStock a c)" "htracks hobeys (order_ListLogs a c)" "htracks hobeys (catalog_ListProducts a c)"
  "htracks hobeys (catalog_ListActivities a c)" "htracks hobeys (catalog_UpdateActivityStatus a c)"
  "htracks hobeys (cart_AddItem_handler a c)" "htracks hobeys (cart_ListItems a c)" "htracks hobeys (cart_UpdateItem a c)"
  "htracks hobeys (cart_DeleteItem_handler a c)" "htracks hobeys (address_CreateAddress a c)"
  "htracks hobeys (address_ListAddresses a c)" "htracks hobeys (address_SetDefault_handler a c)"
  "htracks hobeys (coupon_CreateCoupon a c)" "htracks hobeys (coupon_ListCoupons a c)" "htracks hobeys (coupon_ClaimCoupon a c)"
  "htracks hobeys (coupon_MyCoupons_handler a c)" "htracks hobeys (auth_Register_handler a c)"
  "htracks hobeys (auth_Login_handler a c)" "htracks hobeys (admin_Overview_handler a c)" "htracks hobeys (admin_ListOrders_handler a c)"
  unfolding handler_defs by (intro h_ledger obeys_services)+

lemma bound_handlers_obey:
  assumes "binds_in_range (ap_bind a)"
  shows "htracks hobeys (catalog_CreateProduct a c)" "htracks hobeys (catalog_CreateActivity a c)"
  using assms unfolding catalog_CreateProduct_def catalog_CreateActivity_def binds_in_range_def
  by (auto intro!: ledger.over_tables.h_bound h_obeys obeys_CreateProduct obeys_CreateActivity)

lemma counted_handlers_obey:
  "htracks hobeys (order_CreateOrder a c)" "htracks hobeys (order_PaymentCallback a c)"
  unfolding order_CreateOrder_def order_PaymentCallback_def
  by (intro ledger.over_tables.h_bound ledger.over_tables.h_bind ledger.over_tables.h_basic h_obeys_service
      ledger.over_tables.h_case_sum ledger.over_tables.h_case_prod obeys_services)+

lemma info_handlers_obey: "htracks hobeys (health c)" "htracks hobeys (metrics_Handler c)"
proof -
  show "htracks hobeys (health c)" unfolding health_def by (rule ledger.over_tables.h_reply)
  show "htracks hobeys (metrics_Handler c)" by (rule ledger.over_tables.h_pure) (simp add: metrics_Handler_def)
qed

lemmas handlers_obey = plain_handlers_obey bound_handlers_obey counted_handlers_obey info_handlers_obey

lemma routes_obey:
  assumes "binds_in_range (ap_bind a)" and "map_of (routes a) k = Some h"
  shows "htracks hobeys (h c)"
proof -
  have mem: "(k, h) \<in> set (routes a)" using assms(2) by (rule map_of_SomeD)
  have o: "\<forall>(k, h)\<in>set (open_routes a). \<forall>c. htracks hobeys (h c)"
    using assms(1) by (simp add: open_routes_def handlers_obey)
  have p: "\<forall>(k, h)\<in>set (protected_routes a). \<forall>c. htracks hobeys (h c)"
    using assms(1) by (simp add: protected_routes_def handlers_obey ledger.over_tables.h_limiter)
  have ad: "\<forall>(k, h)\<in>set (admin_routes a). \<forall>c. htracks hobeys (h c)"
    using assms(1) by (simp add: admin_routes_def handlers_obey)
  show ?thesis
    using mem o p ad
    by (auto simp: routes_def guard_with_def Let_def handlers_obey
        intro!: ledger.over_tables.h_auth ledger.over_tables.h_role)
qed

lemma serve_obeys: "binds_in_range (ap_bind a) \<Longrightarrow> htracks hobeys (serve a rq)"
  by (rule ledger.over_tables.h_serve) (rule ledger.over_tables.h_route, rule routes_obey)

text \<open>
  C22: no sequence of HTTP requests oversells.  Whatever requests arrive at whatever paths, with
  whatever bodies, tokens and failures of the outside, the ledger stays consistent, and the stock
  of every activity stays non-negative and, with the live orders that hold a unit of it, constant.
\<close>

theorem http_never_oversells:
  assumes "binds_in_range (ap_bind a)" and "ledger_inv (tables (sv_world sv))" and "serve_all a rqs sv = (rs, sv')"
    and "act \<in> set (activities (tables (sv_world sv)))"
  shows "ledger_inv (tables (sv_world sv')) \<and>
    (\<exists>act'\<in>set (activities (tables (sv_world sv'))). a_id act' = a_id act \<and> 0 \<le> a_stock act' \<and>
      a_stock act' + int (length (filter (\<lambda>x. live x \<and> o_activity x = a_id act) (orders (tables (sv_world sv'))))) =
      a_stock act + int (length (filter (\<lambda>x. live x \<and> o_activity x = a_id act) (orders (tables (sv_world sv))))))"
proof -
  have "htracks hobeys (serve_all a rqs)"
    by (rule ledger.over_tables.h_serve_all) (rule serve_obeys [OF assms(1)])
  from htracksD [OF this assms(3)] assms(2) have
    "ledger_inv (tables (sv_world sv'))" and e: "evs (tables (sv_world sv)) (tables (sv_world sv'))"
    by (auto simp: obeys_def dest: evs_ledger)
  with evs_activity_stock [OF e assms(2,4)] show ?thesis by blast
qed

theorem http_never_oversells_witness:
  "\<exists>act'\<in>set (activities (tables (sv_world (snd (serve_all demo_app [demo_request ''POST'' ''/api/orders'' ''alice''] demo_server))))).
     a_id act' = 1 \<and> 0 \<le> a_stock act'"
proof -
  obtain rs sv' where run: "serve_all demo_app [demo_request ''POST'' ''/api/orders'' ''alice''] demo_server = (rs, sv')"
    by fastforce
  have "binds_in_range (ap_bind demo_app)" by (simp add: binds_in_range_def demo_binders_def)
  from http_never_oversells [OF this _ run, of demo_activity] run show ?thesis
    by (simp add: demo_ledger) (auto simp: demo_tables_def empty_tables_def demo_activity_def)
qed

section \<open>Which route a request takes\<close>

lemma routes_once: "distinct (map fst (routes a))"
  by (simp add: routes_def guard_with_def open_routes_def protected_routes_def admin_routes_def Let_def)

lemma route_taken: "((rq_method rq, fst (matched a rq)), h) \<in> set (routes a) \<Longrightarrow> route_handler a rq = h"
  by (simp add: route_handler_def map_of_is_SomeI [OF routes_once])

definition protect :: "app \<Rightarrow> middleware" where
  "protect a = Auth (ap_parse a) (cf_JWTSecret (ap_config a))"

lemma protected_taken:
  "((rq_method rq, fst (matched a rq)), h) \<in> set (protected_routes a) \<Longrightarrow> route_handler a rq = protect a h"
  by (rule route_taken) (force simp: routes_def guard_with_def protect_def Let_def)

lemma admin_taken:
  "((rq_method rq, fst (matched a rq)), h) \<in> set (admin_routes a) \<Longrightarrow>
     route_handler a rq = protect a (RequireRole [UserRoleAdmin] h)"
  by (rule route_taken) (force simp: routes_def guard_with_def protect_def Let_def)

lemma context_request [simp]: "cx_request (request_context a rq) = rq" "cx_user (request_context a rq) = None"
  "cx_role (request_context a rq) = None" "cx_param (request_context a rq) = snd (matched a rq)"
  by (simp_all add: request_context_def new_context_def)

text \<open>The session a request carries at an instant: the claims of its bearer token, when it is valid.\<close>

definition session_of :: "app \<Rightarrow> request \<Rightarrow> instant \<Rightarrow> Claims option" where
  "session_of a rq now =
     (let auth = rq_header rq ''Authorization'' in
      if auth = '''' \<or> take 7 auth \<noteq> header_prefix then None
      else
        (case ap_parse a (cf_JWTSecret (ap_config a)) (drop 7 auth) now of
           None \<Rightarrow> None
         | Some claims \<Rightarrow> if cl_user claims = 0 \<or> \<not> IsValidUserRole (cl_role claims) then None else Some claims))"

lemma protect_cases:
  assumes "protect a h c sv = (x, sv')"
  obtains (refused) m where "x = Some (response_Error 401 m)" "idle (sv_world sv) (sv_world sv')"
  | (session) claims sv1 where
      "session_of a (cx_request c) (clock (ext (sv_world sv)) (tick (sv_world sv))) = Some claims"
      "sv_world sv1 = (sv_world sv)\<lparr>tick := Suc (tick (sv_world sv))\<rparr>"
      "h (c\<lparr>cx_user := Some (cl_user claims), cx_role := Some (cl_role claims)\<rparr>) sv1 = (x, sv')"
proof (cases "rq_header (cx_request c) ''Authorization'' = '''' \<or> take 7 (rq_header (cx_request c) ''Authorization'') \<noteq> header_prefix")
  case True
  with assms have "x = Some (response_Error 401 ''missing bearer token'')" "sv' = sv"
    by (auto simp: protect_def Auth_def Let_def reply_def hret_def)
  then show thesis using refused idle.P_refl by simp
next
  case False
  let ?w = "sv_world sv"
  define now sv1 where at: "now = clock (ext ?w) (tick ?w)" "sv1 = sv\<lparr>sv_world := ?w\<lparr>tick := Suc (tick ?w)\<rparr>\<rparr>"
  then have clock: "hclock sv = (now, sv1)" by (simp add: hclock_def Let_def)
  let ?tok = "ap_parse a (cf_JWTSecret (ap_config a)) (drop 7 (rq_header (cx_request c) ''Authorization'')) now"
  show thesis
  proof (cases "session_of a (cx_request c) now")
    case None
    with False clock assms have "x = Some (response_Error 401 ''invalid token'')" "sv' = sv1"
      by (auto simp: protect_def Auth_def session_of_def Let_def hbind_def reply_def hret_def split: option.splits if_splits)
    then show thesis using refused hclock_idle [OF clock] by simp
  next
    case (Some claims)
    with False clock assms have "h (c\<lparr>cx_user := Some (cl_user claims), cx_role := Some (cl_role claims)\<rparr>) sv1 = (x, sv')"
      by (auto simp: protect_def Auth_def session_of_def Let_def hbind_def split: option.splits if_splits)
    with session [OF Some [unfolded at] _ this] show thesis by (simp add: at)
  qed
qed

section \<open>Statements of one request\<close>

context reply_statement
begin

lemma told_reply: "(\<And>w. S w \<Longrightarrow> Q w r w) \<Longrightarrow> told (reply r)"
  by (rule toldI) (auto simp: reply_def hret_def)

text \<open>
  Behind the guard the session is the one the request carries at the reading of the clock that
  precedes the handler.
\<close>

lemma told_protect:
  assumes "\<And>w m. S w \<Longrightarrow> Q w (response_Error 401 m) w"
    and "\<And>w claims. S w \<Longrightarrow> session_of a (cx_request c) (clock (ext w) (tick w)) = Some claims \<Longrightarrow>
      hpost (since (ext w) (Suc (tick w))) Q (h (c\<lparr>cx_user := Some (cl_user claims), cx_role := Some (cl_role claims)\<rparr>))"
  shows "told (protect a h c)"
proof (rule toldI)
  fix sv x sv'
  assume s: "S (sv_world sv)" and "protect a h c sv = (x, sv')"
  from this(2) show "\<exists>r. x = Some r \<and> Q (sv_world sv) r (sv_world sv')"
  proof (cases rule: protect_cases)
    case (refused m)
    with after [OF assms(1) [OF s]] show ?thesis by blast
  next
    case (session claims sv1)
    have "since (ext (sv_world sv)) (Suc (tick (sv_world sv))) (sv_world sv1)" and i: "idle (sv_world sv) (sv_world sv1)"
      by (simp_all add: since_def idle_def session(2))
    from hpostD [OF assms(2) [OF s session(1)] this(1) session(3)] before [OF i] show ?thesis by blast
  qed
qed

lemma told_limiter:
  assumes "told (h c)" and "\<And>w m. S w \<Longrightarrow> Q w (response_Error 429 m) w"
  shows "told (limiter_Middleware h c)"
  unfolding limiter_Middleware_def
proof (rule told_after_clock)
  fix now
  show "told (\<lambda>sv. case allow now (sv_limiter sv) of (ok, l') \<Rightarrow>
      (let sv' = sv\<lparr>sv_limiter := l'\<rparr> in
       if \<not> ok then hbind (business ''rate_limit'' ''blocked'') (\<lambda>_. reply (response_Error 429 ''too many requests'')) sv'
       else h c sv'))" (is "told ?f")
  proof (rule toldI)
    fix sv :: server and x sv'
    obtain ok l' where l: "allow now (sv_limiter sv) = (ok, l')" by (cases "allow now (sv_limiter sv)")
    assume s: "S (sv_world sv)" and "?f sv = (x, sv')"
    with l have run: "if ok then h c (sv\<lparr>sv_limiter := l'\<rparr>) = (x, sv')
      else x = Some (response_Error 429 ''too many requests'') \<and> sv_world sv' = sv_world sv"
      by (auto simp: Let_def hbind_def business_def reply_def hret_def)
    show "\<exists>r. x = Some r \<and> Q (sv_world sv) r (sv_world sv')"
    proof (cases ok)
      case True
      with run toldD [OF assms(1), of "sv\<lparr>sv_limiter := l'\<rparr>"] s show ?thesis by simp
    next
      case False
      with run assms(2) s show ?thesis by simp
    qed
  qed
qed

lemma told_bound:
  assumes "\<And>w m. S w \<Longrightarrow> Q w (response_Error 400 m) w"
    and "\<And>i. bind (rq_body (cx_request c)) = Inr i \<Longrightarrow> told (f i)"
  shows "told (bound bind f c)"
  unfolding bound_def by (cases "bind (rq_body (cx_request c))") (auto intro!: told_reply assms)

text \<open>A service whose outcome alone decides the reply.\<close>

lemma told_service:
  assumes "\<And>w res w'. S w \<Longrightarrow> m w = (res, w') \<Longrightarrow>
    \<exists>r. (\<forall>sv. \<exists>sv'. k res sv = (Some r, sv') \<and> sv_world sv' = sv_world sv) \<and> Q w r w'"
  shows "told (hbind (service m) k)"
proof (rule toldI)
  fix sv x sv'
  assume s: "S (sv_world sv)" and run: "hbind (service m) k sv = (x, sv')"
  obtain res w' where m: "m (sv_world sv) = (res, w')" by (cases "m (sv_world sv)")
  with run have k: "k res (sv\<lparr>sv_world := w'\<rparr>) = (x, sv')" by (simp add: hbind_def service_def)
  from assms [OF s m] obtain r where r: "\<And>sv. \<exists>sv'. k res sv = (Some r, sv') \<and> sv_world sv' = sv_world sv" "Q (sv_world sv) r w'"
    by blast
  from r(1) [of "sv\<lparr>sv_world := w'\<rparr>"] k r(2) show "\<exists>r. x = Some r \<and> Q (sv_world sv) r (sv_world sv')" by auto
qed

end

text \<open>
  What the guards promise of an administrator's path: without an administrator's session the
  answer is 401 or 403 and nothing happened.
\<close>

definition turned_away :: "world \<Rightarrow> response \<Rightarrow> world \<Rightarrow> bool" where
  "turned_away w r w' \<longleftrightarrow> (rs_status r = 401 \<or> rs_status r = 403) \<and> idle w w'"

interpretation away: reply_statement "since e n" turned_away for e n
  by unfold_locales (auto simp: turned_away_def intro: idle.P_trans since_idle)

lemma admin_turned_away:
  assumes "\<And>k claims. n \<le> k \<Longrightarrow> session_of a (cx_request c) (clock e k) = Some claims \<Longrightarrow> cl_role claims \<noteq> UserRoleAdmin"
  shows "away.told e n (protect a (RequireRole [UserRoleAdmin] h) c)"
proof (rule away.told_protect)
  show "turned_away w (response_Error 401 m) w" for w m
    by (simp add: turned_away_def response_Error_def idle.P_refl)
next
  fix w :: world and claims :: Claims
  let ?c = "c\<lparr>cx_user := Some (cl_user claims), cx_role := Some (cl_role claims)\<rparr>"
  assume "since e n w" and "session_of a (cx_request c) (clock (ext w) (tick w)) = Some claims"
  with assms [of "tick w" claims] have no: "cl_role claims \<noteq> UserRoleAdmin" by (simp add: since_def)
  have "turned_away w' (response_Error 403 m) w'" for w' m
    by (simp add: turned_away_def response_Error_def idle.P_refl)
  from away.told_reply [OF this, unfolded away.told_def] no
  show "hpost (since (ext w) (Suc (tick w))) turned_away (RequireRole [UserRoleAdmin] h ?c)"
    by (simp add: RequireRole_def UserRole_def)
qed

text \<open>
  C23: the administration is closed to everybody else.  A request on a path of the administration whose
  bearer token is missing, malformed, forged or not an administrator's, or was an administrator's and
  has expired, is answered with 401 or 403, and the database, Redis and the queues are left exactly as
  they were.  All that is asked is that the token is not a valid administrator's session at any reading
  of the clock from the arrival of the request on; what it was before does not matter.
\<close>

theorem admin_paths_guarded:
  assumes "(rq_method rq, fst (matched a rq)) \<in> fst ` set (admin_routes a)"
    and "\<And>k claims. tick (sv_world sv) \<le> k \<Longrightarrow> session_of a rq (clock (ext (sv_world sv)) k) = Some claims \<Longrightarrow>
      cl_role claims \<noteq> UserRoleAdmin"
    and "serve a rq sv = (r, sv')"
  shows "(rs_status r = 401 \<or> rs_status r = 403) \<and> sv_world sv' = (sv_world sv)\<lparr>tick := tick (sv_world sv')\<rparr>"
proof -
  let ?w = "sv_world sv"
  from assms(1) obtain h where h: "((rq_method rq, fst (matched a rq)), h) \<in> set (admin_routes a)" by auto
  have "turned_away ?w r (sv_world sv')"
  proof (rule away.told_serve [where e = "ext ?w" and n = "tick ?w", OF _ assms(3)])
    fix c' assume "same_request (request_context a rq) c'"
    then have "cx_request c' = rq" using same_request_fields by fastforce
    then show "away.told (ext ?w) (tick ?w) (route_handler a rq c')"
      unfolding admin_taken [OF h] using assms(2) by (intro admin_turned_away) simp
  qed (simp add: since_def)
  then show ?thesis by (simp add: turned_away_def idle_def)
qed

text \<open>An administrator's token that was valid before the instant 50; the clock of the scenario shows 100.\<close>

definition stale_app :: app where
  "stale_app = demo_app\<lparr>ap_parse := (\<lambda>_ tok now.
     if tok = ''root'' \<and> now < 50 then Some \<lparr>cl_user = 1, cl_role = UserRoleAdmin, cl_expires = 50, cl_issued = 0\<rparr> else None)\<rparr>"

theorem admin_paths_guarded_witness:
  "\<exists>r sv'. serve stale_app (demo_request ''GET'' ''/api/order-logs'' ''root'') demo_server = (r, sv') \<and>
     session_of stale_app (demo_request ''GET'' ''/api/order-logs'' ''root'') 49 \<noteq> None \<and>
     (rs_status r = 401 \<or> rs_status r = 403)"
proof -
  let ?rq = "demo_request ''GET'' ''/api/order-logs'' ''root''"
  obtain r sv' where run: "serve stale_app ?rq demo_server = (r, sv')" by fastforce
  have session: "session_of stale_app ?rq now = (if now < 50
      then Some \<lparr>cl_user = 1, cl_role = UserRoleAdmin, cl_expires = 50, cl_issued = 0\<rparr> else None)" for now
    by (simp add: session_of_def stale_app_def header_prefix_def IsValidUserRole_def Let_def)
  have "(rq_method ?rq, fst (matched stale_app ?rq)) \<in> fst ` set (admin_routes stale_app)"
    by (simp add: admin_routes_def matched_def stale_app_def)
  moreover have "cl_role claims \<noteq> UserRoleAdmin" if "session_of stale_app ?rq (clock (ext demo) k) = Some claims" for k claims
    using that by (simp add: session demo_def fresh_world_def calm_def)
  ultimately have "rs_status r = 401 \<or> rs_status r = 403" using admin_paths_guarded [OF _ _ run] by simp
  with run session [of 49] show ?thesis by simp
qed

section \<open>Ordering over HTTP\<close>

definition refusal_codes :: "int set" where
  "refusal_codes = {400, 401, 404, 408, 409, 429, 504}"

lemma order_error_codes: "orderErrorStatus err \<in> refusal_codes"
  by (auto simp: orderErrorStatus_def refusal_codes_def split: goerr.splits ext_error.splits)

text \<open>The request carries this session at one of the readings of \<open>e\<close>'s clock from \<open>n\<close> to before \<open>n'\<close>.\<close>

definition session_within :: "app \<Rightarrow> request \<Rightarrow> outside \<Rightarrow> nat \<Rightarrow> nat \<Rightarrow> Claims \<Rightarrow> bool" where
  "session_within a rq e n n' claims \<longleftrightarrow> (\<exists>k. n \<le> k \<and> k < n' \<and> session_of a rq (clock e k) = Some claims)"

lemma session_within_mono: "session_within a rq e n n1 claims \<Longrightarrow> n1 \<le> n2 \<Longrightarrow> session_within a rq e n n2 claims"
  unfolding session_within_def by (meson less_le_trans)

definition ordered :: "app \<Rightarrow> request \<Rightarrow> outside \<Rightarrow> nat \<Rightarrow> world \<Rightarrow> response \<Rightarrow> world \<Rightarrow> bool" where
  "ordered a rq e n w r w' \<longleftrightarrow>
     (\<exists>claims input act act' ord left.
        session_within a rq e n (tick w') claims \<and> bi_order (ap_bind a) (rq_body rq) = Inr input \<and>
        act \<in> set (activities (tables w)) \<and> a_id act = co_activity input \<and> 0 < a_stock act \<and>
        o_user ord = cl_user claims \<and> o_activity ord = a_id act \<and> o_status ord = OrderStatusQueued \<and>
        o_amount ord = a_price act \<and> a_id act' = a_id act \<and> a_stock act' = a_stock act - 1 \<and>
        same_but_logs ((tables w)\<lparr>activities := put_row a_id act' (activities (tables w)), orders := orders (tables w) @ [ord]\<rparr>) (tables w') \<and>
        r = response_Accepted (PAcceptedOrder (o_order_no ord) OrderStatusQueued left))"

definition order_reply :: "app \<Rightarrow> request \<Rightarrow> outside \<Rightarrow> nat \<Rightarrow> world \<Rightarrow> response \<Rightarrow> world \<Rightarrow> bool" where
  "order_reply a rq e n w r w' \<longleftrightarrow> (ledger_inv (tables w) \<longrightarrow>
     (rs_status r \<in> refusal_codes \<and> same_but_logs (tables w) (tables w')) \<or> ordered a rq e n w r w')"

lemma order_reply_after: "order_reply a rq e n w r w1 \<Longrightarrow> idle w1 w2 \<Longrightarrow> order_reply a rq e n w r w2"
proof -
  assume reply: "order_reply a rq e n w r w1" and "idle w1 w2"
  from this(2) have t: "tables w2 = tables w1" and k: "tick w1 \<le> tick w2" by (simp_all add: idle_tables idle_kept)
  have "ordered a rq e n w r w2" if "ordered a rq e n w r w1"
    using that unfolding ordered_def t
    by (elim exE conjE) (intro exI conjI; (assumption | erule session_within_mono [OF _ k]))
  with reply show ?thesis by (auto simp: order_reply_def t)
qed

interpretation placing: reply_statement "since e m" "order_reply a rq e n" for e m a rq n
proof
  show "since e m w \<Longrightarrow> idle w w1 \<Longrightarrow> since e m w1" for w w1 by (rule since_idle)
  show "idle w w1 \<Longrightarrow> order_reply a rq e n w1 r w2 \<Longrightarrow> order_reply a rq e n w r w2" for w w1 r w2
    by (drule idle_tables) (simp add: order_reply_def ordered_def)
qed (rule order_reply_after)

lemma refused_order: "rs_status r \<in> refusal_codes \<Longrightarrow> order_reply a rq e n w r w"
  by (simp add: order_reply_def logs.R_refl)

lemma order_handler_told:
  assumes "n \<le> k" and "session_of a rq (clock e k) = Some claims" and "cx_user c = Some (cl_user claims)" and "cx_request c = rq"
  shows "placing.told e (Suc k) a rq n (order_CreateOrder a c)"
  unfolding order_CreateOrder_def
proof (intro placing.told_bound placing.told_after_clock placing.told_service, goal_cases)
  case (1 w m)
  then show ?case by (intro refused_order) (simp add: refusal_codes_def response_Error_def)
next
  case (2 input now' w res w')
  have uid: "UserID c = cl_user claims" by (simp add: UserID_def assms(3))
  show ?case
  proof (cases res)
    case (Inl err)
    with 2(3) have "same_but_logs (tables w) (tables w')" by (auto dest: clean_CreateOrderContext [THEN fails_cleanD])
    then have "order_reply a rq e n w (response_Error (orderErrorStatus err) (err_text err)) w'"
      by (simp add: order_reply_def order_error_codes response_Error_def)
    with Inl show ?thesis by (auto simp: hbind_def business_def reply_def hret_def)
  next
    case (Inr x)
    obtain ord left where x: "x = (ord, left)" by (cases x)
    have "ordered a rq e n w (response_Accepted (PAcceptedOrder (o_order_no ord) (o_status ord) left)) w'" if "ledger_inv (tables w)"
    proof -
      from create_order_places [OF 2(3) [unfolded Inr x] that] obtain act act' k1 k2 where
        "act \<in> set (activities (tables w))" "a_id act = co_activity input" "0 < a_stock act"
        and ticks: "tick w \<le> k1" "k1 \<le> k2" "k2 < tick w'" and
        "o_user ord = cl_user claims" "o_activity ord = a_id act" and q: "o_status ord = OrderStatusQueued" and
        "o_amount ord = a_price act" "a_id act' = a_id act" "a_stock act' = a_stock act - 1"
        "same_but_logs ((tables w)\<lparr>activities := put_row a_id act' (activities (tables w)), orders := orders (tables w) @ [ord]\<rparr>) (tables w')"
        unfolding uid by blast
      moreover have "session_within a rq e n (tick w') claims"
        using assms(1,2) 2(2) ticks unfolding session_within_def since_def by (intro exI [of _ k]) simp
      ultimately have placed: "session_within a rq e n (tick w') claims \<and> bi_order (ap_bind a) (rq_body rq) = Inr input \<and>
        act \<in> set (activities (tables w)) \<and> a_id act = co_activity input \<and> 0 < a_stock act \<and>
        o_user ord = cl_user claims \<and> o_activity ord = a_id act \<and> o_status ord = OrderStatusQueued \<and>
        o_amount ord = a_price act \<and> a_id act' = a_id act \<and> a_stock act' = a_stock act - 1 \<and>
        same_but_logs ((tables w)\<lparr>activities := put_row a_id act' (activities (tables w)), orders := orders (tables w) @ [ord]\<rparr>) (tables w')"
        using 2(1) by (simp add: assms(4))
      show ?thesis unfolding ordered_def q
        by (rule exI [of _ claims], rule exI [of _ input], rule exI [of _ act], rule exI [of _ act'],
            rule exI [of _ ord], rule exI [of _ left]) (simp only: placed simp_thms)
    qed
    then have "order_reply a rq e n w (response_Accepted (PAcceptedOrder (o_order_no ord) (o_status ord) left)) w'"
      by (simp add: order_reply_def)
    with Inr x show ?thesis by (auto simp: hbind_def business_def reply_def hret_def)
  qed
qed

text \<open>
  C24: what a client that posts an order can conclude from the status.  Either the answer is an error
  (400, 401, 404, 408, 409, 429 or 504) and no table but the log has changed, or it is 202 with the
  number of the one order that was added: queued, owned by the user of the session the request
  carries at a reading of the clock during the request, at the price of the activity named in the body, whose stock went down by exactly one.
\<close>

theorem order_request:
  assumes "rq_method rq = ''POST''" and "fst (matched a rq) = ''/api/orders''"
    and "ledger_inv (tables (sv_world sv))" and "serve a rq sv = (r, sv')"
  shows "(rs_status r \<in> refusal_codes \<and> same_but_logs (tables (sv_world sv)) (tables (sv_world sv'))) \<or>
    (\<exists>k claims input act act' ord left.
       tick (sv_world sv) \<le> k \<and> k < tick (sv_world sv') \<and>
       session_of a rq (clock (ext (sv_world sv)) k) = Some claims \<and> bi_order (ap_bind a) (rq_body rq) = Inr input \<and>
       act \<in> set (activities (tables (sv_world sv))) \<and> a_id act = co_activity input \<and> 0 < a_stock act \<and>
       o_user ord = cl_user claims \<and> o_activity ord = a_id act \<and> o_status ord = OrderStatusQueued \<and>
       o_amount ord = a_price act \<and> a_id act' = a_id act \<and> a_stock act' = a_stock act - 1 \<and>
       same_but_logs ((tables (sv_world sv))\<lparr>activities := put_row a_id act' (activities (tables (sv_world sv))),
         orders := orders (tables (sv_world sv)) @ [ord]\<rparr>) (tables (sv_world sv')) \<and>
       r = response_Accepted (PAcceptedOrder (o_order_no ord) OrderStatusQueued left))"
proof -
  let ?h = "if cf_RateLimitEnabled (ap_config a) then limiter_Middleware (order_CreateOrder a) else order_CreateOrder a"
  have "((rq_method rq, fst (matched a rq)), ?h) \<in> set (protected_routes a)"
    unfolding assms(1,2) by (simp add: protected_routes_def)
  note h = protected_taken [OF this]
  let ?w = "sv_world sv"
  let ?e = "ext ?w" and ?n = "tick ?w"
  have refuse: "order_reply a rq ?e ?n w (response_Error 401 m) w" "order_reply a rq ?e ?n w (response_Error 429 m) w" for w m
    by (simp_all add: refused_order refusal_codes_def response_Error_def)
  have "order_reply a rq ?e ?n ?w r (sv_world sv')"
  proof (rule placing.told_serve [where e = ?e and m = ?n, OF _ assms(4)])
    fix c' assume "same_request (request_context a rq) c'"
    then have c': "cx_request c' = rq" using same_request_fields by fastforce
    show "placing.told ?e ?n a rq ?n (route_handler a rq c')"
      unfolding h
    proof (rule placing.told_protect)
      fix w :: world and claims :: Claims
      let ?c = "c'\<lparr>cx_user := Some (cl_user claims), cx_role := Some (cl_role claims)\<rparr>"
      assume "since ?e ?n w" and ses: "session_of a (cx_request c') (clock (ext w) (tick w)) = Some claims"
      then have e: "ext w = ?e" "?n \<le> tick w" by (simp_all add: since_def)
      have "placing.told ?e (Suc (tick w)) a rq ?n (order_CreateOrder a ?c)"
        by (rule order_handler_told [OF e(2) ses [unfolded c' e(1)]]) (simp_all add: c')
      with refuse(2) have "placing.told ?e (Suc (tick w)) a rq ?n (?h ?c)" by (auto intro: placing.told_limiter)
      then show "hpost (since (ext w) (Suc (tick w))) (order_reply a rq ?e ?n) (?h ?c)"
        by (simp add: placing.told_def e(1))
    qed (rule refuse(1))
  qed (simp add: since_def)
  with assms(3) have "(rs_status r \<in> refusal_codes \<and> same_but_logs (tables ?w) (tables (sv_world sv'))) \<or>
    ordered a rq ?e ?n ?w r (sv_world sv')" by (simp add: order_reply_def)
  then show ?thesis unfolding ordered_def session_within_def by blast
qed

theorem order_request_witness:
  "\<exists>r sv' (ord :: order) left. serve demo_app (demo_request ''POST'' ''/api/orders'' ''alice'') demo_server = (r, sv') \<and>
     o_user ord = 7 \<and> o_amount ord = 7 \<and> r = response_Accepted (PAcceptedOrder (o_order_no ord) OrderStatusQueued left)"
proof -
  let ?rq = "demo_request ''POST'' ''/api/orders'' ''alice''"
  have h: "route_handler demo_app ?rq = protect demo_app (order_CreateOrder demo_app)"
    by (rule protected_taken) (simp add: protected_routes_def matched_def)
  have "\<exists>r sv'. serve demo_app ?rq demo_server = (r, sv') \<and> rs_status r = 202"
    by (simp add: http_eval h protect_def demo_parse_def order_CreateOrder_def demo_binders_def demo_defs run_eval
        write_eval text_eval order_eval)
  then obtain r sv' where run: "serve demo_app ?rq demo_server = (r, sv')" and ok: "rs_status r = 202" by blast
  have at: "rq_method ?rq = ''POST''" "fst (matched demo_app ?rq) = ''/api/orders''" "ledger_inv (tables (sv_world demo_server))"
    by (simp_all add: matched_def demo_ledger)
  from ok have "rs_status r \<notin> refusal_codes" by (simp add: refusal_codes_def)
  with order_request [OF at run] obtain k claims act left and ord :: order where
    "session_of demo_app ?rq (clock (ext demo) k) = Some claims" "act \<in> set (activities demo_tables)" "o_user ord = cl_user claims"
    "o_amount ord = a_price act" "r = response_Accepted (PAcceptedOrder (o_order_no ord) OrderStatusQueued left)"
    by (simp only: demo_server_world demo_world simp_thms) blast
  with run show ?thesis
    by (auto simp: session_of_def demo_parse_def header_prefix_def Let_def demo_tables_def empty_tables_def
        demo_activity_def split: if_splits)
qed

section \<open>Sessions\<close>

text \<open>
  What the code relies on of \<^verbatim>\<open>golang-jwt\<close>: a token it signed is read back with the same user
  and role while it has at least a second to live (the expiry is kept in whole seconds).
\<close>

definition jwt_contract :: "signer \<Rightarrow> (string \<Rightarrow> string \<Rightarrow> instant \<Rightarrow> Claims option) \<Rightarrow> bool" where
  "jwt_contract sign parse \<longleftrightarrow> (\<forall>secret claims tok now.
     sign secret claims = Inr tok \<longrightarrow> now + go_second \<le> cl_expires claims \<longrightarrow>
     (\<exists>c. parse secret tok now = Some c \<and> cl_user c = cl_user claims \<and> cl_role c = cl_role claims))"

lemma signToken_run:
  "signToken s u w = (Inr tok, w') \<Longrightarrow> ext w' = ext w \<and> tick w' = Suc (Suc (tick w)) \<and>
     (\<exists>issued. as_sign s (as_secret s) \<lparr>cl_user = u_id u, cl_role = token_role (u_role u),
        cl_expires = clock (ext w) (tick w) + 24 * go_hour, cl_issued = issued\<rparr> = Inr tok)"
  by (auto simp: signToken_def bindE_ok time_now_ok run_simps split: sum.splits)

lemma session_admitted:
  assumes "jwt_contract (as_sign s) parse" and "signToken s u w = (Inr tok, w')" and "0 < u_id u"
    and "rq_header (cx_request c) ''Authorization'' = ''Bearer '' @ tok"
    and "hclock sv = (now, sv1)" and "now + go_second \<le> clock (ext w) (tick w) + 24 * go_hour"
  shows "Auth parse (as_secret s) next c sv =
    next (c\<lparr>cx_user := Some (u_id u), cx_role := Some (token_role (u_role u))\<rparr>) sv1"
proof -
  from signToken_run [OF assms(2)] assms(1,6) obtain cl where
    "parse (as_secret s) tok now = Some cl" "cl_user cl = u_id u" "cl_role cl = token_role (u_role u)"
    unfolding jwt_contract_def by fastforce
  moreover have "IsValidUserRole (token_role (u_role u))" by (simp add: token_role_def IsValidUserRole_def)
  ultimately show ?thesis
    using assms(3-5) by (simp add: Auth_def Let_def header_prefix_def hbind_def)
qed

text \<open>
  C25: a session works until it ends.  The token that a login hands out, sent back in the
  \<open>Authorization\<close> header, is admitted by the guard at every instant up to a second before 24 hours
  have passed since the login, and the handler then runs as the user who logged in, with the role the login
  reported; that user is the row of the database with the given name and the hash of the given password.
\<close>

theorem session_round_trip:
  assumes "jwt_contract (as_sign s) parse" and "auth_Login s name pw w = (Inr (u, tok), w')" and "0 < u_id u"
  shows "(\<exists>row\<in>set (users (tables w)). u = row\<lparr>u_role := u_role u\<rparr> \<and> u_username row = name \<and>
      u_password_hash row = hashPassword pw) \<and>
    (\<exists>k. tick w \<le> k \<and> k < tick w' \<and>
      (\<forall>next c sv now sv1. rq_header (cx_request c) ''Authorization'' = ''Bearer '' @ tok \<longrightarrow>
        hclock sv = (now, sv1) \<longrightarrow> now + go_second \<le> clock (ext w) k + 24 * go_hour \<longrightarrow>
        Auth parse (as_secret s) next c sv =
          next (c\<lparr>cx_user := Some (u_id u), cx_role := Some (u_role u)\<rparr>) sv1))"
proof -
  from assms(2) obtain row where row: "find (\<lambda>u. u_username u = name) (users (tables w)) = Some row"
    "u_password_hash row = hashPassword pw"
    and u: "u = (if IsValidUserRole (u_role row) then row else row\<lparr>u_role := UserRoleUser\<rparr>)"
    and tok: "signToken s u (w\<lparr>tick := Suc (tick w)\<rparr>) = (Inr tok, w')"
    by (auto simp: auth_Login_def run_simps Let_def)
  have role: "token_role (u_role u) = u_role u"
    by (simp add: u token_role_def IsValidUserRole_def user_role_defs)
  from find_SomeD [OF row(1)] row(2) have
    "row \<in> set (users (tables w))" "u = row\<lparr>u_role := u_role u\<rparr>" "u_username row = name" by (auto simp: u)
  moreover from signToken_run [OF tok] have "tick w \<le> Suc (tick w)" "Suc (tick w) < tick w'" by simp_all
  moreover have "\<forall>next c sv now sv1. rq_header (cx_request c) ''Authorization'' = ''Bearer '' @ tok \<longrightarrow>
      hclock sv = (now, sv1) \<longrightarrow> now + go_second \<le> clock (ext w) (Suc (tick w)) + 24 * go_hour \<longrightarrow>
      Auth parse (as_secret s) next c sv = next (c\<lparr>cx_user := Some (u_id u), cx_role := Some (u_role u)\<rparr>) sv1"
    by (intro allI impI) (rule session_admitted [OF assms(1) tok assms(3), unfolded role], simp_all)
  ultimately show ?thesis
    using row(2) by (intro conjI bexI [of _ row] exI [of _ "Suc (tick w)"]) simp_all
qed

text \<open>A toy token format, for one account, which satisfies the contract.\<close>

definition demo_user :: user where
  "demo_user = \<lparr>u_id = 7, u_username = ''alice'', u_password_hash = hashPassword ''secret'', u_role = UserRoleUser,
     u_created = 0, u_updated = 0\<rparr>"

definition demo_accounts :: AuthService where
  "demo_accounts = \<lparr>as_secret = ''k'', as_sign = (\<lambda>_ c. if cl_user c = 7 \<and> cl_role c = UserRoleUser then Inr ''u7''
     else Inl (ErrText ''unsupported''))\<rparr>"

definition demo_read :: "string \<Rightarrow> string \<Rightarrow> instant \<Rightarrow> Claims option" where
  "demo_read secret tok now =
     (if tok = ''u7'' then Some \<lparr>cl_user = 7, cl_role = UserRoleUser, cl_expires = 0, cl_issued = 0\<rparr> else None)"

theorem session_round_trip_witness:
  "\<exists>tok w' k. auth_Login demo_accounts ''alice'' ''secret'' (demo\<lparr>tables := demo_tables\<lparr>users := [demo_user]\<rparr>\<rparr>) =
     (Inr (demo_user, tok), w') \<and> k < tick w' \<and>
     (\<forall>next c sv now sv1. rq_header (cx_request c) ''Authorization'' = ''Bearer '' @ tok \<longrightarrow>
        hclock sv = (now, sv1) \<longrightarrow> now + go_second \<le> clock calm k + 24 * go_hour \<longrightarrow>
        Auth demo_read ''k'' next c sv = next (c\<lparr>cx_user := Some 7, cx_role := Some UserRoleUser\<rparr>) sv1)"
proof -
  have contract: "jwt_contract (as_sign demo_accounts) demo_read"
    by (auto simp: jwt_contract_def demo_accounts_def demo_read_def split: if_splits)
  have "\<exists>w'. auth_Login demo_accounts ''alice'' ''secret'' (demo\<lparr>tables := demo_tables\<lparr>users := [demo_user]\<rparr>\<rparr>) = (Inr (demo_user, ''u7''), w')"
    by (simp add: auth_Login_def signToken_def token_role_def IsValidUserRole_def demo_accounts_def demo_defs demo_user_def run_eval)
  then obtain w' where run: "auth_Login demo_accounts ''alice'' ''secret'' (demo\<lparr>tables := demo_tables\<lparr>users := [demo_user]\<rparr>\<rparr>) = (Inr (demo_user, ''u7''), w')"
    by blast
  have pos: "0 < u_id demo_user" and fields: "u_id demo_user = 7" "u_role demo_user = UserRoleUser" "as_secret demo_accounts = ''k''"
    by (simp_all add: demo_user_def demo_accounts_def)
  have calm: "ext (demo\<lparr>tables := demo_tables\<lparr>users := [demo_user]\<rparr>\<rparr>) = calm" by simp
  from session_round_trip [OF contract run pos, unfolded fields calm] obtain k where "k < tick w'"
    "\<forall>next c sv now sv1. rq_header (cx_request c) ''Authorization'' = ''Bearer '' @ ''u7'' \<longrightarrow>
        hclock sv = (now, sv1) \<longrightarrow> now + go_second \<le> clock calm k + 24 * go_hour \<longrightarrow>
        Auth demo_read ''k'' next c sv = next (c\<lparr>cx_user := Some 7, cx_role := Some UserRoleUser\<rparr>) sv1"
    by (elim conjE exE) (rule that)
  with run show ?thesis by (intro exI conjI) assumption+
qed

section \<open>Privacy\<close>

definition orders_in :: "response \<Rightarrow> order list" where
  "orders_in r = (case rs_body r of
     Envelope _ _ (Some (POrder ord)) \<Rightarrow> [ord]
   | Envelope _ _ (Some (POrders os)) \<Rightarrow> os
   | _ \<Rightarrow> [])"

definition own_orders :: "app \<Rightarrow> request \<Rightarrow> outside \<Rightarrow> nat \<Rightarrow> world \<Rightarrow> response \<Rightarrow> world \<Rightarrow> bool" where
  "own_orders a rq e n w r w' \<longleftrightarrow> tables w' = tables w \<and> (\<forall>ord\<in>set (orders_in r). ord \<in> set (orders (tables w)) \<and>
     (\<exists>claims. session_within a rq e n (tick w') claims \<and> o_user ord = cl_user claims))"

lemma own_orders_after: "own_orders a rq e n w r w1 \<Longrightarrow> idle w1 w2 \<Longrightarrow> own_orders a rq e n w r w2"
proof -
  assume own: "own_orders a rq e n w r w1" and "idle w1 w2"
  from this(2) have t: "tables w2 = tables w1" and k: "tick w1 \<le> tick w2" by (simp_all add: idle_tables idle_kept)
  from own session_within_mono [OF _ k] show ?thesis unfolding own_orders_def t by blast
qed

interpretation privacy: reply_statement "since e m" "own_orders a rq e n" for e m a rq n
proof
  show "since e m w \<Longrightarrow> idle w w1 \<Longrightarrow> since e m w1" for w w1 by (rule since_idle)
  show "idle w w1 \<Longrightarrow> own_orders a rq e n w1 r w2 \<Longrightarrow> own_orders a rq e n w r w2" for w w1 r w2
    by (drule idle_tables) (simp add: own_orders_def)
qed (rule own_orders_after)

lemma GetOrder_run: "GetOrder u no w = (res, w') \<Longrightarrow> tables w' = tables w \<and> tick w \<le> tick w' \<and>
    (\<forall>ord. res = Inr ord \<longrightarrow> ord \<in> set (orders (tables w)) \<and> o_user ord = u)"
  by (auto simp: GetOrder_def on_error_def first_by_def throw_def stmt_def Let_def
      split: sum.splits prod.splits option.splits dest!: find_SomeD)

lemma ListOrders_run: "ListOrders u w = (res, w') \<Longrightarrow> tables w' = tables w \<and> tick w \<le> tick w' \<and>
    (\<forall>os. res = Inr os \<longrightarrow> os = rev (filter (\<lambda>ord. o_user ord = u) (orders (tables w))))"
  by (auto simp: ListOrders_def find_desc_def stmt_def Let_def split: option.splits)

lemma own_orders_handlers:
  assumes "n \<le> k" and "session_of a rq (clock e k) = Some claims" and "cx_user c = Some (cl_user claims)"
  shows "privacy.told e (Suc k) a rq n (order_GetOrder a c)" and "privacy.told e (Suc k) a rq n (order_ListOrders a c)"
proof -
  have within: "session_within a rq e n (tick w') claims" if "since e (Suc k) w" "tick w \<le> tick w'" for w w'
    using that assms(1,2) unfolding session_within_def since_def by (intro exI [of _ k]) simp
  have uid: "UserID c = cl_user claims" by (simp add: UserID_def assms(3))
  note eval = reply_def hret_def own_orders_def orders_in_def response_Error_def response_OK_def uid
  show "privacy.told e (Suc k) a rq n (order_GetOrder a c)"
    unfolding order_GetOrder_def answer_def
  proof (rule privacy.told_service)
    fix w res w' assume "since e (Suc k) w" and "GetOrder (UserID c) (cx_param c ''order_no'') w = (res, w')"
    with GetOrder_run [OF this(2)] within [of w w']
    show "\<exists>r. (\<forall>sv. \<exists>sv'. (case res of Inl err \<Rightarrow> reply (response_Error (orderErrorStatus err) (err_text err))
        | Inr x \<Rightarrow> reply (response_OK (POrder x))) sv = (Some r, sv') \<and> sv_world sv' = sv_world sv) \<and> own_orders a rq e n w r w'"
      by (cases res) (auto simp: eval)
  qed
  show "privacy.told e (Suc k) a rq n (order_ListOrders a c)"
    unfolding order_ListOrders_def answer_def
  proof (rule privacy.told_service)
    fix w res w' assume "since e (Suc k) w" and "ListOrders (UserID c) w = (res, w')"
    with ListOrders_run [OF this(2)] within [of w w']
    show "\<exists>r. (\<forall>sv. \<exists>sv'. (case res of Inl err \<Rightarrow> reply (response_Error (internal_error err) (err_text err))
        | Inr x \<Rightarrow> reply (response_OK (POrders x))) sv = (Some r, sv') \<and> sv_world sv' = sv_world sv) \<and> own_orders a rq e n w r w'"
      by (cases res) (auto simp: eval)
  qed
qed

text \<open>
  C26: orders are private.  The order that \<open>GET /api/orders/:order_no\<close> shows and every order that
  \<open>GET /api/orders\<close> lists are rows of the database that belong to the user of the session the
  request carries at a reading of the clock made during the request; so without a session that is
  valid then (no token, a forged one, one that has expired) none is shown.  Reading changes no table.
\<close>

theorem orders_private:
  assumes "rq_method rq = ''GET''" and "fst (matched a rq) = ''/api/orders'' \<or> fst (matched a rq) = ''/api/orders/:order_no''"
    and "serve a rq sv = (r, sv')"
  shows "tables (sv_world sv') = tables (sv_world sv) \<and>
    (\<forall>ord\<in>set (orders_in r). ord \<in> set (orders (tables (sv_world sv))) \<and>
      (\<exists>k claims. tick (sv_world sv) \<le> k \<and> k < tick (sv_world sv') \<and>
        session_of a rq (clock (ext (sv_world sv)) k) = Some claims \<and> o_user ord = cl_user claims))"
proof -
  obtain h where mem: "((rq_method rq, fst (matched a rq)), h) \<in> set (protected_routes a)"
    and h: "h = order_GetOrder a \<or> h = order_ListOrders a"
    using assms(1,2) by (auto simp: protected_routes_def)
  let ?w = "sv_world sv"
  let ?e = "ext ?w" and ?n = "tick ?w"
  have "own_orders a rq ?e ?n ?w r (sv_world sv')"
  proof (rule privacy.told_serve [where e = ?e and m = ?n, OF _ assms(3)])
    fix c' assume "same_request (request_context a rq) c'"
    then have c': "cx_request c' = rq" using same_request_fields by fastforce
    show "privacy.told ?e ?n a rq ?n (route_handler a rq c')"
      unfolding protected_taken [OF mem]
    proof (rule privacy.told_protect)
      show "own_orders a rq ?e ?n w (response_Error 401 m) w" for w m
        by (simp add: own_orders_def orders_in_def response_Error_def)
    next
      fix w :: world and claims :: Claims
      let ?c = "c'\<lparr>cx_user := Some (cl_user claims), cx_role := Some (cl_role claims)\<rparr>"
      assume "since ?e ?n w" and ses: "session_of a (cx_request c') (clock (ext w) (tick w)) = Some claims"
      then have e: "ext w = ?e" "?n \<le> tick w" by (simp_all add: since_def)
      have "cx_user ?c = Some (cl_user claims)" by simp
      from own_orders_handlers [OF e(2) ses [unfolded c' e(1)] this] h
      show "hpost (since (ext w) (Suc (tick w))) (own_orders a rq ?e ?n) (h ?c)"
        by (auto simp: privacy.told_def e(1))
    qed
  qed (simp add: since_def)
  then show ?thesis unfolding own_orders_def session_within_def by blast
qed

text \<open>Alice's list holds nobody else's orders; a token that has expired shows none.\<close>

theorem orders_private_witness:
  "filter (\<lambda>ord. o_user ord \<noteq> 7) (orders_in (fst (serve demo_app (demo_request ''GET'' ''/api/orders'' ''alice'') demo_server))) = [] \<and>
   orders_in (fst (serve stale_app (demo_request ''GET'' ''/api/orders'' ''root'') demo_server)) = []"
proof
  let ?rq = "demo_request ''GET'' ''/api/orders'' ''alice''"
  obtain r sv' where run: "serve demo_app ?rq demo_server = (r, sv')" by fastforce
  from orders_private [OF _ _ run] have "\<forall>ord\<in>set (orders_in r). \<exists>now claims. session_of demo_app ?rq now = Some claims \<and> o_user ord = cl_user claims"
    by (fastforce simp: matched_def)
  moreover have "cl_user claims = 7" if "session_of demo_app ?rq now = Some claims" for now claims
    using that by (auto simp: session_of_def demo_parse_def header_prefix_def Let_def split: if_splits)
  ultimately show "filter (\<lambda>ord. o_user ord \<noteq> 7) (orders_in (fst (serve demo_app ?rq demo_server))) = []"
    using run by (auto simp: filter_empty_conv)
next
  let ?rq = "demo_request ''GET'' ''/api/orders'' ''root''"
  obtain r sv' where run: "serve stale_app ?rq demo_server = (r, sv')" by fastforce
  have "session_of stale_app ?rq (clock calm k) = None" for k
    by (simp add: session_of_def stale_app_def header_prefix_def Let_def calm_def)
  with orders_private [OF _ _ run] have "\<forall>ord\<in>set (orders_in r). False"
    by (fastforce simp: matched_def stale_app_def)
  with run show "orders_in (fst (serve stale_app ?rq demo_server)) = []" by simp
qed

end
