(* ===== verification/Lifecycle.thy ===== *)
theory Lifecycle
  imports HttpProps
begin

text \<open>
  \<^verbatim>\<open>cmd/server/main.go\<close> as a process: the goroutines it starts, the requests in flight, and the shutdown on
  a signal, in the phases of \<open>main\<close>.  A request is accepted while the server serves and handled in one
  step of \<open>serve\<close>; a turn of a goroutine is one step.  The time that the shutdown may take is one budget
  (\<open>shutdownCtx\<close>) for the open requests and for the goroutines; when it runs out is the clock's choice.
\<close>

section \<open>Starting the goroutines\<close>

datatype background = QueueConsumer nat | TaskWorker nat | Compensator CompensationWorkerConfig

text \<open>
  \<open>consumed\<close> is what \<open>Consume\<close> returned; without a consumer of the queue the workers read the task channel.
\<close>

definition worker_count :: "int \<Rightarrow> nat" where
  "worker_count n = nat (if n \<le> 0 then 1 else n)"

definition startRabbitWorkers :: "nat \<Rightarrow> string + unit \<Rightarrow> background list go" where
  "startRabbitWorkers n consumed =
     (case consumed of
        Inl err \<Rightarrow> throw (ErrText err)
      | Inr _ \<Rightarrow> thenE (log_op ''rabbitmq_workers_started'' '''' 0 ''success'' (''workers='' @ utoa n))
                  (ret (map QueueConsumer [1..<Suc n])))"

definition StartWorkersContext :: "OrderService \<Rightarrow> int \<Rightarrow> string + unit \<Rightarrow> background list go" where
  "StartWorkersContext s n consumed =
     (let k = worker_count n; local_workers = map TaskWorker [1..<Suc k] in
      if os_rabbit s then
        bindE (attempt (startRabbitWorkers k consumed)) (\<lambda>r.
          case r of
            Inr ws \<Rightarrow> ret ws
          | Inl err \<Rightarrow> thenE (log_op ''rabbitmq_consume_fallback'' '''' 0 ''failed'' (err_text err)) (ret local_workers))
      else ret local_workers)"

definition start_background :: "OrderService \<Rightarrow> Config \<Rightarrow> string + unit \<Rightarrow> background list go" where
  "start_background s cfg consumed =
     bindE (StartWorkersContext s (cf_WorkerCount cfg) consumed) (\<lambda>ws.
     bindE (StartCompensationWorkerContext (compensation_config cfg)) (\<lambda>c.
     ret (ws @ (case c of None \<Rightarrow> [] | Some cc \<Rightarrow> [Compensator cc]))))"

fun background_turn :: "OrderService \<Rightarrow> bool \<Rightarrow> ext_error option \<Rightarrow> background \<Rightarrow> bool go" where
  "background_turn s stop done (QueueConsumer i) = rabbit_worker_turn s stop done i"
| "background_turn s stop done (TaskWorker i) = worker_turn stop done i"
| "background_turn s stop done (Compensator cfg) = compensation_turn s stop cfg done"

section \<open>The process\<close>

datatype phase = Serving | Draining | Stopping | Closed | Crashed

record process =
  pc_server :: server
  pc_phase :: phase
  pc_pending :: "request list"
  pc_workers :: "(background \<times> bool) list"
  pc_context :: "ext_error option"
  pc_expired :: bool

definition process_start :: "background list \<Rightarrow> server \<Rightarrow> process" where
  "process_start ws sv =
     \<lparr>pc_server = sv, pc_phase = Serving, pc_pending = [], pc_workers = map (\<lambda>b. (b, True)) ws,
      pc_context = None, pc_expired = False\<rparr>"

definition running :: "process \<Rightarrow> bool" where
  "running p \<longleftrightarrow> (\<exists>b. (b, True) \<in> set (pc_workers p))"

definition alive :: "process \<Rightarrow> bool" where
  "alive p \<longleftrightarrow> pc_phase p \<noteq> Closed \<and> pc_phase p \<noteq> Crashed"

definition drop_at :: "nat \<Rightarrow> 'a list \<Rightarrow> 'a list" where
  "drop_at i xs = take i xs @ drop (Suc i) xs"

text \<open>
  The goroutine's context ends with \<open>stopWorkers\<close>.  \<open>log.Fatal\<close> ends the process at once.
\<close>

inductive process_step :: "app \<Rightarrow> process \<Rightarrow> process \<Rightarrow> bool" for a where
  p_accept: "pc_phase p = Serving \<Longrightarrow> process_step a p (p\<lparr>pc_pending := pc_pending p @ [rq]\<rparr>)"
| p_handle: "alive p \<Longrightarrow> i < length (pc_pending p) \<Longrightarrow> serve a (pc_pending p ! i) (pc_server p) = (r, sv) \<Longrightarrow>
    process_step a p (p\<lparr>pc_pending := drop_at i (pc_pending p), pc_server := sv\<rparr>)"
| p_work: "alive p \<Longrightarrow> i < length (pc_workers p) \<Longrightarrow> pc_workers p ! i = (b, True) \<Longrightarrow>
    background_turn (dp_orders (ap_services a)) stop (pc_context p) b (sv_world (pc_server p)) = (r, w) \<Longrightarrow>
    process_step a p (p\<lparr>pc_workers := (pc_workers p)[i := (b, r \<noteq> Inr False)], pc_server := (pc_server p)\<lparr>sv_world := w\<rparr>\<rparr>)"
| p_listen_error: "pc_phase p = Serving \<Longrightarrow> process_step a p (p\<lparr>pc_phase := Crashed\<rparr>)"
| p_signal: "pc_phase p = Serving \<Longrightarrow> process_step a p (p\<lparr>pc_phase := Draining\<rparr>)"
| p_drained: "pc_phase p = Draining \<Longrightarrow> pc_pending p = [] \<Longrightarrow>
    process_step a p (p\<lparr>pc_phase := Stopping, pc_context := Some CtxCanceled\<rparr>)"
| p_drain_timeout: "pc_phase p = Draining \<Longrightarrow>
    process_step a p (p\<lparr>pc_phase := Stopping, pc_context := Some CtxCanceled, pc_expired := True\<rparr>)"
| p_stopped: "pc_phase p = Stopping \<Longrightarrow> \<not> running p \<Longrightarrow> process_step a p (p\<lparr>pc_phase := Closed\<rparr>)"
| p_stop_timeout: "pc_phase p = Stopping \<Longrightarrow> process_step a p (p\<lparr>pc_phase := Closed, pc_expired := True\<rparr>)"

inductive_cases process_stepE: "process_step a p p'"

text \<open>An accepted request has a sender who may still be served; a run without time-outs.\<close>

definition process_reachable :: "app \<Rightarrow> background list \<Rightarrow> server \<Rightarrow> process \<Rightarrow> bool" where
  "process_reachable a ws sv p \<longleftrightarrow> (process_step a)\<^sup>*\<^sup>* (process_start ws sv) p"

section \<open>The ledger\<close>

lemma background_obeys: "tracks obeys (background_turn s stop done b)"
  by (cases b) (simp_all add: obeys_rabbit_turn obeys_worker_turn obeys_compensation_turn)

lemma process_step_obeys:
  assumes "binds_in_range (ap_bind a)" and "process_step a p p'"
  shows "hobeys (sv_world (pc_server p)) (sv_world (pc_server p'))"
  using assms(2)
  by (elim process_stepE)
    (auto simp: ledger.R_refl dest: htracksD [OF serve_obeys [OF assms(1)]] tracksD [OF background_obeys])

lemma process_obeys:
  assumes "binds_in_range (ap_bind a)" and "(process_step a)\<^sup>*\<^sup>* p p'"
  shows "hobeys (sv_world (pc_server p)) (sv_world (pc_server p'))"
  using assms(2)
proof (induction rule: rtranclp_induct)
  case (step y z)
  then show ?case using process_step_obeys [OF assms(1) step(2)] ledger.R_trans by blast
qed (rule ledger.R_refl)

section \<open>The order of the shutdown\<close>

definition shutdown_inv :: "process \<Rightarrow> bool" where
  "shutdown_inv p \<longleftrightarrow>
     (pc_phase p = Serving \<or> pc_phase p = Draining \<or> pc_phase p = Crashed \<longrightarrow> pc_context p = None \<and> \<not> pc_expired p) \<and>
     (pc_phase p = Stopping \<or> pc_phase p = Closed \<longrightarrow> pc_context p = Some CtxCanceled \<and> (\<not> pc_expired p \<longrightarrow> pc_pending p = [])) \<and>
     (pc_phase p = Closed \<and> \<not> pc_expired p \<longrightarrow> \<not> running p)"

lemma shutdown_start: "shutdown_inv (process_start ws sv)"
  by (simp add: shutdown_inv_def process_start_def)

lemma drop_at_Nil [simp]: "drop_at i [] = []"
  by (simp add: drop_at_def)

lemma shutdown_step: "process_step a p p' \<Longrightarrow> shutdown_inv p \<Longrightarrow> shutdown_inv p'"
  by (elim process_stepE) (auto simp: shutdown_inv_def alive_def running_def)

lemma shutdown_reachable: "process_reachable a ws sv p \<Longrightarrow> shutdown_inv p"
  unfolding process_reachable_def
  by (induction rule: rtranclp_induct) (auto intro: shutdown_start shutdown_step)

lemma ended_final: "\<not> alive p \<Longrightarrow> \<not> process_step a p p'"
  by (auto simp: alive_def elim!: process_stepE)

section \<open>A shutdown without time-outs\<close>

lemma log_then: "\<exists>w'. thenE (log_op a no u r m) (ret x) w = (Inr x, w')"
  using log_op_total [of a no u r m w] by (auto simp: bindE_def ret_def)

lemma turn_stops: "\<exists>w'. background_turn s True (Some e) b w = (Inr False, w')"
  by (cases b) (simp_all add: rabbit_worker_turn_def worker_turn_def compensation_turn_def log_then)

lemma stopped_one_less:
  "i < length xs \<Longrightarrow> xs ! i = (b, True) \<Longrightarrow> Suc (length (filter snd (xs[i := (b, False)]))) = length (filter snd xs)"
  by (induction xs arbitrary: i) (auto split: nat.splits)

lemma drain: "pc_phase p = Draining \<Longrightarrow> \<exists>p'. (process_step a)\<^sup>*\<^sup>* p p' \<and> pc_phase p' = Draining \<and> pc_pending p' = [] \<and>
    pc_workers p' = pc_workers p \<and> pc_expired p' = pc_expired p"
proof (induction "pc_pending p" arbitrary: p)
  case (Cons rq rqs)
  obtain r sv where sv: "serve a (pc_pending p ! 0) (pc_server p) = (r, sv)" by fastforce
  let ?q = "p\<lparr>pc_pending := drop_at 0 (pc_pending p), pc_server := sv\<rparr>"
  have step: "process_step a p ?q"
    using p_handle [of p 0 a r sv] Cons.prems Cons.hyps(2) [symmetric] sv by (simp add: alive_def)
  have "rqs = pc_pending ?q" using Cons.hyps(2) [symmetric] by (simp add: drop_at_def)
  from Cons.hyps(1) [OF this] Cons.prems obtain p' where "(process_step a)\<^sup>*\<^sup>* ?q p'" "pc_phase p' = Draining"
    "pc_pending p' = []" "pc_workers p' = pc_workers p" "pc_expired p' = pc_expired p" by auto
  with step show ?case by (blast intro: converse_rtranclp_into_rtranclp)
qed (auto intro: exI [of _ p])

lemma stop_all:
  "pc_phase p = Stopping \<Longrightarrow> pc_context p = Some e \<Longrightarrow> \<exists>p'. (process_step a)\<^sup>*\<^sup>* p p' \<and> pc_phase p' = Stopping \<and>
    \<not> running p' \<and> pc_expired p' = pc_expired p"
proof (induction "length (filter snd (pc_workers p))" arbitrary: p)
  case 0
  then have "\<not> running p" by (auto simp: running_def filter_empty_conv)
  with 0 show ?case by auto
next
  case (Suc k)
  then obtain i b where i: "i < length (pc_workers p)" "pc_workers p ! i = (b, True)"
  proof -
    have "filter snd (pc_workers p) \<noteq> []" using Suc.hyps(2) by auto
    then obtain x where "x \<in> set (pc_workers p)" "snd x" by (auto simp: filter_empty_conv)
    then show thesis using that by (metis in_set_conv_nth prod.collapse)
  qed
  obtain w where w: "background_turn (dp_orders (ap_services a)) True (pc_context p) b (sv_world (pc_server p)) = (Inr False, w)"
    using turn_stops Suc.prems(2) by metis
  let ?q = "p\<lparr>pc_workers := (pc_workers p)[i := (b, False)], pc_server := (pc_server p)\<lparr>sv_world := w\<rparr>\<rparr>"
  have step: "process_step a p ?q"
    using p_work [OF _ i w] Suc.prems(1) by (simp add: alive_def)
  have "k = length (filter snd (pc_workers ?q))" using stopped_one_less [OF i] Suc.hyps(2) by simp
  from Suc.hyps(1) [OF this] Suc.prems obtain p' where "(process_step a)\<^sup>*\<^sup>* ?q p'" "pc_phase p' = Stopping"
    "\<not> running p'" "pc_expired p' = pc_expired p" by auto
  with step show ?case by (blast intro: converse_rtranclp_into_rtranclp)
qed

lemma graceful:
  assumes "pc_phase p = Serving"
  shows "\<exists>p'. (process_step a)\<^sup>*\<^sup>* p p' \<and> pc_phase p' = Closed \<and> pc_expired p' = pc_expired p"
proof -
  let ?d = "p\<lparr>pc_phase := Draining\<rparr>"
  from drain [of ?d a] obtain q where q: "(process_step a)\<^sup>*\<^sup>* ?d q" "pc_phase q = Draining" "pc_pending q = []"
    "pc_expired q = pc_expired p" by auto
  let ?s = "q\<lparr>pc_phase := Stopping, pc_context := Some CtxCanceled\<rparr>"
  from stop_all [of ?s CtxCanceled a] q(4) obtain r where r: "(process_step a)\<^sup>*\<^sup>* ?s r" "pc_phase r = Stopping"
    "\<not> running r" "pc_expired r = pc_expired p" by auto
  have "(process_step a)\<^sup>*\<^sup>* p (r\<lparr>pc_phase := Closed\<rparr>)"
    using p_signal [OF assms] q(1) p_drained [OF q(2,3)] r(1) p_stopped [OF r(2,3)]
    by (meson converse_rtranclp_into_rtranclp rtranclp.rtrancl_into_rtrancl rtranclp_trans)
  with r(4) show ?thesis by auto
qed

text \<open>One budget for both waits: requests that use it up leave none, and the database is closed under the goroutines.\<close>

lemma closed_under_workers:
  assumes "pc_phase p = Serving" and "running p"
  shows "\<exists>p'. (process_step a)\<^sup>*\<^sup>* p p' \<and> pc_phase p' = Closed \<and> running p' \<and> pc_pending p' = pc_pending p"
proof -
  let ?d = "p\<lparr>pc_phase := Draining\<rparr>" let ?s = "?d\<lparr>pc_phase := Stopping, pc_context := Some CtxCanceled, pc_expired := True\<rparr>"
  let ?c = "?s\<lparr>pc_phase := Closed, pc_expired := True\<rparr>"
  have "process_step a p ?d" using assms(1) by (rule p_signal)
  moreover have "process_step a ?d ?s" by (rule p_drain_timeout) simp
  moreover have "process_step a ?s ?c" by (rule p_stop_timeout) simp
  ultimately have "(process_step a)\<^sup>*\<^sup>* p ?c" by (meson converse_rtranclp_into_rtranclp rtranclp.rtrancl_refl)
  then show ?thesis using assms(2) by (intro exI [of _ ?c]) (simp add: running_def)
qed

text \<open>
  C21: the process shuts down in order.  In every reachable state the ledger is consistent; as long as the
  time budget of the shutdown is not used up, no goroutine is told to stop while a request is in flight, and the
  database is closed only after every request was answered and every goroutine has returned; from any state in
  which the server serves, a signal can be followed to such an end; and an ended process does nothing more.
\<close>

theorem shutdown_in_order:
  assumes "process_reachable a ws sv p" and "binds_in_range (ap_bind a)" and "ledger_inv (tables (sv_world sv))"
  shows "ledger_inv (tables (sv_world (pc_server p))) \<and>
    (pc_context p \<noteq> None \<and> \<not> pc_expired p \<longrightarrow> pc_pending p = []) \<and>
    (pc_phase p = Closed \<and> \<not> pc_expired p \<longrightarrow> pc_pending p = [] \<and> \<not> running p) \<and>
    (pc_phase p = Serving \<longrightarrow> (\<exists>p'. (process_step a)\<^sup>*\<^sup>* p p' \<and> pc_phase p' = Closed \<and> \<not> pc_expired p')) \<and>
    (\<not> alive p \<longrightarrow> \<not> process_step a p p'')"
proof (intro conjI impI)
  note inv = shutdown_reachable [OF assms(1)]
  from process_obeys [OF assms(2) assms(1) [unfolded process_reachable_def]] assms(3)
  show "ledger_inv (tables (sv_world (pc_server p)))"
    by (auto simp: obeys_def process_start_def dest: evs_ledger)
  show "pc_pending p = []" if "pc_context p \<noteq> None \<and> \<not> pc_expired p"
    using inv that by (cases "pc_phase p") (auto simp: shutdown_inv_def)
  show "pc_pending p = []" "\<not> running p" if "pc_phase p = Closed \<and> \<not> pc_expired p"
    using inv that by (auto simp: shutdown_inv_def)
  show "\<exists>p'. (process_step a)\<^sup>*\<^sup>* p p' \<and> pc_phase p' = Closed \<and> \<not> pc_expired p'" if "pc_phase p = Serving"
    using graceful [OF that, of a] inv that by (auto simp: shutdown_inv_def)
  show "\<not> process_step a p p''" if "\<not> alive p" using that by (rule ended_final)
qed

theorem shutdown_in_order_witness:
  "\<exists>p'. (process_step demo_app)\<^sup>*\<^sup>* (process_start [TaskWorker 1] demo_server) p' \<and> pc_phase p' = Closed \<and> \<not> pc_expired p'"
proof -
  let ?p = "process_start [TaskWorker 1] demo_server"
  have "process_reachable demo_app [TaskWorker 1] demo_server ?p" by (simp add: process_reachable_def)
  moreover have "binds_in_range (ap_bind demo_app)" by (simp add: binds_in_range_def demo_binders_def)
  moreover have "ledger_inv (tables (sv_world demo_server))" by (simp add: demo_ledger)
  ultimately show ?thesis using shutdown_in_order [of demo_app "[TaskWorker 1]" demo_server ?p] by (simp add: process_start_def)
qed

end
