(* ===== verification/TaskChannel.thy ===== *)
theory TaskChannel
  imports Lifecycle
begin

text \<open>
  The channel of order tasks inside the process: every operation of the service at most appends to it, only
  a worker of the channel takes from it.  When the workers were started as consumers of the RabbitMQ queue
  there is none, and a task that the fallback of \<open>publishOrderTask\<close> put there stays.
\<close>

section \<open>Only workers of the channel take tasks\<close>

abbreviation task_prefix :: "world \<Rightarrow> world \<Rightarrow> bool" where
  "task_prefix \<equiv> \<lambda>w w'. prefix (tasks w) (tasks w')"

definition appends :: "'a go \<Rightarrow> bool" where
  "appends m \<longleftrightarrow> (\<forall>w. task_prefix w (snd (m w)))"

interpretation channel: world_preorder task_prefix
  by unfold_locales auto

lemma appendsD: "appends m \<Longrightarrow> m w = (r, w') \<Longrightarrow> task_prefix w w'"
  unfolding appends_def by (metis snd_conv)

lemma appends_basic: "appends (ret x)" "appends (throw e)" "appends time_now" "appends (guardE b e)" "appends (ensureE r)"
    "appends (stmt q)" "appends (redis_call q')" "appends (broker_call d body)" "appends (randomText n)"
    "appends (\<lambda>w. (f w, w))"
  by (auto simp: appends_def ret_def throw_def time_now_def guardE_def ensureE_def stmt_def redis_call_def broker_call_def
      broker_put_def randomText_def Let_def split: option.splits sum.splits prod.splits if_splits)

lemma appends_bindE: "appends m \<Longrightarrow> (\<And>x. appends (f x)) \<Longrightarrow> appends (bindE m f)"
  unfolding appends_def bindE_def by (auto split: prod.splits sum.splits) (metis prefix_order.trans snd_conv)+

lemma appends_on_error: "appends m \<Longrightarrow> (\<And>e. appends (h e)) \<Longrightarrow> appends (on_error m h)"
  unfolding appends_def on_error_def by (auto split: prod.splits sum.splits) (metis prefix_order.trans snd_conv)+

lemma appends_attempt: "appends m \<Longrightarrow> appends (attempt m)"
  unfolding appends_def attempt_def by (auto split: prod.splits) (metis snd_conv)

lemma appends_transaction:
  assumes "appends m" shows "appends (transaction m)"
  unfolding appends_def
proof
  fix w
  let ?s = "stmt (\<lambda>_ _ t. Inr ((), t)) :: unit go"
  obtain r0 w0 where s0: "?s w = (r0, w0)" by fastforce
  obtain r1 w1 where m: "m w0 = (r1, w1)" by fastforce
  obtain r2 w2 where s2: "?s w1 = (r2, w2)" by fastforce
  have "tasks (snd (transaction m w)) \<in> {tasks w0, tasks w1, tasks w2}"
    using s0 m s2 unfolding transaction_def by (auto split: sum.splits)
  moreover note 1 = appendsD [OF appends_basic(6) s0] and 2 = appendsD [OF assms m] and 3 = appendsD [OF appends_basic(6) s2]
  note 12 = prefix_order.trans [OF 1 2]
  ultimately show "task_prefix w (snd (transaction m w))" using 1 12 prefix_order.trans [OF 12 3] by auto
qed

lemma appends_split:
  "(\<And>a. appends (f a)) \<Longrightarrow> (\<And>b. appends (g b)) \<Longrightarrow> appends (case r of Inl a \<Rightarrow> f a | Inr b \<Rightarrow> g b)"
  "appends m \<Longrightarrow> (\<And>b. appends (g b)) \<Longrightarrow> appends (case o' of None \<Rightarrow> m | Some b \<Rightarrow> g b)"
  "appends m \<Longrightarrow> appends n \<Longrightarrow> appends (if c then m else n)"
  "(\<And>x y. appends (h x y)) \<Longrightarrow> appends (case p of (x, y) \<Rightarrow> h x y)"
  by (auto split: sum.splits option.splits prod.splits)

lemmas appends_glue = appends_basic appends_bindE appends_on_error appends_attempt appends_transaction appends_split

lemmas statement_defs = first_by_def find_all_def find_desc_def count_by_def create_user_def save_user_def create_product_def
  save_product_def create_address_def save_address_def clear_default_addresses_def create_cart_item_def save_cart_item_def
  delete_cart_items_def create_coupon_def save_coupon_def create_user_coupon_def save_user_coupon_def create_activity_def
  save_activity_def create_order_def save_order_def create_order_item_def create_payment_def create_log_def
  preload_products_def preload_coupon_def preload_coupons_def sum_by_def decrement_stock_def touch_queued_def

lemma appends_statements:
  "appends (first_by sel P)" "appends (find_all sel P)" "appends (find_desc sel P)" "appends (count_by sel P)"
  "appends (create_user a1)" "appends (save_user a1)" "appends (create_product a2)" "appends (save_product a2)"
  "appends (create_address a3)" "appends (save_address a3)" "appends (clear_default_addresses u)"
  "appends (create_cart_item a4)" "appends (save_cart_item a4)" "appends (delete_cart_items Q)"
  "appends (create_coupon a5)" "appends (save_coupon a5)" "appends (create_user_coupon a6)" "appends (save_user_coupon a6)"
  "appends (create_activity a7)" "appends (save_activity a7)" "appends (create_order a8)" "appends (save_order a8)"
  "appends (create_order_item a9)" "appends (create_payment a10)" "appends (create_log a11)"
  "appends (preload_products a12)" "appends (preload_coupon a6)" "appends (preload_coupons a13)"
  "appends (sum_by sel P f)" "appends (decrement_stock k n)" "appends (touch_queued no n)"
  unfolding statement_defs by (intro appends_glue)+

lemma appends_log: "appends (log_op a no u r m)"
  unfolding log_op_def by (intro appends_glue appends_statements)

lemma appends_send: "appends (send_task no)"
  using appends_log unfolding appends_def send_task_def by auto

lemmas appends_parts = appends_glue appends_statements appends_log appends_send

lemma appends_publish: "appends (publishOrderTask s no)" "appends (rabbit_PublishRetry msg)"
    "appends (rabbit_PublishDeadLetter msg reason)" "appends newOrderNo" "appends (create_activity_order ord)"
    "appends (cache_Reserve act u)" "appends (cache_Release k u)" "appends (cache_SetStock k n t)"
    "appends (cache_GetStock k)" "appends (cache_Prewarm act)"
proof -
  show retry: "appends (rabbit_PublishRetry m)" for m unfolding rabbit_PublishRetry_def by (intro appends_parts)
  show "appends (publishOrderTask s no)"
    unfolding publishOrderTask_def rabbit_Publish_def by (intro appends_parts retry)
  show "appends newOrderNo" unfolding newOrderNo_def by (intro appends_parts)
  show "appends (create_activity_order ord)" unfolding create_activity_order_def by (intro appends_parts)
  have b: "appends (\<lambda>w. broker_call True (f w) w)" for f
    using appends_basic(8) unfolding appends_def by blast
  show "appends (rabbit_PublishDeadLetter msg reason)"
    unfolding rabbit_PublishDeadLetter_def by (intro appends_bindE appends_basic(3) b)
  show st: "appends (cache_SetStock k n t)" for k n t unfolding cache_SetStock_def by (intro appends_parts)
  show "appends (cache_Prewarm act)" unfolding cache_Prewarm_def by (rule st)
  show "appends (cache_Release k u)" unfolding cache_Release_def by (intro appends_parts)
  show "appends (cache_GetStock k)" unfolding cache_GetStock_def by (intro appends_parts)
  show "appends (cache_Reserve act u)" unfolding cache_Reserve_def by (intro appends_parts)
qed

lemmas appends_more = appends_parts appends_publish

section \<open>The operations\<close>

lemma appends_restore: "appends (restore_items is)" "appends (restoreStock s ord)"
proof -
  show i: "appends (restore_items is)" for "is"
    by (induction "is" rule: restore_items.induct) (simp_all, (intro appends_more)+)
  show "appends (restoreStock s ord)" unfolding restoreStock_def by (intro appends_more i)
qed

lemma appends_loops:
  "appends (checkout_loop xs n)" "appends (checkout_items ord xs)" "appends (expire_loop s os k)"
  "appends (requeue_loop s now os r)" "appends (close_loop s os r)" "appends (end_loop as r)" "appends (reconcile_loop rep as rr)"
proof -
  show "appends (checkout_loop xs n)" by (induction xs n rule: checkout_loop.induct) (simp_all, (intro appends_more | assumption)+)
  show "appends (checkout_items ord xs)" by (induction ord xs rule: checkout_items.induct) (simp_all, (intro appends_more | assumption)+)
  have e: "appends (expire_body s no)" for s no
    unfolding expire_body_def by (intro appends_more appends_restore)
  show "appends (expire_loop s os k)"
    by (induction s os k rule: expire_loop.induct) (simp_all, (intro appends_more e | assumption)+)
  show "appends (requeue_loop s now os r)"
    by (induction os arbitrary: r) (simp_all add: Let_def, (intro appends_more | simp)+)
  have c: "appends (close_body s no)" for s no
    unfolding close_body_def by (intro appends_more appends_restore)
  show "appends (close_loop s os r)"
    by (induction os arbitrary: r) (simp_all add: Let_def, (intro appends_more c | simp)+)
  have n: "appends (end_activity_body k)" for k
    unfolding end_activity_body_def by (intro appends_more)
  show "appends (end_loop as r)"
    by (induction "as" arbitrary: r) (simp_all add: Let_def, (intro appends_more n | simp)+)
  have o: "appends (reconcile_one rep act rr)" for rep act rr
    unfolding reconcile_one_def Let_def by (intro appends_more)
  show "appends (reconcile_loop rep as rr)"
    by (induction rep "as" rr rule: reconcile_loop.induct) (simp_all, (intro appends_more o | assumption)+)
qed

lemmas appends_all = appends_more appends_restore appends_loops

lemma appends_orders:
  "appends (CreateOrderContext s c u i)" "appends (CheckoutCart u ck)" "appends (CancelOrder s u no)" "appends (ExpireOrders s n)"
  "appends (Compensate s n1 n2)" "appends (ReconcileStock s k rep)" "appends (PaymentCallback pay)"
  "appends (processOrderCreated d wk no)"
proof -
  have db: "appends (createOrderWithDB s u i)" for i unfolding createOrderWithDB_def db_order_body_def by (intro appends_all)
  have rd: "appends (createOrderWithRedis s u i)" for i
    unfolding createOrderWithRedis_def redis_order_body_def by (intro appends_all)
  show "appends (CreateOrderContext s c u i)" unfolding CreateOrderContext_def by (intro appends_all db rd)
  have coupon: "appends (applyCoupon u k n)" for u k n unfolding applyCoupon_def Let_def by (intro appends_all)
  show "appends (CheckoutCart u ck)" unfolding CheckoutCart_def checkout_body_def Let_def by (intro appends_all coupon)
  show "appends (CancelOrder s u no)" unfolding CancelOrder_def cancel_body_def by (intro appends_all)
  show "appends (ExpireOrders s n)" unfolding ExpireOrders_def Let_def by (intro appends_all)
  show "appends (Compensate s n1 n2)" unfolding Compensate_def Let_def by (intro appends_all)
  show "appends (ReconcileStock s k rep)" unfolding ReconcileStock_def Let_def by (intro appends_all)
  show "appends (PaymentCallback pay)" unfolding PaymentCallback_def payment_body_def Let_def by (intro appends_all)
  show "appends (processOrderCreated d wk no)" unfolding processOrderCreated_def process_body_def by (intro appends_all)
qed

lemma appends_shop:
  "appends (UpdateActivityStatus k st)" "appends (CreateProduct pr)" "appends (CreateActivity b ai)"
  "appends (ListOrders u)" "appends (GetOrder u no)" "appends ListLogs" "appends ListProducts" "appends ListActivities"
  "appends admin_Overview" "appends (admin_ListOrders q)"
  "appends (cart_AddItem u i)" "appends (cart_List u)" "appends (cart_UpdateQuantity u k qn)" "appends (cart_DeleteItem u k)"
  "appends (address_Create u ad)" "appends (address_List u)" "appends (address_SetDefault u k)"
  "appends (coupon_Create co)" "appends coupon_List" "appends (coupon_Claim u k)" "appends (coupon_MyCoupons u)"
  "appends (auth_Register au nm pw)" "appends (auth_Login au nm pw)" "appends (auth_EnsureAdmin nm pw)"
proof -
  have reload: "appends (reload_cart_item ci)" for ci unfolding reload_cart_item_def by (intro appends_all)
  have sign: "appends (signToken au us)" for au us unfolding signToken_def by (intro appends_all)
  show "appends (UpdateActivityStatus k st)" "appends (CreateProduct pr)" "appends (CreateActivity b ai)"
    unfolding UpdateActivityStatus_def CreateProduct_def CreateActivity_def Let_def by (intro appends_all)+
  show "appends (ListOrders u)" "appends (GetOrder u no)" "appends ListLogs" "appends ListProducts" "appends ListActivities"
    "appends admin_Overview" "appends (admin_ListOrders q)"
    unfolding ListOrders_def GetOrder_def ListLogs_def ListProducts_def ListActivities_def admin_Overview_def
      admin_ListOrders_def countOrdersByStatus_def Let_def by (intro appends_all)+
  show "appends (cart_AddItem u i)" "appends (cart_List u)" "appends (cart_UpdateQuantity u k qn)" "appends (cart_DeleteItem u k)"
    "appends (address_Create u ad)" "appends (address_List u)" "appends (address_SetDefault u k)"
    "appends (coupon_Create co)" "appends coupon_List" "appends (coupon_Claim u k)" "appends (coupon_MyCoupons u)"
    "appends (auth_Register au nm pw)" "appends (auth_Login au nm pw)" "appends (auth_EnsureAdmin nm pw)"
    unfolding customer_defs by (intro appends_all reload sign)+
qed

lemmas appends_services = appends_orders appends_shop

section \<open>Consumers of the queue and requests\<close>

definition no_task_worker :: "background \<Rightarrow> bool" where
  "no_task_worker b \<longleftrightarrow> (\<forall>i. b \<noteq> TaskWorker i)"

lemma appends_settle: "appends (settle body v)"
  by (simp add: appends_def settle_def Let_def)

lemma appends_consumer: "appends (rabbit_worker_turn s stop done i)"
proof -
  have "appends (handleRabbitOrderFailure s msg err)" for msg err
    unfolding handleRabbitOrderFailure_def Let_def by (intro appends_all)
  then have "appends (process_delivery s done i body)" for body
    unfolding process_delivery_def by (intro appends_all appends_orders)
  then have d: "appends (bindE (process_delivery s done i body) (\<lambda>(v, on). thenE (settle body v) (ret on)))" for body
    by (intro appends_all appends_settle)
  have l: "appends (thenE (log_op a no u r m) (ret False))" for a no u r m by (intro appends_all)
  show ?thesis
    unfolding appends_def
  proof
    fix w
    show "task_prefix w (snd (rabbit_worker_turn s stop done i w))"
    proof (cases "if stop \<or> mq w = [] then done else None")
      case (Some e)
      with l show ?thesis by (simp add: appends_def rabbit_worker_turn_def)
    next
      case None
      show ?thesis
      proof (cases "mq w")
        case (Cons body rest)
        with None d [of body, unfolded appends_def, THEN spec, of "w\<lparr>mq := rest\<rparr>"]
        show ?thesis by (simp add: rabbit_worker_turn_def split: if_splits)
      qed (use None in \<open>simp add: rabbit_worker_turn_def split: if_splits\<close>)
    qed
  qed
qed

lemma appends_background: "no_task_worker b \<Longrightarrow> appends (background_turn s stop done b)"
  by (cases b) (auto simp: no_task_worker_def appends_consumer compensation_turn_def intro!: appends_all appends_orders)

lemma channel_answer: "appends m \<Longrightarrow> htracks task_prefix (answer st ok m)"
  by (rule channel.h_answer) (rule appendsD)

lemma channel_service: "appends m \<Longrightarrow> htracks task_prefix (service m)"
  by (rule channel.h_service) (rule appendsD)

lemmas h_channel = channel.h_bound channel.h_with_id channel.h_case_prod channel_answer

lemma handlers_append:
  "htracks task_prefix (order_CheckoutCart a c)" "htracks task_prefix (order_ListOrders a c)" "htracks task_prefix (order_GetOrder a c)"
  "htracks task_prefix (order_CancelOrder a c)" "htracks task_prefix (order_ExpireOrders a c)" "htracks task_prefix (order_Compensate a c)"
  "htracks task_prefix (order_ReconcileStock a c)" "htracks task_prefix (order_ListLogs a c)" "htracks task_prefix (catalog_ListProducts a c)"
  "htracks task_prefix (catalog_ListActivities a c)" "htracks task_prefix (catalog_UpdateActivityStatus a c)"
  "htracks task_prefix (cart_AddItem_handler a c)" "htracks task_prefix (cart_ListItems a c)" "htracks task_prefix (cart_UpdateItem a c)"
  "htracks task_prefix (cart_DeleteItem_handler a c)" "htracks task_prefix (address_CreateAddress a c)"
  "htracks task_prefix (address_ListAddresses a c)" "htracks task_prefix (address_SetDefault_handler a c)"
  "htracks task_prefix (coupon_CreateCoupon a c)" "htracks task_prefix (coupon_ListCoupons a c)" "htracks task_prefix (coupon_ClaimCoupon a c)"
  "htracks task_prefix (coupon_MyCoupons_handler a c)" "htracks task_prefix (auth_Register_handler a c)"
  "htracks task_prefix (auth_Login_handler a c)" "htracks task_prefix (admin_Overview_handler a c)" "htracks task_prefix (admin_ListOrders_handler a c)"
  "htracks task_prefix (catalog_CreateProduct a c)" "htracks task_prefix (catalog_CreateActivity a c)"
  unfolding handler_defs catalog_CreateProduct_def catalog_CreateActivity_def by (intro h_channel appends_services)+

lemma counted_handlers_append:
  "htracks task_prefix (order_CreateOrder a c)" "htracks task_prefix (order_PaymentCallback a c)"
  "htracks task_prefix (health c)" "htracks task_prefix (metrics_Handler c)"
proof -
  show "htracks task_prefix (order_CreateOrder a c)" "htracks task_prefix (order_PaymentCallback a c)"
    unfolding order_CreateOrder_def order_PaymentCallback_def
    by (intro channel.h_bound channel.h_bind channel.h_basic channel_service channel.h_case_sum channel.h_case_prod appends_services)+
  show "htracks task_prefix (health c)" unfolding health_def by (rule channel.h_reply)
  show "htracks task_prefix (metrics_Handler c)" by (rule channel.h_pure) (simp add: metrics_Handler_def)
qed

lemma serve_appends: "htracks task_prefix (serve a rq)"
proof (rule channel.h_serve, rule channel.h_route)
  fix k h c assume "map_of (routes a) k = Some h"
  then have mem: "(k, h) \<in> set (routes a)" by (rule map_of_SomeD)
  have o: "\<forall>(k, h)\<in>set (open_routes a). \<forall>c. htracks task_prefix (h c)"
    by (simp add: open_routes_def handlers_append counted_handlers_append)
  have p: "\<forall>(k, h)\<in>set (protected_routes a). \<forall>c. htracks task_prefix (h c)"
    by (simp add: protected_routes_def handlers_append counted_handlers_append channel.h_limiter)
  have ad: "\<forall>(k, h)\<in>set (admin_routes a). \<forall>c. htracks task_prefix (h c)"
    by (simp add: admin_routes_def handlers_append)
  show "htracks task_prefix (h c)"
    using mem o p ad by (auto simp: routes_def guard_with_def Let_def counted_handlers_append intro!: channel.h_auth channel.h_role)
qed

section \<open>A task that nobody takes\<close>

definition consumers_only :: "process \<Rightarrow> bool" where
  "consumers_only p \<longleftrightarrow> (\<forall>(b, on)\<in>set (pc_workers p). no_task_worker b)"

lemma consumers_step:
  assumes "process_step a p p'" and "consumers_only p"
  shows "consumers_only p' \<and> task_prefix (sv_world (pc_server p)) (sv_world (pc_server p'))"
  using assms
proof (elim process_stepE)
  fix i b stop r w
  assume i: "i < length (pc_workers p)" "pc_workers p ! i = (b, True)"
    and turn: "background_turn (dp_orders (ap_services a)) stop (pc_context p) b (sv_world (pc_server p)) = (r, w)"
    and p': "p' = p\<lparr>pc_workers := (pc_workers p)[i := (b, r \<noteq> Inr False)], pc_server := (pc_server p)\<lparr>sv_world := w\<rparr>\<rparr>"
  from i have "(b, True) \<in> set (pc_workers p)" by (metis nth_mem)
  with assms(2) have b: "no_task_worker b" unfolding consumers_only_def by blast
  from appendsD [OF appends_background [OF b] turn] have "task_prefix (sv_world (pc_server p)) w" .
  moreover have "consumers_only p'"
    using assms(2) b set_update_subset_insert [of "pc_workers p" i "(b, r \<noteq> Inr False)"] unfolding consumers_only_def p' by auto
  ultimately show ?thesis by (simp add: p')
qed (auto simp: consumers_only_def dest: htracksD [OF serve_appends])

lemma consumers_run:
  "(process_step a)\<^sup>*\<^sup>* p p' \<Longrightarrow> consumers_only p \<Longrightarrow>
     consumers_only p' \<and> task_prefix (sv_world (pc_server p)) (sv_world (pc_server p'))"
proof (induction rule: rtranclp_induct)
  case (step y z)
  then show ?case using consumers_step [OF step(2)] prefix_order.trans by blast
qed simp

lemma log_no_error: "log_op a no u r m w \<noteq> (Inl e, w')"
  using log_op_total [of a no u r m w] by auto

lemma rabbit_background:
  "os_rabbit s \<Longrightarrow> start_background s cfg (Inr u) w = (Inr ws, w') \<Longrightarrow> b \<in> set ws \<Longrightarrow> no_task_worker b"
  by (auto simp: start_background_def StartWorkersContext_def startRabbitWorkers_def Let_def run_simps no_task_worker_def bindE_err
      dest: log_no_error [THEN notE] split: option.splits sum.splits)

lemma fallback_appends:
  "os_rabbit s \<Longrightarrow> fault (ext v) (tick v) = Some e \<Longrightarrow> length (tasks v) < tasks_capacity \<Longrightarrow> no \<noteq> '''' \<Longrightarrow>
     publishOrderTask s no v = (x, v') \<Longrightarrow> tasks v' = tasks v @ [no]"
  by (auto simp: publishOrderTask_def rabbit_Publish_def rabbit_PublishRetry_def encodeRabbitOrderMessage_def bindE_def
      attempt_def broker_call_def broker_put_def Let_def send_task_def tasks_capacity_def log_no_error
      dest: log_op_tables split: prod.splits sum.splits if_splits)

text \<open>
  C32: with RabbitMQ consumers running, the fallback of publishing leads nowhere.  When a publication to the
  broker fails, \<open>publishOrderTask\<close> puts the order number into the task channel; but in a process whose workers
  were started as consumers of the queue, no run takes anything out of the channel again: what is in it
  stays in front, whatever requests and turns follow.
\<close>

theorem fallback_tasks_stranded:
  assumes "os_rabbit (dp_orders (ap_services a))"
    and "start_background (dp_orders (ap_services a)) (ap_config a) (Inr ()) w = (Inr ws, w1)"
    and "process_reachable a ws sv p" and "(process_step a)\<^sup>*\<^sup>* p p'"
    and "fault (ext v) (tick v) = Some e" and "length (tasks v) < 128" and "no \<noteq> ''''"
    and "publishOrderTask (dp_orders (ap_services a)) no v = (x, v')"
  shows "tasks v' = tasks v @ [no] \<and> prefix (tasks (sv_world (pc_server p))) (tasks (sv_world (pc_server p')))"
proof -
  have "consumers_only (process_start ws sv)"
    using rabbit_background [OF assms(1,2)] by (auto simp: consumers_only_def process_start_def)
  with assms(3) have "consumers_only p" using consumers_run unfolding process_reachable_def by blast
  with consumers_run [OF assms(4)] fallback_appends [OF assms(1,5) _ assms(7,8)] assms(6) show ?thesis
    by (simp add: tasks_capacity_def)
qed

lemma start_total: "\<exists>ws w'. start_background s cfg (Inr u) w = (Inr ws, w')"
proof -
  have 1: "\<exists>ws w'. StartWorkersContext s n (Inr u) w = (Inr ws, w')" for n w
  proof (cases "os_rabbit s")
    case True
    obtain ws w' where "startRabbitWorkers (worker_count n) (Inr u) w = (Inr ws, w')"
      unfolding startRabbitWorkers_def sum.case
      using log_then [where x = "map QueueConsumer [1..<Suc (worker_count n)]" and w = w] by (metis (no_types, lifting))
    with True show ?thesis by (simp add: StartWorkersContext_def Let_def bindE_def attempt_def ret_def)
  qed (simp add: StartWorkersContext_def Let_def ret_def)
  have 2: "\<exists>c w'. StartCompensationWorkerContext cc w = (Inr c, w')" for cc w
  proof (cases "wc_enabled cc")
    case True
    then show ?thesis
      unfolding StartCompensationWorkerContext_def Let_def by (simp only: not_True_eq_False if_False) (rule exI, rule log_then)
  qed (simp add: StartCompensationWorkerContext_def ret_def)
  from 1 obtain ws w1 where s: "StartWorkersContext s (cf_WorkerCount cfg) (Inr u) w = (Inr ws, w1)" by blast
  from 2 obtain c w2 where "StartCompensationWorkerContext (compensation_config cfg) w1 = (Inr c, w2)" by blast
  with s show ?thesis by (simp add: start_background_def bindE_def ret_def)
qed

definition rabbit_app :: app where
  "rabbit_app = demo_app\<lparr>ap_services := \<lparr>dp_orders = \<lparr>os_cache = False, os_rabbit = True, os_max_retries = 3\<rparr>,
     dp_auth = dp_auth (ap_services demo_app)\<rparr>\<rparr>"

definition broken_broker :: world where
  "broken_broker = demo\<lparr>ext := calm\<lparr>fault := \<lambda>_. Some (DriverError ''closed'')\<rparr>\<rparr>"

theorem fallback_tasks_stranded_witness:
  "tasks (snd (publishOrderTask (dp_orders (ap_services rabbit_app)) ''A'' broken_broker)) = [''A'']"
proof -
  let ?s = "dp_orders (ap_services rabbit_app)"
  have r: "os_rabbit ?s" by (simp add: rabbit_app_def)
  obtain ws w1 where start: "start_background ?s (ap_config rabbit_app) (Inr ()) demo = (Inr ws, w1)" using start_total by blast
  obtain x v' where pub: "publishOrderTask ?s ''A'' broken_broker = (x, v')" by fastforce
  have p: "process_reachable rabbit_app ws demo_server (process_start ws demo_server)" by (simp add: process_reachable_def)
  have f: "fault (ext broken_broker) (tick broken_broker) = Some (DriverError ''closed'')" "tasks broken_broker = []"
    by (simp_all add: broken_broker_def demo_def fresh_world_def)
  from fallback_tasks_stranded [OF r start p rtranclp.rtrancl_refl f(1) _ _ pub] f(2) pub show ?thesis by simp
qed

end
