(* ===== verification/StartUp.thy ===== *)
theory StartUp
  imports Scenario
begin

text \<open>
  Opening a database of an earlier version: the property of the migration of theory \<^theory_text>\<open>Migration\<close>, and
  a shop whose orders have no keys.
\<close>

text \<open>
  C37: opening the database makes its tables consistent.  Tables that satisfy the ledger but for the keys of orders,
  which may be missing or empty, satisfy all of it when the migration is done: every order has the key of its user
  and activity, no key occurs twice, nothing else of an order has changed but its time of change; every activity
  has a status and every user a role.  When no statement fails, the migration succeeds.
\<close>

theorem migration_restores_ledger:
  assumes "legacy_inv (tables w)"
  shows "(quiet (ext w) \<longrightarrow> (\<exists>w'. open_migrations w = (Inr (), w'))) \<and>
    (\<forall>w'. open_migrations w = (Inr (), w') \<longrightarrow>
      ledger_inv (tables w') \<and> map bare (orders (tables w')) = map bare (orders (tables w)) \<and>
      map a_stock (activities (tables w')) = map a_stock (activities (tables w)) \<and>
      (\<forall>a\<in>set (activities (tables w')). a_status a \<noteq> '''') \<and> (\<forall>u\<in>set (users (tables w')). u_role u \<noteq> ''''))"
proof (intro conjI allI impI ballI)
  show "\<exists>w'. open_migrations w = (Inr (), w')" if "quiet (ext w)" using migrations_ok [OF that assms] .
  fix w' assume "open_migrations w = (Inr (), w')"
  then obtain w1 w2 where b: "backfillActivityOrderKeys w = (Inr (), w1)"
    and s: "default_activity_status w1 = (Inr (), w2)" and u: "default_user_role w2 = (Inr (), w')"
    by (auto simp: open_migrations_def bindE_ok)
  note restored = backfill_restores [OF b assms]
  have kept: "activities (tables w1) = activities (tables w)"
    using arg_cong [OF restored [THEN conjunct2, THEN conjunct1], of activities] by simp
  have t: "activities (tables w2) = map (\<lambda>a. if a_status a = '''' then a\<lparr>a_status := ActivityStatusPublished,
      a_updated := clock (ext w1) (tick w1)\<rparr> else a) (activities (tables w))" "orders (tables w2) = orders (tables w1)"
    using s kept by (auto simp: default_activity_status_def stmt_ok)
  have t': "activities (tables w') = activities (tables w2)" "orders (tables w') = orders (tables w2)"
    "users (tables w') = map (\<lambda>x. if u_role x = '''' then x\<lparr>u_role := UserRoleUser, u_updated := clock (ext w2) (tick w2)\<rparr> else x) (users (tables w2))"
    using u by (auto simp: default_user_role_def stmt_ok)
  show "ledger_inv (tables w')"
    using restored tracksD [OF obeys_status s] tracksD [OF obeys_role u] evs_ledger unfolding obeys_def by blast
  show "map bare (orders (tables w')) = map bare (orders (tables w))" using restored [THEN conjunct2, THEN conjunct2] t(2) t'(2) by simp
  show "map a_stock (activities (tables w')) = map a_stock (activities (tables w))" by (simp add: t t')
  show "a_status a \<noteq> ''''" if "a \<in> set (activities (tables w'))" for a using that by (auto simp: t t' activity_status_defs)
  show "u_role x \<noteq> ''''" if "x \<in> set (users (tables w'))" for x using that by (auto simp: t'(3) user_role_defs)
qed

definition keyless :: world where
  "keyless = demo\<lparr>tables := demo_tables\<lparr>orders := map (\<lambda>x. x\<lparr>o_key := if o_id x = 1 then Some '''' else None\<rparr>) (orders demo_tables)\<rparr>\<rparr>"

theorem migration_restores_ledger_witness:
  "\<exists>w'. open_migrations keyless = (Inr (), w') \<and> ledger_inv (tables w') \<and> length (orders (tables w')) = 3"
proof -
  have "map bare (orders (tables keyless)) = map bare (orders demo_tables)"
    by (simp add: keyless_def bare_def)
  then have same: "map bare (orders (tables keyless)) = map bare (orders demo_tables)"
    "tables keyless = demo_tables\<lparr>orders := orders (tables keyless)\<rparr>" by (simp_all add: keyless_def)
  have "\<forall>x\<in>set (orders (tables keyless)). legacy_key x"
    by (simp add: keyless_def legacy_key_def demo_tables_def demo_order_def)
  then have "legacy_inv (tables keyless)"
    using same_bare [OF same] demo_ledger by (simp add: legacy_inv_def ledger_inv_def)
  from migration_restores_ledger [OF this] obtain w' where w': "open_migrations keyless = (Inr (), w')" "ledger_inv (tables w')"
    "map bare (orders (tables w')) = map bare (orders (tables keyless))"
    by (auto simp: keyless_def quiet_def calm_def)
  have "length (orders (tables w')) = 3"
    using arg_cong [OF w'(3), of length] by (simp add: keyless_def demo_tables_def)
  with w' show ?thesis by blast
qed

end
