(* ===== verification/Spec2Isabelle.thy ===== *)
theory Spec2Isabelle
  imports Delivery CustomerProps Verdict Races PressureRun Links TaskChannel StartUp
begin

text \<open>
  A model of the order service of this repository, in Go under \<^verbatim>\<open>src/\<close>, and what holds of it.

  \<^bold>\<open>The program.\<close>  \<^verbatim>\<open>cmd/server\<close> serves a shop over HTTP: accounts, addresses, a cart, coupons,
  products, and activities, limited offers of which a user may order one unit.  The data is in a SQL
  database.  Two optional systems take part: Redis holds a counter and a set of buyers per activity and
  decides first who gets a unit (\<^verbatim>\<open>redis_stock.go\<close>, Lua scripts), and RabbitMQ carries the numbers
  of new orders to workers that move them from QUEUED to WAIT_PAY (\<^verbatim>\<open>rabbitmq.go\<close>); without a broker
  a channel inside the process does.  A compensation worker requeues and closes overdue orders and
  ends activities.  \<^verbatim>\<open>cmd/pressure\<close> is a load generator that checks the service from outside.

  \<^bold>\<open>How it is modelled.\<close>  Theory \<^theory_text>\<open>World\<close>: the state is a record of the tables, Redis, the queues
  and the task channel; a method is a function of the state that gives an error or a value and the state
  it leaves.  Everything the systems outside decide is the record \<open>outside\<close>, a parameter that no
  definition looks into: which call fails, whether a failed call to Redis or the broker took effect, the
  clock, random bytes, gaps in identifiers, the wording of errors.  A statement about a run is a
  statement for all failures.  Go's \<open>int\<close> is an integer with the wrap-around of 64 bits written
  out (\<open>wrap64\<close>), counters of the metrics are 64-bit words, \<open>float64\<close> is rounded as IEEE 754 has it.

  \<^item> \<^theory_text>\<open>Prelude\<close>, \<^theory_text>\<open>Json\<close>, \<^theory_text>\<open>Sha256\<close>, \<^theory_text>\<open>Float64\<close>, \<^theory_text>\<open>FloatText\<close>: integers, decimal text, lists of
    rows; the parts of the standard library that the code uses.
  \<^item> \<^theory_text>\<open>Model\<close> (\<^verbatim>\<open>internal/model\<close>), \<^theory_text>\<open>Store\<close> (the statements sent through gorm, the migration of
    \<^verbatim>\<open>internal/database\<close>), \<^theory_text>\<open>RedisStock\<close>, \<^theory_text>\<open>Rabbit\<close>, \<^theory_text>\<open>Catalog\<close>, \<^theory_text>\<open>OrderCreate\<close>, \<^theory_text>\<open>OrderLife\<close>,
    \<^theory_text>\<open>Workers\<close>, \<^theory_text>\<open>Shop\<close> (cart, addresses, coupons), \<^theory_text>\<open>Accounts\<close>, \<^theory_text>\<open>Admin\<close>: \<^verbatim>\<open>internal/service\<close>, one definition
    per method and transaction body.
  \<^item> \<^theory_text>\<open>Config\<close>, \<^theory_text>\<open>Limiter\<close>, \<^theory_text>\<open>Metrics\<close>, \<^theory_text>\<open>Http\<close>, \<^theory_text>\<open>Handlers\<close>, \<^theory_text>\<open>Server\<close>: \<^verbatim>\<open>internal/config\<close>,
    \<^verbatim>\<open>middleware\<close>, \<^verbatim>\<open>metrics\<close>, \<^verbatim>\<open>handler\<close>, \<^verbatim>\<open>response\<close> and the routes of \<^verbatim>\<open>cmd/server/main.go\<close>.
  \<^item> \<^theory_text>\<open>Links\<close>, \<^theory_text>\<open>Lifecycle\<close>: the connections \<^verbatim>\<open>main\<close> opens, the goroutines it starts, and its shutdown,
    a step relation on the phases of the process.
  \<^item> \<^theory_text>\<open>Load\<close>, \<^theory_text>\<open>Pressure\<close>, \<^theory_text>\<open>PressureRun\<close>: \<^verbatim>\<open>cmd/pressure/main.go\<close>.

  \<^bold>\<open>What is shown.\<close>
  \<^item> \<^theory_text>\<open>Ledger\<close> is the abstract specification: one rule per business event on the tables.  \<^theory_text>\<open>Invariants\<close>
    proves its invariant (unique keys, references, stock never negative, stock plus live orders constant, one
    order per user and activity, paid exactly when one payment succeeded).  \<^theory_text>\<open>Effects\<close> and \<^theory_text>\<open>Refinement\<close> show
    that every transaction and method performs only such events, through the locale \<open>table_preorder\<close>;
    \<^theory_text>\<open>System\<close> composes the methods and worker turns into a transition system, whose properties are below.
    A step is also the server started again, which loses the task channel: \<^theory_text>\<open>Migration\<close> shows that what
    \<open>database.Open\<close> writes then changes no consistent table, and \<^theory_text>\<open>StartUp\<close> that it repairs tables of
    an earlier version.
  \<^item> \<^theory_text>\<open>Runs\<close> follows the readings of the clock through a run, for what is promised of an instant during a call.
    \<^theory_text>\<open>OrderProps\<close>, \<^theory_text>\<open>Liveness\<close>, \<^theory_text>\<open>Delivery\<close>: the effect of the order operations on every branch, that
    due orders are closed and queues drained when nothing outside fails, that no acknowledged message is lost.
  \<^item> \<^theory_text>\<open>RedisStock\<close> states the contract of the stock cache as the locale \<open>stock_cache\<close> and interprets it on the
    scripts; \<^theory_text>\<open>StockProps\<close> and \<^theory_text>\<open>Verdict\<close> use it: what an order takes from Redis, what a reconciliation
    repairs, and that the paths with and without Redis decide alike.
  \<^item> \<^theory_text>\<open>CustomerProps\<close>: addresses, carts (whose quantities may wrap around), coupons, accounts.  \<^theory_text>\<open>HttpRules\<close> and \<^theory_text>\<open>HttpProps\<close> lift relations through
    middleware (locales \<open>world_preorder\<close> and \<open>reply_statement\<close>) and state what clients see.
    \<^theory_text>\<open>Races\<close> lets the transactions that take orders overlap: safe with Redis, oversold without.
    \<^theory_text>\<open>TaskChannel\<close> holds a defect of the task channel; \<^theory_text>\<open>Scenario\<close> and \<^theory_text>\<open>HttpScenario\<close> the concrete states of the witnesses.

  \<^bold>\<open>Bounds and fuel.\<close>  The JSON parser takes twice the length of the text plus two as fuel, one unit per
  nested value and per member, so a document never runs out of it; strings take one unit per
  byte.  The waiting loop of the load generator terminates because every round moves its clock by 200 ms.
  Percentiles are exact up to \<open>2^40\<close> samples.

  \<^bold>\<open>Parameters.\<close>  Signing and parsing JSON web tokens, binding JSON bodies, matching URLs against routes,
  \<open>strconv.ParseFloat\<close>, and the conversion of a float out of range are arguments of the definitions
  that use them.

  \<^bold>\<open>What the model takes for granted.\<close>  A transaction is serialised and a call of a method is one
  step: interleavings are those of whole calls and worker turns.  With SQLite, the default, this is what happens,
  since \<open>database.Open\<close> allows one connection.  MySQL's default isolation promises less, and
  \<^theory_text>\<open>Races\<close> shows what that means for taking orders: the conditional update and the unique key of the path
  with Redis need no more, the path without Redis does.  No transaction locks the rows it reads, and nearly all save
  whole rows; \<^theory_text>\<open>Races\<close> also has the two cases of a status update that loses a sale and of a payment that
  revives a cancelled order.  The others are not split: what is said of them holds for transactions in a row.
  A statement or a commit that reports an error has had no effect, and texts are compared byte by byte.

  \<^bold>\<open>Not modelled\<close>, because it is I/O or the libraries' own: sockets, the delivery of signals, drivers and
  the schema changes of AutoMigrate, the scheduling of goroutines beyond their turns, the writing of JSON
  replies, recovery from panics, log lines on the console, and the report file of the load generator.
\<close>

section \<open>Properties of the whole system\<close>

lemma reachable_later: "reachable d w \<Longrightarrow> (svc_step d)\<^sup>*\<^sup>* w w' \<Longrightarrow> evs (tables w) (tables w')"
  using steps_obey reachable_ledger unfolding obeys_def by blast

text \<open>
  C1: the stock of an activity is never oversold.  In every reachable state an activity has
  non-negative stock, and from any reachable state on, whatever operations run with whatever
  failures and however often the server is started again, its stock plus the live (queued, waiting or paid) orders that hold a unit of it stays
  the same.
\<close>

theorem activity_never_oversold:
  assumes "reachable d w" and "(svc_step d)\<^sup>*\<^sup>* w w'" and "act \<in> set (activities (tables w))"
  shows "\<exists>act'\<in>set (activities (tables w')). a_id act' = a_id act \<and> 0 \<le> a_stock act' \<and>
    a_stock act' + int (length (filter (\<lambda>x. live x \<and> o_activity x = a_id act) (orders (tables w')))) =
    a_stock act + int (length (filter (\<lambda>x. live x \<and> o_activity x = a_id act) (orders (tables w))))"
  using evs_activity_stock [OF reachable_later [OF assms(1,2)] reachable_ledger [OF assms(1)] assms(3)] .

theorem activity_never_oversold_witness:
  "\<exists>act'\<in>set (activities (tables demo_run)). a_id act' = 1 \<and> 0 \<le> a_stock act' \<and> a_stock act' + 1 = 2"
  using activity_never_oversold [OF demo_run_reachable rtranclp.rtrancl_refl, of "hd (activities (tables demo_run))"]
  by (simp add: demo_run_tables live_def)

text \<open>
  C2: the stock of a product is never oversold either: it stays non-negative, and stock plus the
  quantities on the order lines of live orders is constant from any reachable state on.
\<close>

theorem product_never_oversold:
  assumes "reachable d w" and "(svc_step d)\<^sup>*\<^sup>* w w'" and "p \<in> set (products (tables w))"
  shows "\<exists>p'\<in>set (products (tables w')). p_id p' = p_id p \<and> 0 \<le> p_stock p' \<and>
    p_stock p' + sold (orders (tables w')) (order_items (tables w')) (p_id p) =
    p_stock p + sold (orders (tables w)) (order_items (tables w)) (p_id p)"
  using evs_product_stock [OF reachable_later [OF assms(1,2)] reachable_ledger [OF assms(1)] assms(3)] .

theorem product_never_oversold_witness:
  "\<exists>p'\<in>set (products (tables demo_run)). p_id p' = 1 \<and> 0 \<le> p_stock p' \<and> p_stock p' = 5"
  using product_never_oversold [OF demo_run_reachable rtranclp.rtrancl_refl, of "hd (products (tables demo_run))"]
  by (simp add: demo_run_tables sold_def item_sum_def)

text \<open>
  C3: a user never holds two orders of the same activity, whichever path (database or Redis)
  created them, and in whatever order requests, retries and failures came.
\<close>

theorem one_order_per_activity:
  assumes "reachable d w" and "x \<in> set (orders (tables w))" and "y \<in> set (orders (tables w))"
    and "0 < o_activity x" and "o_user x = o_user y" and "o_activity x = o_activity y"
  shows "x = y"
proof -
  note inv = reachable_ledger [OF assms(1)]
  then have "o_id x = o_id y" using assms unfolding ledger_inv_def once_inv_def by blast
  moreover have "distinct (map o_id (orders (tables w)))" using inv by (simp add: ledger_inv_def keys_inv_def)
  ultimately show ?thesis using assms(2,3) distinct_key_unique by metis
qed

theorem one_order_per_activity_witness:
  "hd (orders (tables demo_run)) = last (orders (tables demo_run))"
  using one_order_per_activity [OF demo_run_reachable, of "hd (orders (tables demo_run))" "last (orders (tables demo_run))"]
  by (simp add: demo_run_tables)

text \<open>
  C4: in every reachable state an order is PAID exactly when one successful payment is recorded
  for its number, and no order has two of them; payment callbacks may be repeated and reordered.
\<close>

theorem paid_iff_one_payment:
  assumes "reachable d w" and "ord \<in> set (orders (tables w))"
  shows "success_payments (payments (tables w)) (o_order_no ord) = (if o_status ord = OrderStatusPaid then 1 else 0)"
  using reachable_ledger [OF assms(1)] assms(2) by (simp add: ledger_inv_def paid_inv_def)

theorem paid_iff_one_payment_witness:
  "success_payments (payments (tables demo_run)) ''ORD2026010100000000000000'' = 0"
  using paid_iff_one_payment [OF demo_run_reachable, of "hd (orders (tables demo_run))"]
  by (simp add: demo_run_tables)

text \<open>
  C5: the life of an order.  From any reachable state on an order row is never lost and never
  changes its number, owner, contents or amounts; its status only moves along QUEUED, WAIT_PAY,
  PAID or from an open status to CANCELLED or CLOSED, so a paid, cancelled or closed order stays so.
\<close>

theorem order_life:
  assumes "reachable d w" and "(svc_step d)\<^sup>*\<^sup>* w w'" and "ord \<in> set (orders (tables w))"
  shows "\<exists>ord'\<in>set (orders (tables w')).
    ord' = ord\<lparr>o_status := o_status ord', o_updated := o_updated ord'\<rparr> \<and>
    status_path (o_status ord) (o_status ord') \<and>
    (o_status ord = OrderStatusPaid \<or> o_status ord = OrderStatusCancelled \<or> o_status ord = OrderStatusClosed
      \<longrightarrow> o_status ord' = o_status ord)"
proof -
  from evs_order_kept [OF reachable_later [OF assms(1,2)] reachable_ledger [OF assms(1)] assms(3)]
  obtain ord' where ord': "ord' \<in> set (orders (tables w'))" and kept: "order_kept ord ord'" by blast
  show ?thesis
  proof (rule bexI [OF _ ord'], intro conjI impI)
    show "ord' = ord\<lparr>o_status := o_status ord', o_updated := o_updated ord'\<rparr>"
      and path: "status_path (o_status ord) (o_status ord')"
      using kept unfolding order_kept_def by blast+
    show "o_status ord' = o_status ord" if "o_status ord = OrderStatusPaid \<or>
      o_status ord = OrderStatusCancelled \<or> o_status ord = OrderStatusClosed"
      using path that by (auto simp: status_path_def)
  qed
qed

theorem order_life_witness:
  "\<exists>ord'\<in>set (orders (tables demo_run)). o_order_no ord' = ''ORD2026010100000000000000'' \<and>
     status_path OrderStatusQueued (o_status ord')"
  using order_life [OF demo_run_reachable rtranclp.rtrancl_refl, of "hd (orders (tables demo_run))"]
  by (simp add: demo_run_tables)

text \<open>
  C30: the rows of orders are well formed.  In every reachable state an order has one of the five statuses.  An
  order of an activity names an existing activity and carries the unique key of its user and activity; an
  order of a cart has no key and is never QUEUED.  An order line has a positive quantity of an existing product and
  belongs to an order of a cart; a payment belongs to an order.
\<close>

theorem order_rows_well_formed:
  assumes "reachable d w"
  shows "(\<forall>x\<in>set (orders (tables w)).
      o_status x \<in> {OrderStatusQueued, OrderStatusWaitPay, OrderStatusPaid, OrderStatusCancelled, OrderStatusClosed} \<and>
      o_key x = NewActivityOrderKey (o_user x) (o_activity x) \<and>
      (if o_activity x = 0 then o_key x = None \<and> o_status x \<noteq> OrderStatusQueued
       else \<exists>act\<in>set (activities (tables w)). a_id act = o_activity x)) \<and>
    (\<forall>i\<in>set (order_items (tables w)). 0 < oi_quantity i \<and> (\<exists>p\<in>set (products (tables w)). p_id p = oi_product i) \<and>
      (\<exists>x\<in>set (orders (tables w)). o_order_no x = oi_order_no i \<and> o_activity x = 0)) \<and>
    (\<forall>p\<in>set (payments (tables w)). \<exists>x\<in>set (orders (tables w)). o_order_no x = pm_order_no p)"
proof -
  note inv = reachable_ledger [OF assms]
  obtain w0 where "tables w0 = empty_tables" "(svc_step d)\<^sup>*\<^sup>* w0 w" using assms unfolding reachable_def by blast
  then have "evs empty_tables (tables w)" using steps_obey ledger_inv_empty unfolding obeys_def by metis
  then have "\<forall>x\<in>set (orders (tables w)). status_fits x"
    by (rule evs_fits [OF _ ledger_inv_empty]) (simp add: empty_tables_def)
  moreover have "refs_inv (tables w)" "keyed_inv (tables w)" using inv by (simp_all add: ledger_inv_def)
  ultimately show ?thesis
    unfolding status_fits_def refs_inv_def keyed_inv_def image_iff
    by (auto simp: NewActivityOrderKey_None_iff) metis+
qed

theorem order_rows_well_formed_witness:
  "o_key (hd (orders (tables demo_run))) = NewActivityOrderKey 1 1 \<and> (\<exists>act\<in>set (activities (tables demo_run)). a_id act = 1)"
proof -
  have "hd (orders (tables demo_run)) \<in> set (orders (tables demo_run))" "o_user (hd (orders (tables demo_run))) = 1"
    "o_activity (hd (orders (tables demo_run))) = 1" by (simp_all add: demo_run_tables)
  with order_rows_well_formed [OF demo_run_reachable] show ?thesis by fastforce
qed

text \<open>
  C36: the services refine the ledger.  Whatever operation runs in a reachable state, with whatever
  retries, failed calls and rolled back transactions, the tables change only by events of the abstract
  ledger of theory \<^theory_text>\<open>Ledger\<close>, whose invariant holds again afterwards; and the empty shop is
  an initial state of the ledger.
\<close>

theorem steps_refine_ledger:
  assumes "reachable d w" and "svc_step d w w'"
  shows "evs (tables w) (tables w') \<and> ledger_inv (tables w') \<and> evs empty_tables (tables w')"
proof -
  have "evs (tables w) (tables w')"
    using svc_step_obeys [OF assms(2)] reachable_ledger [OF assms(1)] by (simp add: obeys_def)
  moreover from this have "ledger_inv (tables w')" using reachable_ledger [OF assms(1)] evs_ledger by blast
  moreover have "evs empty_tables (tables w)"
    using assms(1) steps_obey ledger_inv_empty unfolding reachable_def obeys_def by metis
  ultimately show ?thesis by (meson rtranclp_trans)
qed

theorem steps_refine_ledger_witness:
  "evs empty_tables (tables (snd (ExpireOrders (dp_orders plain) 60 demo_run)))"
  using steps_refine_ledger [OF demo_run_reachable s_expire [OF surjective_pairing]] by simp

end
